(* ===== verification/Prelude.thy ===== *)
theory Prelude
  imports Main "HOL-Library.Word"
begin

text \<open>
  Shared vocabulary of the development.

  \<^item> machine integers of the Rust code (\<open>u8\<close>, \<open>u16\<close>, \<open>u32\<close>, \<open>u64\<close>) as words, byte buffers as
    lists of \<open>u8\<close>, and \<open>str\<close>/\<open>String\<close> as \<open>string\<close>: a HOL \<open>char\<close> stands for one byte of the UTF-8
    encoding, so \<open>length\<close> is Rust's \<open>len()\<close> and \<open>bytes_of\<close> is \<open>as_bytes()\<close>;
  \<^item> results: \<open>Ok\<close> and \<open>Err\<close> are the variants of \<open>std::io::Result\<close>; \<open>Panic\<close> is an unwinding panic
    (\<open>unwrap\<close>, \<open>expect\<close>, arithmetic overflow), which no \<open>?\<close> and no \<open>match\<close> of the code catches;
  \<^item> futures: an \<open>async fn\<close> is a function from the world to \<open>Some (result, world)\<close>, or \<open>None\<close> when
    the future never resolves; \<open>io_bind\<close> is \<open>.await?\<close>;
  \<^item> big-endian encodings and the integer formatting the error messages use.
\<close>

named_theorems io_simps \<open>equations that run the future combinators\<close>
named_theorems str_simps \<open>evaluation of the string operations\<close>

section \<open>Types\<close>

type_synonym u8 = "8 word"
type_synonym u16 = "16 word"
type_synonym u32 = "32 word"
type_synonym u64 = "64 word"
type_synonym bytes = "u8 list"

datatype error_kind = InvalidInput | InvalidData | TimedOut | NotFound | UnexpectedEof | Other

datatype io_error = IoError error_kind string

primrec err_kind :: "io_error \<Rightarrow> error_kind" where
  "err_kind (IoError k m) = k"

text \<open>\<open>to_string()\<close> of an error built with a message.\<close>

primrec err_msg :: "io_error \<Rightarrow> string" where
  "err_msg (IoError k m) = m"

datatype 'a result = Ok 'a | Err io_error | Panic string

text \<open>\<open>io::Error::other\<close>.\<close>

abbreviation err_other :: "string \<Rightarrow> 'a result" where
  "err_other m \<equiv> Err (IoError Other m)"

abbreviation err_invalid :: "string \<Rightarrow> 'a result" where
  "err_invalid m \<equiv> Err (IoError InvalidInput m)"

fun is_ok :: "'a result \<Rightarrow> bool" where
  "is_ok (Ok _) = True"
| "is_ok _ = False"

fun is_err :: "'a result \<Rightarrow> bool" where
  "is_err (Err _) = True"
| "is_err _ = False"

fun is_panic :: "'a result \<Rightarrow> bool" where
  "is_panic (Panic _) = True"
| "is_panic _ = False"

lemma is_ok_iff: "is_ok r \<longleftrightarrow> (\<exists>x. r = Ok x)"
  by (cases r) auto

lemma is_panic_iff: "is_panic r \<longleftrightarrow> (\<exists>m. r = Panic m)"
  by (cases r) auto

lemma is_err_iff: "is_err r \<longleftrightarrow> (\<exists>e. r = Err e)"
  by (cases r) auto

lemma is_ok_unit: "is_ok r \<longleftrightarrow> r = Ok ()"
  by (cases r) auto

text \<open>The question-mark operator on results.\<close>

fun bind_r :: "'a result \<Rightarrow> ('a \<Rightarrow> 'b result) \<Rightarrow> 'b result" where
  "bind_r (Ok x) f = f x"
| "bind_r (Err e) f = Err e"
| "bind_r (Panic p) f = Panic p"

primrec map_result :: "('a \<Rightarrow> 'b) \<Rightarrow> 'a result \<Rightarrow> 'b result" where
  "map_result f (Ok x) = Ok (f x)"
| "map_result f (Err e) = Err e"
| "map_result f (Panic p) = Panic p"

lemma bind_r_Ok_iff [simp]: "bind_r r f = Ok y \<longleftrightarrow> (\<exists>x. r = Ok x \<and> f x = Ok y)"
  by (cases r) auto

lemma bind_r_no_panic: "\<not> is_panic r \<Longrightarrow> (\<And>x. r = Ok x \<Longrightarrow> \<not> is_panic (f x)) \<Longrightarrow> \<not> is_panic (bind_r r f)"
  by (cases r) auto

section \<open>Futures\<close>

type_synonym ('w, 'a) io = "'w \<Rightarrow> ('a result \<times> 'w) option"

definition io_lift :: "'a result \<Rightarrow> ('w, 'a) io" where
  "io_lift r w = Some (r, w)"

abbreviation io_ok :: "'a \<Rightarrow> ('w, 'a) io" where
  "io_ok x \<equiv> io_lift (Ok x)"

abbreviation io_err :: "io_error \<Rightarrow> ('w, 'a) io" where
  "io_err e \<equiv> io_lift (Err e)"

definition io_bind :: "('w, 'a) io \<Rightarrow> ('a \<Rightarrow> ('w, 'b) io) \<Rightarrow> ('w, 'b) io" where
  "io_bind m f w =
     Option.bind (m w) (\<lambda>(r, w'). case r of
         Ok x \<Rightarrow> f x w'
       | Err e \<Rightarrow> Some (Err e, w')
       | Panic p \<Rightarrow> Some (Panic p, w'))"

text \<open>
  \<open>io_catch\<close> hands the \<open>Ok\<close>/\<open>Err\<close> outcome to a \<open>match\<close>; a panic keeps unwinding.
\<close>

definition io_catch :: "('w, 'a) io \<Rightarrow> ('a \<Rightarrow> ('w, 'b) io) \<Rightarrow> (io_error \<Rightarrow> ('w, 'b) io) \<Rightarrow> ('w, 'b) io" where
  "io_catch m f g w =
     Option.bind (m w) (\<lambda>(r, w'). case r of
         Ok x \<Rightarrow> f x w'
       | Err e \<Rightarrow> g e w'
       | Panic p \<Rightarrow> Some (Panic p, w'))"

lemma io_lift_apply [io_simps, simp]: "io_lift r w = Some (r, w)"
  by (simp add: io_lift_def)

lemma io_bind_None [io_simps]: "m w = None \<Longrightarrow> io_bind m f w = None"
  by (simp add: io_bind_def)

lemma io_bind_Ok [io_simps]: "m w = Some (Ok x, w') \<Longrightarrow> io_bind m f w = f x w'"
  by (simp add: io_bind_def)

lemma io_bind_Err [io_simps]: "m w = Some (Err e, w') \<Longrightarrow> io_bind m f w = Some (Err e, w')"
  by (simp add: io_bind_def)

lemma io_bind_Panic [io_simps]: "m w = Some (Panic p, w') \<Longrightarrow> io_bind m f w = Some (Panic p, w')"
  by (simp add: io_bind_def)

lemma io_bind_lift [io_simps, simp]:
  "io_bind (io_lift r) f w =
     (case r of Ok x \<Rightarrow> f x w | Err e \<Rightarrow> Some (Err e, w) | Panic p \<Rightarrow> Some (Panic p, w))"
  by (simp add: io_bind_def split: result.splits)

lemma io_bind_Ok_iff:
  "io_bind m f w = Some (Ok y, w'') \<longleftrightarrow> (\<exists>x w'. m w = Some (Ok x, w') \<and> f x w' = Some (Ok y, w''))"
  by (cases "m w") (auto simp: io_bind_def split: result.splits)

lemma io_bind_assoc: "io_bind (io_bind m f) g = io_bind m (\<lambda>x. io_bind (f x) g)"
  by (rule ext) (auto simp: io_bind_def split: option.splits result.splits Option.bind_splits)

lemma io_catch_lift [io_simps, simp]:
  "io_catch (io_lift r) f g w =
     (case r of Ok x \<Rightarrow> f x w | Err e \<Rightarrow> g e w | Panic p \<Rightarrow> Some (Panic p, w))"
  by (simp add: io_catch_def split: result.splits)

text \<open>The combinators are monotone, so loops over them can be \<open>partial_function (option)\<close>.\<close>

lemma io_bind_mono [partial_function_mono]:
  assumes "\<And>w. mono_option (\<lambda>f. m f w)" and "\<And>y w. mono_option (\<lambda>f. k y f w)"
  shows "mono_option (\<lambda>f. io_bind (m f) (\<lambda>y. k y f) w)"
  unfolding io_bind_def
  by (intro partial_function_mono assms bind_mono) (auto split: result.splits intro!: monotoneI option.leq_refl dest: monotoneD [OF assms(2)])

lemma io_catch_mono [partial_function_mono]:
  assumes "\<And>w. mono_option (\<lambda>f. m f w)" and "\<And>y w. mono_option (\<lambda>f. k y f w)" and "\<And>e w. mono_option (\<lambda>f. g e f w)"
  shows "mono_option (\<lambda>f. io_catch (m f) (\<lambda>y. k y f) (\<lambda>e. g e f) w)"
  unfolding io_catch_def
  by (intro partial_function_mono assms bind_mono)
    (auto split: result.splits intro!: monotoneI option.leq_refl dest: monotoneD [OF assms(2)] monotoneD [OF assms(3)])

end
