(* ===== verification/Bytes.thy ===== *)
theory Bytes
  imports Prelude
begin

unbundle bit_operations_syntax

text \<open>
  Byte buffers: \<open>as_bytes\<close> and its inverse, \<open>to_be_bytes\<close>/\<open>from_be_bytes\<close> of the unsigned integers
  with their round trips, and slices.
\<close>

named_theorems be_simps \<open>round trips of the big-endian encodings\<close>

section \<open>Strings as bytes\<close>

definition bytes_of :: "string \<Rightarrow> bytes" where
  "bytes_of s = map of_char s"

definition chars_of :: "bytes \<Rightarrow> string" where
  "chars_of bs = map (\<lambda>b. char_of (unat b)) bs"

lemma of_char_inj8: "(of_char c :: u8) = of_char d \<longleftrightarrow> c = d"
proof
  assume "(of_char c :: u8) = of_char d"
  then have "(of_nat (of_char c) :: u8) = of_nat (of_char d)" by (simp only: of_nat_of_char)
  then have "(of_char c :: nat) mod 256 = of_char d mod 256"
    by (simp only: word_of_nat_eq_iff take_bit_eq_mod) simp
  then show "c = d" by simp
qed simp

lemma char_of_byte [simp]: "char_of (unat (of_char c :: u8)) = c"
proof -
  have "unat (of_char c :: u8) = unat (of_nat (of_char c) :: u8)" by (simp only: of_nat_of_char)
  also have "\<dots> = (of_char c :: nat) mod 256" by (simp add: unat_of_nat)
  finally show ?thesis by simp
qed

lemma byte_of_char [simp]: "(of_char (char_of (unat b) :: char) :: u8) = b"
proof -
  have "(of_char (char_of (unat b) :: char) :: u8) = of_nat (of_char (char_of (unat b) :: char))"
    by (simp only: of_nat_of_char)
  also have "\<dots> = of_nat (unat b mod 256)" by (simp only: of_char_of)
  also have "\<dots> = b" using unsigned_less [of b, where 'a = nat] by simp
  finally show ?thesis .
qed

lemma chars_of_bytes_of [simp]: "chars_of (bytes_of s) = s"
  by (simp add: chars_of_def bytes_of_def o_def)

lemma bytes_of_chars_of [simp]: "bytes_of (chars_of bs) = bs"
  by (simp add: chars_of_def bytes_of_def o_def)

lemma bytes_of_inj [simp]: "bytes_of s = bytes_of t \<longleftrightarrow> s = t"
  by (metis chars_of_bytes_of)

lemma length_bytes_of [simp]: "length (bytes_of s) = length s"
  by (simp add: bytes_of_def)

lemma length_chars_of [simp]: "length (chars_of s) = length s"
  by (simp add: chars_of_def)

lemma bytes_of_append [simp]: "bytes_of (s @ t) = bytes_of s @ bytes_of t"
  by (simp add: bytes_of_def)

lemma chars_of_append [simp]: "chars_of (s @ t) = chars_of s @ chars_of t"
  by (simp add: chars_of_def)

lemma bytes_of_Nil [simp]: "bytes_of [] = []" and chars_of_Nil [simp]: "chars_of [] = []"
  by (simp_all add: bytes_of_def chars_of_def)

lemma bytes_of_Nil_iff [simp]: "bytes_of s = [] \<longleftrightarrow> s = []"
  by (simp add: bytes_of_def)

lemma bytes_of_Cons [simp]: "bytes_of (c # s) = of_char c # bytes_of s"
  by (simp add: bytes_of_def)

section \<open>Big-endian integers\<close>

definition be16 :: "u16 \<Rightarrow> bytes" where
  "be16 w = [ucast (drop_bit 8 w), ucast w]"

definition be32 :: "u32 \<Rightarrow> bytes" where
  "be32 w = [ucast (drop_bit 24 w), ucast (drop_bit 16 w), ucast (drop_bit 8 w), ucast w]"

definition be64 :: "u64 \<Rightarrow> bytes" where
  "be64 w = be32 (ucast (drop_bit 32 w)) @ be32 (ucast w)"

definition u16_of_be :: "u8 \<Rightarrow> u8 \<Rightarrow> u16" where
  "u16_of_be a b = push_bit 8 (ucast a) OR ucast b"

definition u32_of_be :: "u8 \<Rightarrow> u8 \<Rightarrow> u8 \<Rightarrow> u8 \<Rightarrow> u32" where
  "u32_of_be a b c d =
     push_bit 24 (ucast a) OR push_bit 16 (ucast b) OR push_bit 8 (ucast c) OR ucast d"

lemma length_be [simp]: "length (be16 w) = 2" "length (be32 v) = 4" "length (be64 u) = 8"
  by (simp_all add: be16_def be32_def be64_def)

lemma u16_of_be_be16 [be_simps, simp]:
  "u16_of_be (ucast (drop_bit 8 w)) (ucast w) = w"
  unfolding u16_of_be_def by (rule bit_word_eqI) (auto simp: bit_simps)

lemma u32_of_be_be32 [be_simps, simp]:
  "u32_of_be (ucast (drop_bit 24 w)) (ucast (drop_bit 16 w)) (ucast (drop_bit 8 w)) (ucast w) = w"
proof (rule bit_word_eqI)
  fix n :: nat assume n: "n < LENGTH(32)"
  consider "n < 8" | "8 \<le> n" "n < 16" | "16 \<le> n" "n < 24" | "24 \<le> n" by linarith
  then show "bit (u32_of_be (ucast (drop_bit 24 w)) (ucast (drop_bit 16 w)) (ucast (drop_bit 8 w)) (ucast w)) n
      = bit w n"
    by cases (use n in \<open>auto simp: bit_simps u32_of_be_def\<close>)
qed

lemma be16_u16_of_be [be_simps]: "be16 (u16_of_be a b) = [a, b]"
proof -
  have hi: "(ucast (drop_bit 8 (u16_of_be a b)) :: u8) = a"
    by (rule bit_word_eqI) (use bit_imp_le_length [of b] in \<open>auto simp: bit_simps u16_of_be_def\<close>)
  have lo: "(ucast (u16_of_be a b) :: u8) = b"
    by (rule bit_word_eqI) (auto simp: bit_simps u16_of_be_def)
  show ?thesis by (simp add: be16_def hi lo)
qed

lemma be16_inj [simp]: "be16 v = be16 w \<longleftrightarrow> v = w"
  by (metis be16_def u16_of_be_be16 list.inject)

lemma not_bit8: "8 \<le> n \<Longrightarrow> \<not> bit (b :: u8) n"
  using bit_imp_le_length [of b n] by auto

lemma bit_u32_of_be: "bit (u32_of_be a b c d) n \<longleftrightarrow> n < 32 \<and>
   (if n < 8 then bit d n else if n < 16 then bit c (n - 8) else if n < 24 then bit b (n - 16) else bit a (n - 24))"
proof -
  have small: "n < 32 \<Longrightarrow> n - k < 32" for k by simp
  consider "n < 8" | "8 \<le> n" "n < 16" | "16 \<le> n" "n < 24" | "24 \<le> n" "n < 32" | "32 \<le> n" by linarith
  then show ?thesis
    by cases (simp_all add: u32_of_be_def bit_or_iff bit_push_bit_iff bit_ucast_iff not_bit8 small)
qed

lemma be32_u32_of_be [be_simps]: "be32 (u32_of_be a b c d) = [a, b, c, d]"
proof -
  have "(ucast (drop_bit 24 (u32_of_be a b c d)) :: u8) = a" "(ucast (drop_bit 16 (u32_of_be a b c d)) :: u8) = b"
    "(ucast (drop_bit 8 (u32_of_be a b c d)) :: u8) = c" "(ucast (u32_of_be a b c d) :: u8) = d"
    by (rule bit_word_eqI; simp add: bit_ucast_iff bit_drop_bit_eq bit_u32_of_be)+
  then show ?thesis by (simp add: be32_def)
qed

lemma be32_inj [simp]: "be32 v = be32 w \<longleftrightarrow> v = w"
proof
  assume eq: "be32 v = be32 w"
  have "u32_of_be (ucast (drop_bit 24 v)) (ucast (drop_bit 16 v)) (ucast (drop_bit 8 v)) (ucast v) =
      u32_of_be (ucast (drop_bit 24 w)) (ucast (drop_bit 16 w)) (ucast (drop_bit 8 w)) (ucast w)"
    using eq unfolding be32_def list.inject by (elim conjE) (simp only:)
  then show "v = w" by (simp only: u32_of_be_be32)
qed simp

lemma u16_of_be_eq_iff: "u16_of_be a b = w \<longleftrightarrow> be16 w = [a, b]"
  by (metis be16_inj be16_u16_of_be)

lemma u32_of_be_eq_iff: "u32_of_be a b c d = w \<longleftrightarrow> be32 w = [a, b, c, d]"
  using be32_inj [of w "u32_of_be a b c d"] unfolding be32_u32_of_be by auto

lemma u16_of_be_inj: "u16_of_be a b = u16_of_be c d \<longleftrightarrow> a = c \<and> b = d"
  by (metis be16_u16_of_be list.inject)

lemma unat_u16_of_be: "unat (u16_of_be a b) = 256 * unat a + unat b"
proof -
  have "u16_of_be a b = push_bit 8 (ucast a) + ucast b"
    unfolding u16_of_be_def
    by (rule disjunctive_add_eq_or [symmetric], rule bit_word_eqI)
      (use bit_imp_le_length [of b] in \<open>force simp: bit_simps\<close>)
  also have "\<dots> = of_nat (256 * unat a + unat b)"
    by (simp add: push_bit_eq_mult mult.commute)
  finally have *: "u16_of_be a b = of_nat (256 * unat a + unat b)" .
  have "256 * unat a + unat b < 2 ^ 16"
    using unsigned_less [of a, where 'a = nat] unsigned_less [of b, where 'a = nat] by simp
  then show ?thesis by (simp only: * unat_of_nat) simp
qed

section \<open>Bit fields\<close>

lemma low3: "unat (b AND 7 :: u8) = unat b mod 8"
proof -
  have "b AND 7 = take_bit 3 b" by (simp add: take_bit_eq_mask mask_eq_exp_minus_1)
  also have "\<dots> = b mod 8" by (simp add: take_bit_eq_mod)
  finally show ?thesis by (simp add: unat_mod)
qed

lemma field3: "unat (drop_bit 3 b AND 7 :: u8) = unat b div 8 mod 8"
  unfolding low3 by (simp add: drop_bit_eq_div unat_div)

lemma low7: "unat (b AND 0x7F :: u8) = unat b mod 128"
proof -
  have "b AND 0x7F = take_bit 7 b" by (simp add: take_bit_eq_mask mask_eq_exp_minus_1)
  also have "\<dots> = b mod 128" by (simp add: take_bit_eq_mod)
  finally show ?thesis by (simp add: unat_mod)
qed

lemma bit7_iff: "bit (b :: u8) 7 \<longleftrightarrow> 128 \<le> unat b"
proof -
  have "bit b 7 \<longleftrightarrow> bit (unat b) 7" by (simp add: bit_unsigned_iff)
  also have "\<dots> \<longleftrightarrow> odd (unat b div 128)" by (simp add: bit_iff_odd)
  also have "\<dots> \<longleftrightarrow> 128 \<le> unat b"
  proof -
    have "unat b div 128 = (if 128 \<le> unat b then 1 else 0)"
      using unsigned_less [of b, where 'a = nat] by (auto simp: div_nat_eqI)
    then show ?thesis by simp
  qed
  finally show ?thesis .
qed

lemma top_bit: "(b AND 0x80 :: u8) = 0 \<longleftrightarrow> unat b < 128"
  using and_exp_eq_0_iff_not_bit [of b 7] bit7_iff [of b] by auto

lemma set_top: "m < 128 \<Longrightarrow> unat (of_nat m OR 0x80 :: u8) = m + 128"
proof -
  assume m: "m < 128"
  then have m': "unat (of_nat m :: u8) = m" by (simp add: unat_of_nat)
  have "(of_nat m :: u8) AND 2 ^ 7 = 0"
    using m m' by (simp add: top_bit)
  then have "of_nat m OR 0x80 = (of_nat m + 0x80 :: u8)"
    by (subst disjunctive_add_eq_or) simp_all
  also have "\<dots> = of_nat (m + 128)" by simp
  finally show ?thesis using m by (simp only: unat_of_nat) simp
qed

lemma high_nibble: "b AND 0xF0 = push_bit 4 c \<longleftrightarrow> unat b div 16 = unat c" if "unat c < 16" for b c :: u8
proof -
  have "b AND 0xF0 = push_bit 4 (drop_bit 4 b)"
  proof (rule bit_word_eqI)
    fix n assume "n < LENGTH(8)"
    then have "n = 0 \<or> n = 1 \<or> n = 2 \<or> n = 3 \<or> n = 4 \<or> n = 5 \<or> n = 6 \<or> n = 7" by (simp, arith)
    then show "bit (b AND 0xF0) n = bit (push_bit 4 (drop_bit 4 b)) n"
      by (elim disjE) (simp_all add: bit_and_iff bit_push_bit_iff bit_drop_bit_eq)
  qed
  moreover have times16: "unat (push_bit 4 d) = 16 * unat d" if "unat d < 16" for d :: u8
  proof -
    have "push_bit 4 d = of_nat (16 * unat d)" by (simp add: push_bit_eq_mult mult.commute)
    then show ?thesis using that by (simp only: unat_of_nat) simp
  qed
  have "unat (drop_bit 4 b) = unat b div 16" by (simp add: drop_bit_eq_div unat_div)
  moreover have "unat b div 16 < 16" using unsigned_less [of b, where 'a = nat] by simp
  ultimately show ?thesis using that times16 [of c] times16 [of "drop_bit 4 b"] by (simp add: word_unat_eq_iff)
qed

section \<open>Slices\<close>

text \<open>\<open>&buf[i..j]\<close> for indices in range.\<close>

definition slice :: "nat \<Rightarrow> nat \<Rightarrow> 'a list \<Rightarrow> 'a list" where
  "slice i j xs = take (j - i) (drop i xs)"

text \<open>\<open>buf[i..j].copy_from_slice(src)\<close> for indices in range and \<open>src\<close> of length \<open>j - i\<close>.\<close>

definition copy_at :: "nat \<Rightarrow> 'a list \<Rightarrow> 'a list \<Rightarrow> 'a list" where
  "copy_at i src buf = take i buf @ src @ drop (i + length src) buf"

lemma copy_at_0: "copy_at 0 src buf = src @ drop (length src) buf"
  by (simp add: copy_at_def)

text \<open>Copying right after a prefix that is already filled.\<close>

lemma copy_at_end: "length pre = i \<Longrightarrow> copy_at i src (pre @ buf) = pre @ src @ drop (length src) buf"
  by (simp add: copy_at_def)

text \<open>Checked access: \<open>buf[i]\<close> and \<open>&buf[i..]\<close>.\<close>

definition byte_at :: "bytes \<Rightarrow> nat \<Rightarrow> u8 result" where
  "byte_at buf i = (if i < length buf then Ok (buf ! i) else Panic ''index out of bounds'')"

definition slice_from :: "nat \<Rightarrow> bytes \<Rightarrow> bytes result" where
  "slice_from i buf = (if i \<le> length buf then Ok (drop i buf) else Panic ''range start index out of range'')"

lemma length_copy_at [simp]: "i + length src \<le> length buf \<Longrightarrow> length (copy_at i src buf) = length buf"
  by (simp add: copy_at_def)

lemma length_slice [simp]: "j \<le> length xs \<Longrightarrow> i \<le> j \<Longrightarrow> length (slice i j xs) = j - i"
  by (simp add: slice_def)

end
