(* ===== verification/Strings.thy ===== *)
theory Strings
  imports Bytes
begin

text \<open>
  The parts of \<open>str\<close> and \<open>core::fmt\<close> the program uses, over the UTF-8 bytes of a string:
  prefixes, searching, splitting, \<open>lines\<close>, trimming of Unicode white space, ASCII case, decimal
  and hexadecimal formatting, and \<open>str::parse::<i32>\<close>.
\<close>

section \<open>Searching and splitting\<close>

definition starts_with :: "'a list \<Rightarrow> 'a list \<Rightarrow> bool" where
  "starts_with p s = (take (length p) s = p)"

definition strip_prefix :: "'a list \<Rightarrow> 'a list \<Rightarrow> 'a list option" where
  "strip_prefix p s = (if starts_with p s then Some (drop (length p) s) else None)"

text \<open>Position of the first occurrence, as \<open>windows(n).position(..)\<close> and \<open>str::find\<close> give it.\<close>

fun find_sub :: "'a list \<Rightarrow> 'a list \<Rightarrow> nat option" where
  "find_sub p [] = (if p = [] then Some 0 else None)"
| "find_sub p (x # xs) = (if starts_with p (x # xs) then Some 0 else map_option Suc (find_sub p xs))"

definition contains :: "'a list \<Rightarrow> 'a list \<Rightarrow> bool" where
  "contains p s = (find_sub p s \<noteq> None)"

text \<open>\<open>split(c)\<close> on a character: never empty.\<close>

fun split_char :: "'a \<Rightarrow> 'a list \<Rightarrow> 'a list list" where
  "split_char c [] = [[]]"
| "split_char c (x # xs) =
     (if x = c then [] # split_char c xs
      else (case split_char c xs of [] \<Rightarrow> [[x]] | y # ys \<Rightarrow> (x # y) # ys))"

text \<open>The first piece of \<open>split(p)\<close> for a non-empty pattern \<open>p\<close>.\<close>

definition split_first :: "'a list \<Rightarrow> 'a list \<Rightarrow> 'a list" where
  "split_first p s = (case find_sub p s of None \<Rightarrow> s | Some i \<Rightarrow> take i s)"

definition trim_end_matches :: "'a \<Rightarrow> 'a list \<Rightarrow> 'a list" where
  "trim_end_matches c s = rev (dropWhile (\<lambda>x. x = c) (rev s))"

text \<open>\<open>rsplit_once(c)\<close>: the text before and after the last \<open>c\<close>.\<close>

definition rsplit_once :: "'a \<Rightarrow> 'a list \<Rightarrow> ('a list \<times> 'a list) option" where
  "rsplit_once c s =
     (if c \<in> set s
      then Some (rev (tl (dropWhile (\<lambda>x. x \<noteq> c) (rev s))), rev (takeWhile (\<lambda>x. x \<noteq> c) (rev s)))
      else None)"

text \<open>
  \<open>lines()\<close>: pieces that end in \<open>\n\<close>, which is removed together with one \<open>\r\<close> before it; a last
  piece without \<open>\n\<close> is a line unless it is empty, and keeps its \<open>\r\<close>.
\<close>

definition strip_cr :: "string \<Rightarrow> string" where
  "strip_cr l = (if l \<noteq> [] \<and> last l = CHR 0x0D then butlast l else l)"

definition lines :: "string \<Rightarrow> string list" where
  "lines s = (let ps = split_char (CHR 0x0A) s in
     map strip_cr (butlast ps) @ (if last ps = [] then [] else [last ps]))"

abbreviation crlf :: string where
  "crlf \<equiv> [CHR 0x0D, CHR 0x0A]"

section \<open>Trimming\<close>

text \<open>The UTF-8 encodings of the characters with the Unicode property \<open>White_Space\<close>.\<close>

definition white_space :: "string list" where
  "white_space =
     [[CHR 0x09], [CHR 0x0A], [CHR 0x0B], [CHR 0x0C], [CHR 0x0D], [CHR 0x20],
      [CHR 0xC2, CHR 0x85], [CHR 0xC2, CHR 0xA0], [CHR 0xE1, CHR 0x9A, CHR 0x80]]
     @ map (\<lambda>n. [CHR 0xE2, CHR 0x80, char_of (n :: nat)]) [0x80..<0x8B]
     @ [[CHR 0xE2, CHR 0x80, CHR 0xA8], [CHR 0xE2, CHR 0x80, CHR 0xA9], [CHR 0xE2, CHR 0x80, CHR 0xAF],
        [CHR 0xE2, CHR 0x81, CHR 0x9F], [CHR 0xE3, CHR 0x80, CHR 0x80]]"

text \<open>Length of the white-space character a string starts with (0 if none).\<close>

definition ws_len :: "string list \<Rightarrow> string \<Rightarrow> nat" where
  "ws_len ws s = (case filter (\<lambda>p. starts_with p s) ws of [] \<Rightarrow> 0 | p # _ \<Rightarrow> length p)"

fun strip_front :: "string list \<Rightarrow> nat \<Rightarrow> string \<Rightarrow> string" where
  "strip_front ws 0 s = s"
| "strip_front ws (Suc fuel) s =
     (let n = ws_len ws s in if n = 0 then s else strip_front ws fuel (drop n s))"

text \<open>Each round removes at least one byte, so \<open>length s\<close> rounds are enough.\<close>

definition trim_start :: "string \<Rightarrow> string" where
  "trim_start s = strip_front white_space (length s) s"

definition trim_end :: "string \<Rightarrow> string" where
  "trim_end s = rev (strip_front (map rev white_space) (length s) (rev s))"

definition trim :: "string \<Rightarrow> string" where
  "trim s = trim_end (trim_start s)"

section \<open>ASCII case\<close>

definition to_lower :: "char \<Rightarrow> char" where
  "to_lower c = (let n = of_char c :: nat in if 65 \<le> n \<and> n \<le> 90 then char_of (n + 32) else c)"

definition to_ascii_lowercase :: "string \<Rightarrow> string" where
  "to_ascii_lowercase s = map to_lower s"

definition eq_ignore_ascii_case :: "string \<Rightarrow> string \<Rightarrow> bool" where
  "eq_ignore_ascii_case s t = (to_ascii_lowercase s = to_ascii_lowercase t)"

definition ascii :: "string \<Rightarrow> bool" where
  "ascii s = list_all (\<lambda>c. (of_char c :: nat) < 128) s"

section \<open>Integers as text\<close>

definition digit_char :: "nat \<Rightarrow> char" where
  "digit_char d = ''0123456789abcdef'' ! d"

definition is_digit :: "char \<Rightarrow> bool" where
  "is_digit c = (c \<in> set ''0123456789'')"

definition digit_val :: "char \<Rightarrow> nat" where
  "digit_val c = of_char c - 48"

text \<open>\<open>{}\<close> of an unsigned integer.\<close>

fun dec :: "nat \<Rightarrow> string" where
  "dec n = (if n < 10 then [digit_char n] else dec (n div 10) @ [digit_char (n mod 10)])"

declare dec.simps [simp del]

text \<open>\<open>{:x}\<close>, and \<open>{:#x}\<close> / \<open>{:08x}\<close> / \<open>{:#06x}\<close> with their padding.\<close>

fun hex :: "nat \<Rightarrow> string" where
  "hex n = (if n < 16 then [digit_char n] else hex (n div 16) @ [digit_char (n mod 16)])"

declare hex.simps [simp del]

definition pad0 :: "nat \<Rightarrow> string \<Rightarrow> string" where
  "pad0 w s = replicate (w - length s) (CHR ''0'') @ s"

definition hex_alt :: "nat \<Rightarrow> nat \<Rightarrow> string" where
  "hex_alt w n = ''0x'' @ pad0 (w - 2) (hex n)"

definition dec_val :: "string \<Rightarrow> nat" where
  "dec_val s = foldl (\<lambda>a c. 10 * a + digit_val c) 0 s"

text \<open>\<open>str::parse::<i32>\<close>: an optional sign, then one or more ASCII digits, in range.\<close>

definition parse_i32 :: "string \<Rightarrow> int option" where
  "parse_i32 s =
     (let neg = (s \<noteq> [] \<and> hd s = CHR ''-'');
          ds = (if s \<noteq> [] \<and> (hd s = CHR ''-'' \<or> hd s = CHR ''+'') then tl s else s);
          v = (if neg then - int (dec_val ds) else int (dec_val ds))
      in if ds = [] \<or> \<not> list_all is_digit ds then None
         else if - (2 ^ 31) \<le> v \<and> v < 2 ^ 31 then Some v else None)"

text \<open>\<open>Display\<close> of an \<open>i32\<close>.\<close>

definition dec_int :: "int \<Rightarrow> string" where
  "dec_int i = (if i < 0 then ''-'' @ dec (nat (- i)) else dec (nat i))"

text \<open>The dash U+2014 of the texts the programs print, as its UTF-8 bytes.\<close>

definition em_dash :: string where
  "em_dash = [CHR 0xE2, CHR 0x80, CHR 0x94]"

section \<open>Facts the components share\<close>

lemma starts_with_append [simp]: "starts_with p (p @ s)"
  by (simp add: starts_with_def)

lemma starts_with_iff: "starts_with p s \<longleftrightarrow> (\<exists>t. s = p @ t)"
  unfolding starts_with_def by (metis append_eq_conv_conj append_take_drop_id)

lemma starts_with_Nil [simp]: "starts_with [] s"
  by (simp add: starts_with_def)

lemma starts_with_Cons_Cons [simp]: "starts_with (c # cs) (x # xs) \<longleftrightarrow> c = x \<and> starts_with cs xs"
  by (auto simp: starts_with_def)

lemma not_starts_with_Nil [simp]: "\<not> starts_with (c # cs) []"
  by (simp add: starts_with_def)

lemma strip_prefix_append [simp]: "strip_prefix p (p @ s) = Some s"
  by (simp add: strip_prefix_def)

lemma find_sub_set: "find_sub p s \<noteq> None \<Longrightarrow> set p \<subseteq> set s"
proof (induction s)
  case (Cons x xs)
  then show ?case
    using set_take_subset [of "length p" "x # xs"] by (auto simp: starts_with_def split: if_splits)
qed (simp split: if_splits)

lemma find_sub_None_set: "\<not> set p \<subseteq> set s \<Longrightarrow> find_sub p s = None"
  using find_sub_set [of p s] by blast

lemma find_sub_split: "find_sub p s = Some i \<Longrightarrow> i \<le> length s \<and> s = take i s @ p @ drop (i + length p) s"
proof (induction s arbitrary: i)
  case (Cons x xs)
  show ?case
  proof (cases "starts_with p (x # xs)")
    case True
    then show ?thesis using Cons.prems by (auto simp: starts_with_iff)
  next
    case False
    then obtain j where "find_sub p xs = Some j" "i = Suc j" using Cons.prems by auto
    then show ?thesis using Cons.IH [of j] by simp
  qed
qed (simp split: if_splits)

text \<open>The first occurrence is right after a text that lacks the first character of the pattern.\<close>

lemma find_sub_first: "c \<notin> set s \<Longrightarrow> find_sub (c # p) (s @ c # p @ t) = Some (length s)"
  by (induction s) auto

lemma contains_iff: "contains p s \<longleftrightarrow> (\<exists>a b. s = a @ p @ b)"
proof
  assume "contains p s"
  then show "\<exists>a b. s = a @ p @ b" using find_sub_split unfolding contains_def by blast
next
  assume "\<exists>a b. s = a @ p @ b"
  then obtain a b where "s = a @ p @ b" by blast
  then have "find_sub p s \<noteq> None"
  proof (induction a arbitrary: s)
    case Nil
    then have "starts_with p s" by simp
    then show ?case by (cases s) (auto simp: starts_with_def)
  qed auto
  then show "contains p s" by (simp add: contains_def)
qed

text \<open>Padding with a character that is not in the pattern.\<close>

lemma contains_pad:
  assumes "c \<notin> set p" and "p \<noteq> []"
  shows "contains p (s @ replicate n c) \<longleftrightarrow> contains p s"
proof (induction n)
  case (Suc n)
  have snoc: "contains p (t @ [c]) \<longleftrightarrow> contains p t" for t
  proof
    assume "contains p (t @ [c])"
    then obtain a b where ab: "t @ [c] = a @ p @ b" by (auto simp: contains_iff)
    show "contains p t"
    proof (cases b rule: rev_cases)
      case Nil
      then have "last p = c" using ab assms(2) by (metis append_Nil2 last_appendR last_snoc)
      then show ?thesis using assms last_in_set by metis
    next
      case (snoc b' d)
      then have "t = a @ p @ b'" using ab by simp
      then show ?thesis by (auto simp: contains_iff)
    qed
  next
    assume "contains p t"
    then obtain a b where "t @ [c] = a @ p @ (b @ [c])" by (auto simp: contains_iff)
    then show "contains p (t @ [c])" unfolding contains_iff by blast
  qed
  have "s @ replicate (Suc n) c = (s @ replicate n c) @ [c]"
    by (simp add: replicate_append_same)
  then show ?case using snoc Suc by metis
qed simp

lemma split_first_first: "c \<notin> set s \<Longrightarrow> split_first (c # p) (s @ c # p @ t) = s"
  by (simp add: split_first_def find_sub_first)

lemma split_first_none: "c \<notin> set s \<Longrightarrow> c \<in> set p \<Longrightarrow> split_first p s = s"
  by (subst split_first_def, subst find_sub_None_set) auto

lemma split_char_ne_Nil [simp]: "split_char c s \<noteq> []"
  by (induction s) (auto split: list.splits)

lemma span_sep:
  assumes "list_all P xs" and "s = [] \<or> \<not> P (hd s)"
  shows "takeWhile P (xs @ s) = xs" "dropWhile P (xs @ s) = s"
  using assms by (induction xs; cases s; auto)+

lemma dec_val_snoc [simp]: "dec_val (s @ [c]) = 10 * dec_val s + digit_val c"
  by (simp add: dec_val_def)

lemma dec_val_Nil [simp]: "dec_val [] = 0"
  by (simp add: dec_val_def)

lemma digit_cases:
  "d < 10 \<Longrightarrow> d = 0 \<or> d = 1 \<or> d = 2 \<or> d = 3 \<or> d = 4 \<or> d = 5 \<or> d = 6 \<or> d = 7 \<or> d = 8 \<or> d = (9::nat)"
  by arith

lemma digit_val_char [simp]: "d < 10 \<Longrightarrow> digit_val (digit_char d) = d"
  by (drule digit_cases) (auto simp: digit_val_def digit_char_def)

lemma is_digit_char [simp]: "d < 10 \<Longrightarrow> is_digit (digit_char d)"
  by (drule digit_cases) (auto simp: is_digit_def digit_char_def)

lemma dec_ne_Nil [simp]: "dec n \<noteq> []"
  by (subst dec.simps) simp

lemma dec_digits [simp]: "list_all is_digit (dec n)"
proof (induction n rule: dec.induct)
  case (1 n)
  then show ?case by (subst dec.simps) auto
qed

lemma dec_val_dec [simp]: "dec_val (dec n) = n"
proof (induction n rule: dec.induct)
  case (1 n)
  then show ?case
    by (cases "n < 10") (subst dec.simps, simp add: dec_val_def [of "[_]"])+
qed

lemma not_digit_sign: "is_digit c \<Longrightarrow> c \<noteq> CHR ''-'' \<and> c \<noteq> CHR ''+''"
  by (auto simp: is_digit_def)

lemma parse_i32_digits:
  assumes "list_all is_digit ds"
  shows "parse_i32 ds = (if ds = [] \<or> 2 ^ 31 \<le> dec_val ds then None else Some (int (dec_val ds)))"
proof (cases ds)
  case (Cons c cs)
  with assms have "c \<noteq> CHR ''-''" "c \<noteq> CHR ''+''" using not_digit_sign by auto
  with Cons assms show ?thesis
    by (simp add: parse_i32_def Let_def)
qed (simp add: parse_i32_def)

lemma parse_i32_dec: "n < 2 ^ 31 \<Longrightarrow> parse_i32 (dec n) = Some (int n)"
  by (simp add: parse_i32_digits)

text \<open>Text that begins and ends with a printable ASCII character is not trimmed.\<close>

definition graphic :: "char \<Rightarrow> bool" where
  "graphic c \<longleftrightarrow> 0x21 \<le> (of_char c :: nat) \<and> (of_char c :: nat) < 0x80"

lemma white_space_ends: "\<forall>p\<in>set white_space. p \<noteq> [] \<and> \<not> graphic (hd p) \<and> \<not> graphic (last p)"
  by (simp add: white_space_def graphic_def upt_rec_numeral)

lemma strip_front_id:
  assumes "\<forall>p\<in>set ws. p \<noteq> [] \<and> \<not> graphic (hd p)" and "s = [] \<or> graphic (hd s)"
  shows "strip_front ws n s = s"
proof -
  have "\<not> starts_with p s" if "p \<in> set ws" for p
    using assms that by (cases p; cases s) auto
  then have "ws_len ws s = 0" by (simp add: ws_len_def filter_False split: list.split)
  then show ?thesis by (cases n) simp_all
qed

lemma trim_start_id: "s = [] \<or> graphic (hd s) \<Longrightarrow> trim_start s = s"
  using white_space_ends by (simp add: trim_start_def strip_front_id)

lemma trim_id:
  assumes "s \<noteq> []" "graphic (hd s)" "graphic (last s)"
  shows "trim s = s"
proof -
  have "\<forall>p\<in>set (map rev white_space). p \<noteq> [] \<and> \<not> graphic (hd p)"
    using white_space_ends by (auto simp: hd_rev)
  moreover have "rev s = [] \<or> graphic (hd (rev s))" using assms by (simp add: hd_rev)
  ultimately show ?thesis
    using assms trim_start_id [of s] by (simp add: trim_def trim_end_def strip_front_id)
qed
end
