(* ===== verification/Regex.thy ===== *)
theory Regex
  imports Strings
begin

text \<open>
  Regular expressions as the program writes them, and the documented meaning of a search with the
  \<open>regex\<close> crate: "leftmost-first", the match a backtracking engine finds first when every greedy
  operator tries its longest choice first. The crate is not part of the repository: an \<open>engine\<close> is
  an argument of every definition that searches, and \<open>leftmost_first\<close> is what the crate documents
  about it, stated for ASCII haystacks (where \<open>\w\<close> and \<open>\d\<close> do not depend on Unicode tables).
\<close>

section \<open>Syntax\<close>

datatype rx_class =
    NotIn string   \<comment> \<open>\<open>[^...]\<close>\<close>
  | WordChar       \<comment> \<open>\<open>\w\<close>\<close>
  | DigitChar      \<comment> \<open>\<open>\d\<close>\<close>
  | AnyChar        \<comment> \<open>\<open>.\<close>, any character except a line feed\<close>

datatype rx =
    Lit string
  | Many rx_class    \<comment> \<open>\<open>[..]*\<close>, greedy\<close>
  | Some1 rx_class   \<comment> \<open>\<open>[..]+\<close>, greedy\<close>
  | Cat rx rx
  | Opt rx           \<comment> \<open>\<open>(..)?\<close>, greedy\<close>
  | Cap string rx    \<comment> \<open>\<open>(?P<name>..)\<close>\<close>

type_synonym captures = "(string \<times> string) list"

text \<open>A compiled regex applied to a haystack, anchored at its start.\<close>

type_synonym engine = "rx \<Rightarrow> string \<Rightarrow> captures option"

section \<open>Leftmost-first matching\<close>

fun in_class :: "rx_class \<Rightarrow> char \<Rightarrow> bool" where
  "in_class (NotIn cs) c = (c \<notin> set cs)"
| "in_class WordChar c =
     (is_digit c \<or> c = CHR ''_'' \<or>
      (65 \<le> (of_char c :: nat) \<and> (of_char c :: nat) \<le> 90) \<or>
      (97 \<le> (of_char c :: nat) \<and> (of_char c :: nat) \<le> 122))"
| "in_class DigitChar c = is_digit c"
| "in_class AnyChar c = (c \<noteq> CHR 0x0A)"

definition run_len :: "rx_class \<Rightarrow> string \<Rightarrow> nat" where
  "run_len cl s = length (takeWhile (in_class cl) s)"

text \<open>
  All matches at the start of \<open>s\<close>, in the order a backtracking search tries them: the groups set,
  and the text left over.
\<close>

fun tries :: "rx \<Rightarrow> string \<Rightarrow> (captures \<times> string) list" where
  "tries (Lit l) s = (if starts_with l s then [([], drop (length l) s)] else [])"
| "tries (Many cl) s = map (\<lambda>k. ([], drop k s)) (rev [0..<Suc (run_len cl s)])"
| "tries (Some1 cl) s = map (\<lambda>k. ([], drop k s)) (rev [1..<Suc (run_len cl s)])"
| "tries (Cat a b) s =
     concat (map (\<lambda>(ca, r). map (\<lambda>(cb, r'). (ca @ cb, r')) (tries b r)) (tries a s))"
| "tries (Opt a) s = tries a s @ [([], s)]"
| "tries (Cap n a) s =
     map (\<lambda>(ca, r). ((n, take (length s - length r) s) # ca, r)) (tries a s)"

definition first_match :: engine where
  "first_match p s = (case tries p s of [] \<Rightarrow> None | (c, r) # _ \<Rightarrow> Some c)"

text \<open>The groups of a capture, \<open>captures.name(..)\<close>.\<close>

definition group :: "captures \<Rightarrow> string \<Rightarrow> string option" where
  "group = map_of"

locale regex_engine =
  fixes rx_search :: engine
  assumes leftmost_first: "ascii s \<Longrightarrow> rx_search p s = first_match p s"

interpretation reference_engine: regex_engine first_match
  by unfold_locales (rule refl)

section \<open>The first of the tries\<close>

definition first_try :: "rx \<Rightarrow> string \<Rightarrow> (captures \<times> string) option" where
  "first_try p s = (case tries p s of [] \<Rightarrow> None | x # _ \<Rightarrow> Some x)"

lemma first_match_try: "first_match p s = map_option fst (first_try p s)"
  by (auto simp: first_match_def first_try_def split: list.splits)

lemma first_try_Lit: "first_try (Lit l) s = (if starts_with l s then Some ([], drop (length l) s) else None)"
  by (simp add: first_try_def)

lemma first_try_Many: "first_try (Many cl) s = Some ([], dropWhile (in_class cl) s)"
  by (simp add: first_try_def run_len_def dropWhile_eq_drop)

lemma first_try_Some1:
  "first_try (Some1 cl) s = (if takeWhile (in_class cl) s = [] then None else Some ([], dropWhile (in_class cl) s))"
proof (cases "takeWhile (in_class cl) s")
  case Nil
  then show ?thesis by (simp add: first_try_def run_len_def)
next
  case (Cons c cs)
  then have "1 \<le> run_len cl s" by (simp add: run_len_def)
  then have "rev [1..<Suc (run_len cl s)] = run_len cl s # rev [1..<run_len cl s]" by simp
  with Cons show ?thesis by (simp add: first_try_def run_len_def dropWhile_eq_drop)
qed

lemma first_try_Opt: "first_try (Opt a) s = (case first_try a s of None \<Rightarrow> Some ([], s) | Some x \<Rightarrow> Some x)"
  by (auto simp: first_try_def split: list.splits)

lemma first_try_Cap:
  "first_try (Cap n a) s =
     map_option (\<lambda>(c, r). ((n, take (length s - length r) s) # c, r)) (first_try a s)"
  by (auto simp: first_try_def split: list.splits)

text \<open>When what follows cannot fail, no backtracking into what came before is needed.\<close>

lemma first_try_Cat:
  assumes "\<And>r. first_try b r \<noteq> None"
  shows "first_try (Cat a b) s =
    (case first_try a s of None \<Rightarrow> None
     | Some (ca, r) \<Rightarrow> map_option (\<lambda>(cb, r'). (ca @ cb, r')) (first_try b r))"
proof (cases "tries a s")
  case Nil
  then show ?thesis by (simp add: first_try_def)
next
  case (Cons x xs)
  obtain ca r where x: "x = (ca, r)" by (cases x)
  obtain y ys where y: "tries b r = y # ys"
    using assms [of r] by (auto simp: first_try_def split: list.splits)
  show ?thesis using Cons x y by (simp add: first_try_def split: prod.splits)
qed

text \<open>
  A greedy run in front of something that may fail: the longest length that lets the rest match.
  If the rest can match behind one length only, that length is the one.
\<close>

lemma concat_first:
  "(case concat (map f ks) of [] \<Rightarrow> None | x # _ \<Rightarrow> Some x) =
   (case filter (\<lambda>k. f k \<noteq> []) ks of [] \<Rightarrow> None | k # _ \<Rightarrow> Some (hd (f k)))"
proof (induction ks)
  case (Cons k ks)
  then show ?case by (cases "f k") auto
qed simp

lemma filter_unique_rev:
  assumes "\<And>k. 1 \<le> k \<Longrightarrow> k \<le> n \<Longrightarrow> P k \<longleftrightarrow> k = k0 \<and> C" and "1 \<le> k0" and "k0 \<le> n"
  shows "filter P (rev [1..<Suc n]) = (if C then [k0] else [])"
proof -
  have "filter P [1..<Suc n] = filter (\<lambda>k. k = k0 \<and> C) [1..<Suc n]"
    using assms(1) by (intro filter_cong) auto
  also have "\<dots> = (if C then filter (\<lambda>k. k = k0) [1..<Suc n] else [])" by simp
  also have "filter (\<lambda>k. k = k0) [1..<Suc n] = [k0]"
    using assms(2,3) by (induction n) auto
  finally show ?thesis by (simp add: rev_filter [symmetric])
qed

lemma first_try_run_unique:
  assumes k0: "\<And>k. 1 \<le> k \<Longrightarrow> k \<le> run_len cl s \<Longrightarrow> first_try b (drop k s) \<noteq> None \<Longrightarrow> k = k0"
    and k0_pos: "1 \<le> k0"
  shows "first_try (Cat (Cap n (Some1 cl)) b) s =
    (if k0 \<le> run_len cl s
     then map_option (\<lambda>(c, r). ((n, take k0 s) # c, r)) (first_try b (drop k0 s)) else None)"
proof -
  let ?f = "\<lambda>k. map (\<lambda>(c, r). ((n, take (length s - length (drop k s)) s) # c, r)) (tries b (drop k s))"
  have tr: "tries (Cat (Cap n (Some1 cl)) b) s = concat (map ?f (rev [1..<Suc (run_len cl s)]))"
    by (simp add: o_def case_prod_beta)
  have f_ne: "?f k \<noteq> [] \<longleftrightarrow> first_try b (drop k s) \<noteq> None" for k
    by (auto simp: first_try_def split: list.splits)
  have run: "run_len cl s \<le> length s"
    unfolding run_len_def by (rule length_takeWhile_le)
  show ?thesis
  proof (cases "k0 \<le> run_len cl s")
    case True
    have "filter (\<lambda>k. ?f k \<noteq> []) (rev [1..<Suc (run_len cl s)]) =
        (if first_try b (drop k0 s) \<noteq> None then [k0] else [])"
      using True by (intro filter_unique_rev k0_pos) (auto simp only: f_ne dest: k0)
    then have "first_try (Cat (Cap n (Some1 cl)) b) s =
        (if first_try b (drop k0 s) \<noteq> None then Some (hd (?f k0)) else None)"
      unfolding first_try_def [of "Cat _ _"] tr concat_first by (simp only: list.case if_distrib [of "case_list _ _"])
    also have "\<dots> = map_option (\<lambda>(c, r). ((n, take k0 s) # c, r)) (first_try b (drop k0 s))"
      using True run by (cases "tries b (drop k0 s)") (simp_all add: first_try_def case_prod_beta)
    finally show ?thesis using True by simp
  next
    case False
    have "first_try b (drop k s) = None" if "k \<in> set (rev [1..<Suc (run_len cl s)])" for k
      using k0 [of k] False that by (cases "first_try b (drop k s) = None") auto
    then have "filter (\<lambda>k. ?f k \<noteq> []) (rev [1..<Suc (run_len cl s)]) = []"
      by (simp only: filter_empty_conv f_ne not_not simp_thms) simp
    with False show ?thesis
      unfolding first_try_def [of "Cat _ _"] tr concat_first by (simp only: list.case if_False)
  qed
qed

end
