(* ===== verification/Uri.thy ===== *)
theory Uri
  imports Regex
begin

text \<open>
  \<open>zpinger/src/uri.rs\<close>: the \<open>URI\<close> struct, \<open>URI::parse\<close> over the regular expression of the source,
  \<open>URI::get_url\<close> and \<open>get_uri\<close>. \<open>scan_uri\<close> is a left-to-right scanner for the same grammar; the
  main lemma is that the leftmost-first match of the source's pattern is what the scanner finds,
  and every other fact about \<open>get_uri\<close> is proved on the scanner.
\<close>

named_theorems uri_simps \<open>evaluation of the URI scanner on literals\<close>

section \<open>The struct and its operations\<close>

record URI =
  uri_scheme :: string
  uri_username :: string
  uri_password :: string
  uri_host :: string
  uri_domain :: string
  uri_port :: int
  uri_path :: string
  uri_query :: string
  uri_fragment :: string

definition default_uri :: URI where
  "default_uri = \<lparr>uri_scheme = [], uri_username = [], uri_password = [], uri_host = [], uri_domain = [],
     uri_port = 0, uri_path = ''/'', uri_query = [], uri_fragment = []\<rparr>"

definition uri_pattern :: rx where
  "uri_pattern =
     Cat (Opt (Cat (Cap ''scheme'' (Some1 (NotIn ''/?#''))) (Lit ''://'')))
    (Cat (Opt (Cat (Cap ''username'' (Some1 WordChar))
              (Cat (Lit '':'') (Cat (Cap ''password'' (Some1 WordChar)) (Lit ''@'')))))
    (Cat (Opt (Cap ''host'' (Cat (Cap ''domain'' (Some1 (NotIn ''/?#:'')))
                                 (Opt (Cat (Lit '':'') (Cap ''port'' (Many DigitChar)))))))
    (Cat (Cap ''path'' (Many (NotIn ''?#'')))
    (Cat (Opt (Cat (Lit ''?'') (Cap ''query'' (Many (NotIn ''#'')))))
         (Opt (Cat (Lit ''#'') (Cap ''fragment'' (Many AnyChar))))))))"

definition group_or :: "string \<Rightarrow> captures \<Rightarrow> string \<Rightarrow> string" where
  "group_or d caps n = (case group caps n of Some v \<Rightarrow> v | None \<Rightarrow> d)"

text \<open>
  \<open>URI::parse(&mut self, url)\<close>: the outcome and the struct as the assignments leave it; the
  \<open>unwrap\<close> of the port panics after the domain is assigned.
\<close>

definition URI_parse :: "engine \<Rightarrow> URI \<Rightarrow> string \<Rightarrow> unit result \<times> URI" where
  "URI_parse rx self url =
     (case rx uri_pattern url of
        Some caps \<Rightarrow>
          (let self = self\<lparr>uri_scheme := group_or [] caps ''scheme'',
                           uri_host := group_or [] caps ''host'',
                           uri_username := group_or [] caps ''username'',
                           uri_password := group_or [] caps ''password'',
                           uri_domain := group_or [] caps ''domain''\<rparr>;
               port = (case group caps ''port'' of
                         Some v \<Rightarrow> (case parse_i32 v of
                                     Some p \<Rightarrow> Ok p
                                   | None \<Rightarrow> Panic ''called Result::unwrap() on an Err value'')
                       | None \<Rightarrow> Ok 0)
           in (case port of
                 Ok p \<Rightarrow> (Ok (), self\<lparr>uri_port := p,
                                    uri_path := group_or ''/'' caps ''path'',
                                    uri_query := group_or [] caps ''query'',
                                    uri_fragment := group_or [] caps ''fragment''\<rparr>)
               | Err e \<Rightarrow> (Err e, self)
               | Panic m \<Rightarrow> (Panic m, self)))
      | None \<Rightarrow> (Err (IoError InvalidData ''Invalid url''), self))"

definition get_url :: "URI \<Rightarrow> string" where
  "get_url self =
     (let url = uri_scheme self @ ''://'';
          url = (if uri_username self \<noteq> [] \<or> uri_password self \<noteq> []
                 then url @ uri_username self @ '':'' @ uri_password self @ ''@'' else url);
          url = url @ uri_host self;
          url = (if uri_path self \<noteq> [] then url @ uri_path self else url);
          url = (if uri_query self \<noteq> [] then url @ ''?'' @ uri_query self else url)
      in if uri_fragment self \<noteq> [] then url @ ''#'' @ uri_fragment self else url)"

text \<open>What \<open>display\<close> prints; \<open>debug\<close> is the \<open>Debug\<close> form of a \<open>String\<close>.\<close>

definition URI_display :: "(string \<Rightarrow> string) \<Rightarrow> URI \<Rightarrow> string" where
  "URI_display debug self =
     (let line = (\<lambda>name v. [CHR 0x09] @ name @ '': '' @ v @ [CHR 0x0A])
      in ''URI:'' @ [CHR 0x0A] @
         line ''Scheme'' (debug (uri_scheme self)) @
         line ''Username'' (debug (uri_username self)) @
         line ''Password'' (debug (uri_password self)) @
         line ''Host'' (debug (uri_host self)) @
         line ''Domain'' (debug (uri_domain self)) @
         line ''Port'' (dec_int (uri_port self)) @
         line ''Path'' (debug (uri_path self)) @
         line ''Query'' (debug (uri_query self)) @
         line ''Fragment'' (debug (uri_fragment self)) @ [CHR 0x0A])"

text \<open>\<open>get_uri\<close> drops the \<open>Result\<close> of \<open>parse\<close>; a panic unwinds through it.\<close>

definition get_uri :: "engine \<Rightarrow> string \<Rightarrow> URI result" where
  "get_uri rx url =
     (case URI_parse rx default_uri url of
        (Panic m, uri) \<Rightarrow> Panic m
      | (_, uri) \<Rightarrow> Ok uri)"

section \<open>A scanner for the same grammar\<close>

definition scan_scheme :: "string \<Rightarrow> (string \<times> string) option" where
  "scan_scheme s =
     (let run = takeWhile (in_class (NotIn ''/?#'')) s; rest = dropWhile (in_class (NotIn ''/?#'')) s
      in if 2 \<le> length run \<and> last run = CHR '':'' \<and> starts_with ''//'' rest
         then Some (butlast run, drop 2 rest) else None)"

definition scan_userinfo :: "string \<Rightarrow> (string \<times> string \<times> string) option" where
  "scan_userinfo s =
     (let u = takeWhile (in_class WordChar) s; r = dropWhile (in_class WordChar) s;
          p = takeWhile (in_class WordChar) (tl r); q = dropWhile (in_class WordChar) (tl r)
      in if u \<noteq> [] \<and> starts_with '':'' r \<and> p \<noteq> [] \<and> starts_with ''@'' q then Some (u, p, tl q) else None)"

text \<open>Domain, port digits if a colon follows it, and the rest.\<close>

definition scan_host :: "string \<Rightarrow> (string \<times> string option \<times> string) option" where
  "scan_host s =
     (let d = takeWhile (in_class (NotIn ''/?#:'')) s; r = dropWhile (in_class (NotIn ''/?#:'')) s
      in if d = [] then None
         else if starts_with '':'' r
              then Some (d, Some (takeWhile is_digit (tl r)), dropWhile is_digit (tl r))
              else Some (d, None, r))"

definition scan_after :: "char \<Rightarrow> rx_class \<Rightarrow> string \<Rightarrow> string \<times> string" where
  "scan_after c cl s =
     (if starts_with [c] s then (takeWhile (in_class cl) (tl s), dropWhile (in_class cl) (tl s)) else ([], s))"

definition host_text :: "string \<Rightarrow> string option \<Rightarrow> string" where
  "host_text d po = (case po of None \<Rightarrow> d | Some ds \<Rightarrow> d @ '':'' @ ds)"

definition port_value :: "string option \<Rightarrow> int option" where
  "port_value po = (case po of None \<Rightarrow> Some 0 | Some ds \<Rightarrow> parse_i32 ds)"

definition scan_uri :: "string \<Rightarrow> URI result" where
  "scan_uri url =
     (let (sc, s1) = (case scan_scheme url of Some (x, r) \<Rightarrow> (x, r) | None \<Rightarrow> ([], url));
          (us, pw, s2) = (case scan_userinfo s1 of Some x \<Rightarrow> x | None \<Rightarrow> ([], [], s1));
          (dom, po, s3) = (case scan_host s2 of Some x \<Rightarrow> x | None \<Rightarrow> ([], None, s2));
          pa = takeWhile (in_class (NotIn ''?#'')) s3; s4 = dropWhile (in_class (NotIn ''?#'')) s3;
          (qu, s5) = scan_after (CHR ''?'') (NotIn ''#'') s4;
          (fr, s6) = scan_after (CHR ''#'') AnyChar s5
      in case port_value po of
           None \<Rightarrow> Panic ''called Result::unwrap() on an Err value''
         | Some p \<Rightarrow> Ok \<lparr>uri_scheme = sc, uri_username = us, uri_password = pw, uri_host = host_text dom po,
                         uri_domain = dom, uri_port = p, uri_path = pa, uri_query = qu, uri_fragment = fr\<rparr>)"

section \<open>The pattern finds what the scanner finds\<close>

lemmas first_try_atoms = first_try_Lit first_try_Many first_try_Some1 first_try_Opt first_try_Cap

lemma take_run: "take (length s - length (dropWhile P s)) s = takeWhile P s"
proof -
  have "length s = length (takeWhile P s) + length (dropWhile P s)"
    by (simp flip: length_append)
  then show ?thesis by (simp add: takeWhile_eq_take [symmetric])
qed

lemma run_nth: "k < run_len cl s \<Longrightarrow> in_class cl (s ! k)"
  unfolding run_len_def by (metis nth_mem set_takeWhileD takeWhile_nth)

lemma run_end: "run_len cl s < length s \<Longrightarrow> \<not> in_class cl (s ! run_len cl s)"
  unfolding run_len_def by (rule nth_length_takeWhile)

lemma starts_with_Cons: "starts_with (c # cs) s \<longleftrightarrow> (\<exists>t. s = c # t \<and> starts_with cs t)"
  by (cases s) (auto simp: starts_with_def)

lemma starts_with_nth: "starts_with (c # cs) (drop k s) \<Longrightarrow> k < length s \<and> s ! k = c"
proof -
  assume "starts_with (c # cs) (drop k s)"
  then obtain t where t: "drop k s = c # t" by (auto simp: starts_with_Cons)
  then have "k < length s" by (metis drop_all list.distinct(1) not_le_imp_less)
  with t show ?thesis by (simp add: Cons_nth_drop_Suc [symmetric])
qed

text \<open>The scheme: the colon is the last character of the run, the slashes follow it.\<close>

lemma scheme_unique:
  assumes "k \<le> run_len (NotIn ''/?#'') s" and "starts_with ''://'' (drop k s)"
  shows "Suc k = run_len (NotIn ''/?#'') s"
proof -
  let ?n = "run_len (NotIn ''/?#'') s"
  obtain t where t: "drop k s = '':'' @ t" "starts_with ''//'' t"
    using assms(2) by (simp add: starts_with_Cons) blast
  have k: "k < length s" "s ! k = CHR '':''"
    using starts_with_nth [OF assms(2)] by simp_all
  have "drop k s = s ! k # drop (Suc k) s" using k(1) by (rule Cons_nth_drop_Suc [symmetric])
  with t(1) have "drop (Suc k) s = t" by simp
  with t(2) have "starts_with ''//'' (drop (Suc k) s)" by simp
  from starts_with_nth [OF this] have k1: "Suc k < length s" "s ! Suc k = CHR ''/''" by simp_all
  have "\<not> Suc k < ?n" using run_nth [of "Suc k" "NotIn ''/?#''" s] k1 by auto
  moreover have "k \<noteq> ?n" using run_end [of "NotIn ''/?#''" s] k by auto
  ultimately show ?thesis using assms(1) by simp
qed

lemma first_try_scheme:
  "first_try (Cat (Cap ''scheme'' (Some1 (NotIn ''/?#''))) (Lit ''://'')) s =
     map_option (\<lambda>(x, r). ([(''scheme'', x)], r)) (scan_scheme s)"
proof -
  let ?cl = "NotIn ''/?#''" and ?b = "Lit ''://''"
  define n where "n = run_len ?cl s"
  define run where "run = takeWhile (in_class ?cl) s"
  define rest where "rest = dropWhile (in_class ?cl) s"
  have run: "run = take n s" "rest = drop n s" "n \<le> length s" "length run = n"
    unfolding run_def rest_def n_def run_len_def
    by (rule takeWhile_eq_take, rule dropWhile_eq_drop, rule length_takeWhile_le, rule refl)
  have unique: "k = n - 1" if "k \<le> n" "first_try ?b (drop k s) \<noteq> None" for k
  proof -
    have "starts_with ''://'' (drop k s)" using that(2) by (simp add: first_try_Lit split: if_splits)
    with that(1) have "Suc k = n" unfolding n_def by (rule scheme_unique)
    then show ?thesis by simp
  qed
  have scan: "scan_scheme s = (if 2 \<le> n \<and> last run = CHR '':'' \<and> starts_with ''//'' rest
      then Some (butlast run, drop 2 rest) else None)"
    unfolding scan_scheme_def Let_def run_def [symmetric] rest_def [symmetric] run(4) ..
  show ?thesis
  proof (cases "2 \<le> n")
    case True
    have u: "k = n - 1" if "1 \<le> k" "k \<le> run_len ?cl s" "first_try ?b (drop k s) \<noteq> None" for k
      by (rule unique [OF that(2) [folded n_def] that(3)])
    have *: "first_try (Cat (Cap ''scheme'' (Some1 ?cl)) ?b) s =
        map_option (\<lambda>(c, r). ((''scheme'', take (n - 1) s) # c, r)) (first_try ?b (drop (n - 1) s))"
      using first_try_run_unique [of ?cl s ?b "n - 1", OF u] True unfolding n_def [symmetric] by simp
    have n1: "Suc (n - 1) = n" "n - 1 < length s" using True run(3) by simp_all
    have "drop (n - 1) s = s ! (n - 1) # drop n s"
      using Cons_nth_drop_Suc [OF n1(2)] unfolding n1(1) by (rule sym)
    moreover have "last run = s ! (n - 1)"
      using True run(4) unfolding run(1) by (subst last_conv_nth) auto
    ultimately have d: "drop (n - 1) s = last run # rest"
      unfolding run(2) by simp
    have b: "take (n - 1) s = butlast run"
      using run(3) unfolding run(1) by (simp add: butlast_take)
    show ?thesis
      unfolding * first_try_Lit d b scan using True
      by (simp add: starts_with_Cons [of "CHR '':''"] numeral_2_eq_2)
  next
    case False
    have u: "k = max 1 n" if "1 \<le> k" "k \<le> run_len ?cl s" "first_try ?b (drop k s) \<noteq> None" for k
      using that(1) unique [of k, OF that(2) [folded n_def] that(3)] False that(2) [folded n_def] by simp
    have none: "first_try ?b (drop 1 s) = None" if "n = 1"
    proof (rule ccontr)
      assume "first_try ?b (drop 1 s) \<noteq> None"
      then have "1 = n - 1" using that by (intro unique) simp_all
      with that show False by simp
    qed
    have "first_try (Cat (Cap ''scheme'' (Some1 ?cl)) ?b) s = None"
      using first_try_run_unique [of ?cl s ?b "max 1 n", OF u] False none
      unfolding n_def [symmetric] by (cases "n = 1") auto
    with False show ?thesis unfolding scan by simp
  qed
qed

text \<open>A greedy run in front of a separator that is not in its class never backtracks.\<close>

lemma first_try_Cat_Lit:
  "first_try (Cat (Lit l) b) s = (if starts_with l s then first_try b (drop (length l) s) else None)"
  by (simp add: first_try_def split: list.splits)

lemma first_try_run_sep:
  assumes sep: "\<And>r. first_try b r \<noteq> None \<Longrightarrow> starts_with [c] r" and c: "\<not> in_class cl c"
  shows "first_try (Cat (Cap n (Some1 cl)) b) s =
    (if takeWhile (in_class cl) s = [] then None
     else map_option (\<lambda>(g, r). ((n, takeWhile (in_class cl) s) # g, r)) (first_try b (dropWhile (in_class cl) s)))"
proof -
  let ?n = "run_len cl s"
  have unique: "k = max 1 ?n" if "1 \<le> k" "k \<le> ?n" "first_try b (drop k s) \<noteq> None" for k
  proof -
    have "k < length s" "s ! k = c"
      using starts_with_nth [OF sep [OF that(3)]] by simp_all
    then have "\<not> k < ?n" using run_nth [of k cl s] c by auto
    with that(1,2) show ?thesis by simp
  qed
  have eqs: "take ?n s = takeWhile (in_class cl) s" "drop ?n s = dropWhile (in_class cl) s"
    unfolding run_len_def by (rule takeWhile_eq_take [symmetric], rule dropWhile_eq_drop [symmetric])
  have nil: "takeWhile (in_class cl) s = [] \<longleftrightarrow> ?n = 0" by (simp add: run_len_def)
  show ?thesis
    using first_try_run_unique [of cl s b "max 1 ?n" n, OF unique]
    by (cases "?n = 0") (simp_all add: eqs nil max_def)
qed

lemma first_try_userinfo:
  "first_try (Cat (Cap ''username'' (Some1 WordChar))
       (Cat (Lit '':'') (Cat (Cap ''password'' (Some1 WordChar)) (Lit ''@'')))) s =
     map_option (\<lambda>(u, p, r). ([(''username'', u), (''password'', p)], r)) (scan_userinfo s)"
proof -
  have w: "\<not> in_class WordChar (CHR ''@'')" "\<not> in_class WordChar (CHR '':'')"
    by (simp_all add: is_digit_def)
  have pw: "first_try (Cat (Cap ''password'' (Some1 WordChar)) (Lit ''@'')) r =
    (if takeWhile (in_class WordChar) r = [] then None
     else map_option (\<lambda>(g, r'). ((''password'', takeWhile (in_class WordChar) r) # g, r'))
       (first_try (Lit ''@'') (dropWhile (in_class WordChar) r)))" for r
    by (rule first_try_run_sep [OF _ w(1)]) (simp add: first_try_Lit split: if_splits)
  show ?thesis
    by (subst first_try_run_sep [OF _ w(2)])
      (simp_all add: first_try_Cat_Lit pw first_try_Lit scan_userinfo_def Let_def drop_Suc del: in_class.simps
        split: if_splits)
qed

lemma first_try_host:
  "first_try (Cap ''host'' (Cat (Cap ''domain'' (Some1 (NotIn ''/?#:'')))
        (Opt (Cat (Lit '':'') (Cap ''port'' (Many DigitChar)))))) s =
     map_option (\<lambda>(d, po, r). ((''host'', host_text d po) # (''domain'', d)
        # (case po of None \<Rightarrow> [] | Some ds \<Rightarrow> [(''port'', ds)]), r)) (scan_host s)"
proof -
  let ?cl = "NotIn ''/?#:''"
  have no_fail: "first_try (Opt b) r \<noteq> None" for b r
    by (simp add: first_try_Opt split: option.splits)
  define d where "d = takeWhile (in_class ?cl) s"
  define r where "r = dropWhile (in_class ?cl) s"
  have dr: "s = d @ r" by (simp add: d_def r_def)
  have digits: "in_class DigitChar = is_digit" by (rule ext) simp
  have unfolded: "first_try (Cap ''host'' (Cat (Cap ''domain'' (Some1 ?cl))
        (Opt (Cat (Lit '':'') (Cap ''port'' (Many DigitChar)))))) s =
    map_option (\<lambda>(g, r'). ((''host'', take (length s - length r') s) # g, r'))
      (if d = [] then None
       else map_option (\<lambda>(g, r'). ((''domain'', take (length s - length r) s) # g, r'))
         (if starts_with '':'' r
          then Some ([(''port'', take (length (tl r) - length (dropWhile is_digit (tl r))) (tl r))], dropWhile is_digit (tl r))
          else Some ([], r)))"
    unfolding first_try_Cap first_try_Cat [OF no_fail] first_try_Some1 first_try_Opt first_try_Cat_Lit
      first_try_Many d_def [symmetric] r_def [symmetric] digits
    by (simp add: drop_Suc)
  have scan: "scan_host s = (if d = [] then None
      else if starts_with '':'' r then Some (d, Some (takeWhile is_digit (tl r)), dropWhile is_digit (tl r))
      else Some (d, None, r))"
    unfolding scan_host_def Let_def d_def [symmetric] r_def [symmetric] ..
  show ?thesis
  proof (cases "starts_with '':'' r")
    case True
    then obtain t where t: "r = CHR '':'' # t" unfolding starts_with_Cons by blast
    have "s = (d @ '':'' @ takeWhile is_digit t) @ dropWhile is_digit t"
      using dr unfolding t by simp
    then have whole: "take (length s - length (dropWhile is_digit t)) s = d @ '':'' @ takeWhile is_digit t"
      by (metis append_eq_conv_conj length_append add_diff_cancel_right')
    show ?thesis
      unfolding unfolded scan t using dr t whole
      by (simp add: take_run host_text_def starts_with_Cons)
  next
    case False
    with dr show ?thesis unfolding unfolded scan by (simp add: host_text_def)
  qed
qed

lemma no_fail_Opt: "first_try (Opt b) r \<noteq> None"
  by (simp add: first_try_Opt split: option.splits)

lemma no_fail_Many: "first_try (Cap n (Many cl)) r \<noteq> None"
  by (simp add: first_try_Cap first_try_Many)

lemma no_fail_Cat:
  "(\<And>r. first_try a r \<noteq> None) \<Longrightarrow> (\<And>r. first_try b r \<noteq> None) \<Longrightarrow> first_try (Cat a b) s \<noteq> None"
proof -
  assume a: "\<And>r. first_try a r \<noteq> None" and b: "\<And>r. first_try b r \<noteq> None"
  obtain c r where "first_try a s = Some (c, r)" using a [of s] by (cases "first_try a s") auto
  then show ?thesis using b [of r] by (simp add: first_try_Cat [OF b])
qed

lemmas no_fail = no_fail_Opt no_fail_Many no_fail_Cat

lemma first_try_after:
  "first_try (Opt (Cat (Lit [c]) (Cap n (Many cl)))) s =
     Some (if starts_with [c] s then [(n, fst (scan_after c cl s))] else [], snd (scan_after c cl s))"
  by (cases s) (simp_all add: first_try_Opt first_try_Cat_Lit first_try_Cap first_try_Many scan_after_def take_run
      starts_with_Cons starts_with_def)

lemma first_try_path: "first_try (Cap n (Many cl)) s = Some ([(n, takeWhile (in_class cl) s)], dropWhile (in_class cl) s)"
  by (simp add: first_try_Cap first_try_Many take_run)

text \<open>The scanner as nested \<open>case\<close>s, and the groups a successful scan stands for.\<close>

definition scanned :: "string \<Rightarrow> captures" where
  "scanned url =
     (let (c1, s1) = (case scan_scheme url of Some (x, r) \<Rightarrow> ([(''scheme'', x)], r) | None \<Rightarrow> ([], url));
          (c2, s2) = (case scan_userinfo s1 of
              Some (u, p, r) \<Rightarrow> ([(''username'', u), (''password'', p)], r) | None \<Rightarrow> ([], s1));
          (c3, s3) = (case scan_host s2 of
              Some (d, po, r) \<Rightarrow> ((''host'', host_text d po) # (''domain'', d)
                 # (case po of None \<Rightarrow> [] | Some ds \<Rightarrow> [(''port'', ds)]), r)
            | None \<Rightarrow> ([], s2));
          s4 = dropWhile (in_class (NotIn ''?#'')) s3;
          (q, s5) = scan_after (CHR ''?'') (NotIn ''#'') s4
      in c1 @ c2 @ c3 @ [(''path'', takeWhile (in_class (NotIn ''?#'')) s3)]
         @ (if starts_with ''?'' s4 then [(''query'', q)] else [])
         @ (if starts_with ''#'' s5 then [(''fragment'', fst (scan_after (CHR ''#'') AnyChar s5))] else []))"

lemma first_try_Cat_Some:
  assumes "first_try a s = Some (ca, r)" and "first_try b r = Some (cb, r')" and "\<And>r. first_try b r \<noteq> None"
  shows "first_try (Cat a b) s = Some (ca @ cb, r')"
  using assms(1,2) by (simp add: first_try_Cat [OF assms(3)])

lemma first_try_Opt_Some:
  "first_try (Opt b) s = Some (case first_try b s of None \<Rightarrow> ([], s) | Some x \<Rightarrow> x)"
  by (simp add: first_try_Opt split: option.splits)

lemma first_match_scanned: "first_match uri_pattern url = Some (scanned url)"
proof -
  obtain c1 s1 where 1: "(case scan_scheme url of Some (x, r) \<Rightarrow> ([(''scheme'', x)], r) | None \<Rightarrow> ([], url)) = (c1, s1)"
    by fastforce
  obtain c2 s2 where 2: "(case scan_userinfo s1 of
      Some (u, p, r) \<Rightarrow> ([(''username'', u), (''password'', p)], r) | None \<Rightarrow> ([], s1)) = (c2, s2)"
    by fastforce
  obtain c3 s3 where 3: "(case scan_host s2 of
      Some (d, po, r) \<Rightarrow> ((''host'', host_text d po) # (''domain'', d)
          # (case po of None \<Rightarrow> [] | Some ds \<Rightarrow> [(''port'', ds)]), r)
    | None \<Rightarrow> ([], s2)) = (c3, s3)"
    by fastforce
  have scanned: "scanned url = c1 @ c2 @ c3 @ [(''path'', takeWhile (in_class (NotIn ''?#'')) s3)]
      @ (let s4 = dropWhile (in_class (NotIn ''?#'')) s3; (q, s5) = scan_after (CHR ''?'') (NotIn ''#'') s4
         in (if starts_with ''?'' s4 then [(''query'', q)] else [])
          @ (if starts_with ''#'' s5 then [(''fragment'', fst (scan_after (CHR ''#'') AnyChar s5))] else []))"
    unfolding scanned_def 1 2 3 Let_def case_prod_beta fst_conv snd_conv ..
  note opt = first_try_Opt_Some
  have e1: "first_try (Opt (Cat (Cap ''scheme'' (Some1 (NotIn ''/?#''))) (Lit ''://''))) url = Some (c1, s1)"
    unfolding opt first_try_scheme using 1 by (cases "scan_scheme url") auto
  have e2: "first_try (Opt (Cat (Cap ''username'' (Some1 WordChar))
      (Cat (Lit '':'') (Cat (Cap ''password'' (Some1 WordChar)) (Lit ''@''))))) s1 = Some (c2, s2)"
    unfolding opt first_try_userinfo using 2 by (cases "scan_userinfo s1") auto
  have e3: "first_try (Opt (Cap ''host'' (Cat (Cap ''domain'' (Some1 (NotIn ''/?#:'')))
      (Opt (Cat (Lit '':'') (Cap ''port'' (Many DigitChar))))))) s2 = Some (c3, s3)"
    unfolding opt first_try_host using 3 by (cases "scan_host s2") auto
  have "\<exists>r. first_try uri_pattern url = Some (scanned url, r)"
    unfolding uri_pattern_def scanned Let_def case_prod_beta
    by (rule exI, rule first_try_Cat_Some [OF e1 first_try_Cat_Some [OF e2 first_try_Cat_Some [OF e3
          first_try_Cat_Some [OF first_try_path first_try_Cat_Some [OF first_try_after first_try_after]]]]])
      (intro no_fail)+
  then show ?thesis unfolding first_match_try by auto
qed

lemma fst_scan_after: "\<not> starts_with [c] s \<Longrightarrow> scan_after c cl s = ([], s)"
  by (simp add: scan_after_def)

lemma get_uri_first_match: "get_uri first_match url = scan_uri url"
proof -
  obtain sc s1 where 1: "(case scan_scheme url of Some (x, r) \<Rightarrow> (x, r) | None \<Rightarrow> ([], url)) = (sc, s1)"
    by fastforce
  obtain us pw s2 where 2: "(case scan_userinfo s1 of Some x \<Rightarrow> x | None \<Rightarrow> ([], [], s1)) = (us, pw, s2)"
    by (metis prod_cases3)
  obtain dom po s3 where 3: "(case scan_host s2 of Some x \<Rightarrow> x | None \<Rightarrow> ([], None, s2)) = (dom, po, s3)"
    by (metis prod_cases3)
  obtain c1 where c1: "(case scan_scheme url of Some (x, r) \<Rightarrow> ([(''scheme'', x)], r) | None \<Rightarrow> ([], url)) = (c1, s1)"
      "c1 = [] \<and> sc = [] \<or> c1 = [(''scheme'', sc)]"
    using 1 by (cases "scan_scheme url") auto
  obtain c2 where c2: "(case scan_userinfo s1 of
      Some (u, p, r) \<Rightarrow> ([(''username'', u), (''password'', p)], r) | None \<Rightarrow> ([], s1)) = (c2, s2)"
      "c2 = [] \<and> us = [] \<and> pw = [] \<or> c2 = [(''username'', us), (''password'', pw)]"
    using 2 by (cases "scan_userinfo s1") auto
  obtain c3 where c3: "(case scan_host s2 of
      Some (d, po, r) \<Rightarrow> ((''host'', host_text d po) # (''domain'', d)
          # (case po of None \<Rightarrow> [] | Some ds \<Rightarrow> [(''port'', ds)]), r)
    | None \<Rightarrow> ([], s2)) = (c3, s3)"
      "c3 = [] \<and> dom = [] \<and> po = None \<or>
       c3 = (''host'', host_text dom po) # (''domain'', dom) # (case po of None \<Rightarrow> [] | Some ds \<Rightarrow> [(''port'', ds)])"
    using 3 by (cases "scan_host s2") auto
  define s4 where "s4 = dropWhile (in_class (NotIn ''?#'')) s3"
  obtain q s5 where q: "scan_after (CHR ''?'') (NotIn ''#'') s4 = (q, s5)" by fastforce
  obtain f s6 where f: "scan_after (CHR ''#'') AnyChar s5 = (f, s6)" by fastforce
  obtain c4 where c4: "(if starts_with ''?'' s4 then [(''query'', q)] else []) = c4"
      "c4 = [] \<and> q = [] \<or> c4 = [(''query'', q)]"
    using q fst_scan_after [of "CHR ''?''" s4] by (cases "starts_with ''?'' s4") auto
  obtain c5 where c5: "(if starts_with ''#'' s5 then [(''fragment'', f)] else []) = c5"
      "c5 = [] \<and> f = [] \<or> c5 = [(''fragment'', f)]"
    using f fst_scan_after [of "CHR ''#''" s5] by (cases "starts_with ''#'' s5") auto
  define pa where "pa = takeWhile (in_class (NotIn ''?#'')) s3"
  define L where "L = c1 @ c2 @ c3 @ [(''path'', pa)] @ c4 @ c5"
  have caps: "first_match uri_pattern url = Some L"
    unfolding L_def pa_def first_match_scanned scanned_def c1(1) c2(1) c3(1) Let_def case_prod_beta fst_conv
      snd_conv s4_def [symmetric] q f c4(1) c5(1) ..
  have m1: "map_of (c1 @ X) k = (if k = ''scheme'' \<and> c1 \<noteq> [] then Some sc else map_of X k)" for X k
    using c1(2) by auto
  have m2: "map_of (c2 @ X) k = (if k = ''username'' \<and> c2 \<noteq> [] then Some us
      else if k = ''password'' \<and> c2 \<noteq> [] then Some pw else map_of X k)" for X k
    using c2(2) by auto
  have m3: "map_of (c3 @ X) k = (if k = ''host'' \<and> c3 \<noteq> [] then Some (host_text dom po)
      else if k = ''domain'' \<and> c3 \<noteq> [] then Some dom
      else if k = ''port'' \<and> po \<noteq> None then po else map_of X k)" for X k
    using c3(2) by (cases po) auto
  have m4: "map_of (c4 @ X) k = (if k = ''query'' \<and> c4 \<noteq> [] then Some q else map_of X k)" for X k
    using c4(2) by auto
  have m5: "map_of c5 k = (if k = ''fragment'' \<and> c5 \<noteq> [] then Some f else None)" for k
    using c5(2) by auto
  have L: "map_of L k = (if k = ''scheme'' \<and> c1 \<noteq> [] then Some sc
      else if k = ''username'' \<and> c2 \<noteq> [] then Some us else if k = ''password'' \<and> c2 \<noteq> [] then Some pw
      else if k = ''host'' \<and> c3 \<noteq> [] then Some (host_text dom po) else if k = ''domain'' \<and> c3 \<noteq> [] then Some dom
      else if k = ''port'' \<and> po \<noteq> None then po else if k = ''path'' then Some pa
      else if k = ''query'' \<and> c4 \<noteq> [] then Some q else if k = ''fragment'' \<and> c5 \<noteq> [] then Some f else None)" for k
    unfolding L_def m1 m2 m3 append_Cons append_Nil map_of_Cons_code m4 m5 by auto
  have nil: "c1 = [] \<Longrightarrow> sc = []" "c2 = [] \<Longrightarrow> us = [] \<and> pw = []"
    "c3 = [] \<Longrightarrow> dom = [] \<and> po = None" "c4 = [] \<Longrightarrow> q = []" "c5 = [] \<Longrightarrow> f = []"
    using c1(2) c2(2) c3(2) c4(2) c5(2) by auto
  have "map_of L ''path'' = Some pa" "map_of L ''port'' = po"
    unfolding L by (cases po; simp)+
  moreover have "group_or [] L ''scheme'' = sc" "group_or [] L ''username'' = us" "group_or [] L ''password'' = pw"
    "group_or [] L ''domain'' = dom" "group_or [] L ''query'' = q" "group_or [] L ''fragment'' = f"
    using nil unfolding group_or_def group_def L by (simp_all split: option.split)
  moreover have "group_or [] L ''host'' = host_text dom po"
    using nil(3) unfolding group_or_def group_def L by (simp add: host_text_def split: option.split)
  ultimately show ?thesis
    unfolding get_uri_def URI_parse_def caps scan_uri_def 1 2 3 Let_def case_prod_beta fst_conv snd_conv
      s4_def [symmetric] q f pa_def [symmetric]
    by (simp add: group_or_def [of "''/''"] group_def port_value_def default_uri_def split: option.split)
qed

context regex_engine
begin

lemma get_uri_eq: "ascii url \<Longrightarrow> get_uri rx_search url = scan_uri url"
  using get_uri_first_match [of url] by (simp add: get_uri_def URI_parse_def leftmost_first)

end

text \<open>
  C1. For every regex engine that is leftmost-first on ASCII text, \<open>get_uri\<close> is the deterministic
  left-to-right scanner: scheme up to \<open>://\<close>, \<open>user:password@\<close> when both are words, domain up to one
  of \<open>/?#:\<close>, port digits, path, query and fragment; it never needs to backtrack.
\<close>

theorem get_uri_is_scanner:
  assumes "regex_engine rx" and "ascii url"
  shows "get_uri rx url = scan_uri url"
  using assms(2) by (rule regex_engine.get_uri_eq [OF assms(1)])

theorem get_uri_is_scanner_witness:
  "get_uri first_match ''mqtt://broker.example.com:11883'' =
     Ok (default_uri\<lparr>uri_scheme := ''mqtt'', uri_host := ''broker.example.com:11883'',
                     uri_domain := ''broker.example.com'', uri_port := 11883, uri_path := []\<rparr>)"
proof -
  have "ascii ''mqtt://broker.example.com:11883''" by code_simp
  then show ?thesis
    unfolding get_uri_is_scanner [OF reference_engine.regex_engine_axioms \<open>ascii _\<close>] by code_simp
qed

end
