(* ===== verification/Utf8.thy ===== *)
theory Utf8
  imports Strings
begin

text \<open>
  \<open>std::str::from_utf8\<close> and \<open>String::from_utf8_lossy\<close>, byte by byte as the standard library defines
  them: the length of a well-formed sequence, the length of a maximal ill-formed prefix, or an
  incomplete sequence at the end.
\<close>

unbundle bit_operations_syntax

datatype utf8_step = Valid nat | Bad nat | Incomplete

definition cont :: "u8 \<Rightarrow> bool" where
  "cont b = (0x80 \<le> b \<and> b \<le> 0xBF)"

definition second3 :: "u8 \<Rightarrow> u8 \<Rightarrow> bool" where
  "second3 a b =
     (if a = 0xE0 then 0xA0 \<le> b \<and> b \<le> 0xBF
      else if a = 0xED then 0x80 \<le> b \<and> b \<le> 0x9F
      else cont b)"

definition second4 :: "u8 \<Rightarrow> u8 \<Rightarrow> bool" where
  "second4 a b =
     (if a = 0xF0 then 0x90 \<le> b \<and> b \<le> 0xBF
      else if a = 0xF4 then 0x80 \<le> b \<and> b \<le> 0x8F
      else cont b)"

text \<open>What the first bytes of a non-empty buffer are.\<close>

definition utf8_step :: "u8 \<Rightarrow> bytes \<Rightarrow> utf8_step" where
  "utf8_step a rest =
     (if a < 0x80 then Valid 1
      else if 0xC2 \<le> a \<and> a \<le> 0xDF then
        (case rest of [] \<Rightarrow> Incomplete
         | b # _ \<Rightarrow> if cont b then Valid 2 else Bad 1)
      else if 0xE0 \<le> a \<and> a \<le> 0xEF then
        (case rest of [] \<Rightarrow> Incomplete
         | b # r \<Rightarrow> if \<not> second3 a b then Bad 1
                   else (case r of [] \<Rightarrow> Incomplete
                         | c # _ \<Rightarrow> if cont c then Valid 3 else Bad 2))
      else if 0xF0 \<le> a \<and> a \<le> 0xF4 then
        (case rest of [] \<Rightarrow> Incomplete
         | b # r \<Rightarrow> if \<not> second4 a b then Bad 1
                   else (case r of [] \<Rightarrow> Incomplete
                         | c # r' \<Rightarrow> if \<not> cont c then Bad 2
                                    else (case r' of [] \<Rightarrow> Incomplete
                                          | d # _ \<Rightarrow> if cont d then Valid 4 else Bad 3)))
      else Bad 1)"

lemma utf8_step_pos: "utf8_step a r = Valid n \<Longrightarrow> 0 < n" "utf8_step a r = Bad n \<Longrightarrow> 0 < n"
  by (auto simp: utf8_step_def split: if_splits list.splits)

text \<open>\<open>Utf8Error\<close>: \<open>valid_up_to\<close> and \<open>error_len\<close>.\<close>

function utf8_error :: "nat \<Rightarrow> bytes \<Rightarrow> (nat \<times> nat option) option" where
  "utf8_error i [] = None"
| "utf8_error i (a # rest) =
     (case utf8_step a rest of
        Valid n \<Rightarrow> utf8_error (i + n) (drop (n - 1) rest)
      | Bad n \<Rightarrow> Some (i, Some n)
      | Incomplete \<Rightarrow> Some (i, None))"
  by pat_completeness auto
termination
  by (relation "measure (\<lambda>(i, bs). length bs)") auto

text \<open>\<open>Display\<close> of \<open>Utf8Error\<close>.\<close>

definition show_utf8_error :: "nat \<times> nat option \<Rightarrow> string" where
  "show_utf8_error e =
     (case e of
        (i, Some n) \<Rightarrow> ''invalid utf-8 sequence of '' @ dec n @ '' bytes from index '' @ dec i
      | (i, None) \<Rightarrow> ''incomplete utf-8 byte sequence from index '' @ dec i)"

text \<open>\<open>from_utf8\<close>: the same bytes as a \<open>str\<close>, or the error.\<close>

definition from_utf8 :: "bytes \<Rightarrow> (nat \<times> nat option) + string" where
  "from_utf8 bs = (case utf8_error 0 bs of Some e \<Rightarrow> Inl e | None \<Rightarrow> Inr (chars_of bs))"

text \<open>\<open>from_utf8_lossy\<close>: every ill-formed piece becomes U+FFFD, three bytes in UTF-8.\<close>

definition replacement :: string where
  "replacement = [CHR 0xEF, CHR 0xBF, CHR 0xBD]"

function lossy :: "bytes \<Rightarrow> string" where
  "lossy [] = []"
| "lossy (a # rest) =
     (case utf8_step a rest of
        Valid n \<Rightarrow> chars_of (take n (a # rest)) @ lossy (drop (n - 1) rest)
      | Bad n \<Rightarrow> replacement @ lossy (drop (n - 1) rest)
      | Incomplete \<Rightarrow> replacement)"
  by pat_completeness auto
termination
  by (relation "measure length") auto

definition ascii_bytes :: "bytes \<Rightarrow> bool" where
  "ascii_bytes bs = list_all (\<lambda>b. b < 0x80) bs"

lemma utf8_error_ascii: "ascii_bytes bs \<Longrightarrow> utf8_error i bs = None"
  by (induction i bs rule: utf8_error.induct) (auto simp: ascii_bytes_def utf8_step_def)

lemma from_utf8_ascii: "ascii_bytes bs \<Longrightarrow> from_utf8 bs = Inr (chars_of bs)"
  by (simp add: from_utf8_def utf8_error_ascii)

lemma lossy_ascii_append: "ascii_bytes bs \<Longrightarrow> lossy (bs @ cs) = chars_of bs @ lossy cs"
  by (induction bs) (auto simp: ascii_bytes_def utf8_step_def chars_of_def)

lemma lossy_ascii: "ascii_bytes bs \<Longrightarrow> lossy bs = chars_of bs"
  using lossy_ascii_append [of bs "[]"] by simp

text \<open>Text that is valid UTF-8 is not changed by the lossy conversion.\<close>

lemma lossy_valid: "utf8_error i bs = None \<Longrightarrow> lossy bs = chars_of bs"
proof (induction i bs rule: utf8_error.induct)
  case (2 i a rest)
  then obtain n where n: "utf8_step a rest = Valid n" by (auto split: utf8_step.splits)
  then have "0 < n" by (rule utf8_step_pos)
  then have "chars_of (take n (a # rest)) @ chars_of (drop (n - 1) rest) = chars_of (a # rest)"
    by (cases n) (simp_all flip: chars_of_append)
  with 2 n show ?case by simp
qed simp

section \<open>ASCII in lossy text\<close>

text \<open>An ASCII byte ends whatever sequence stands before it, and begins one of its own.\<close>

lemma utf8_step_before_ascii:
  assumes "b < 0x80"
  shows "utf8_step a (rest @ b # r) = (case utf8_step a rest of Incomplete \<Rightarrow> Bad (Suc (length rest)) | s \<Rightarrow> s)"
proof -
  have n: "\<not> cont b" "\<not> second3 a b" "\<not> second4 a b"
    using assms by (auto simp: cont_def second3_def second4_def word_le_nat_alt word_less_nat_alt split: if_splits)
  show ?thesis
  proof (cases rest)
    case Nil
    then show ?thesis using n by (simp add: utf8_step_def)
  next
    case c1: (Cons x1 r1)
    show ?thesis
    proof (cases r1)
      case Nil
      then show ?thesis using n c1 by (simp add: utf8_step_def)
    next
      case c2: (Cons x2 r2)
      then show ?thesis using n c1 by (cases r2) (simp_all add: utf8_step_def)
    qed
  qed
qed

lemma utf8_step_le: "utf8_step a rest = Valid n \<Longrightarrow> n \<le> Suc (length rest)" "utf8_step a rest = Bad n \<Longrightarrow> n \<le> Suc (length rest)"
  by (auto simp: utf8_step_def split: if_splits list.splits)

lemma lossy_before_ascii:
  assumes "b < 0x80"
  shows "lossy (bs @ b # r) = lossy bs @ lossy (b # r)"
proof (induction bs rule: lossy.induct)
  case (2 a rest)
  note step = utf8_step_before_ascii [OF assms, of a rest r]
  show ?case
  proof (cases "utf8_step a rest")
    case (Valid n)
    then have "n \<le> Suc (length rest)" "0 < n" using utf8_step_le utf8_step_pos by blast+
    then have "take n (a # rest @ b # r) = take n (a # rest)" "drop (n - 1) (rest @ b # r) = drop (n - 1) rest @ b # r"
      by (cases n; simp)+
    with "2.IH"(1) [OF Valid] Valid step show ?thesis by simp
  next
    case (Bad n)
    then have "n \<le> Suc (length rest)" using utf8_step_le by blast
    then have "drop (n - 1) (rest @ b # r) = drop (n - 1) rest @ b # r" by simp
    with "2.IH"(2) [OF Bad] Bad step show ?thesis by simp
  next
    case Incomplete
    with step show ?thesis by simp
  qed
qed simp

lemma lossy_ascii_Cons: "b < 0x80 \<Longrightarrow> lossy (b # r) = char_of (unat b) # lossy r"
  using lossy_ascii_append [of "[b]" r] by (simp add: ascii_bytes_def chars_of_def)

text \<open>Where the lossy text has an ASCII character, the bytes have it, between what becomes the text around it.\<close>

lemma of_char_low: "(of_char c :: nat) < 128 \<Longrightarrow> (of_char c :: u8) < 0x80"
proof -
  assume "(of_char c :: nat) < 128"
  moreover have "(of_char c :: u8) = of_nat (of_char c)" by (simp only: of_nat_of_char)
  ultimately show ?thesis by (simp add: word_less_nat_alt unat_of_nat)
qed

lemma lossy_eq_Nil [simp]: "lossy bs = [] \<longleftrightarrow> bs = []"
proof (cases bs)
  case (Cons a rest)
  then show ?thesis
    using utf8_step_pos(1) [of a rest] by (cases "utf8_step a rest") (auto simp: replacement_def chars_of_def)
qed simp

lemma valid_high: "utf8_step a rest = Valid n \<Longrightarrow> \<not> a < 0x80 \<Longrightarrow> \<forall>b \<in> set (take n (a # rest)). \<not> b < 0x80"
  by (auto simp: utf8_step_def cont_def second3_def second4_def word_le_nat_alt word_less_nat_alt split: if_splits list.splits)

lemma skip_other: "t @ s = u @ c # v \<Longrightarrow> c \<notin> set t \<Longrightarrow> \<exists>u'. s = u' @ c # v"
  by (auto simp: append_eq_append_conv2 append_eq_Cons_conv)

lemma lossy_has_byte:
  assumes "lossy bs = u @ c # v" and "(of_char c :: nat) < 128"
  shows "\<exists>a r. bs = a @ of_char c # r \<and> lossy r = v"
  using assms(1)
proof (induction bs arbitrary: u rule: lossy.induct)
  case (2 a rest)
  have high: "c \<notin> set (chars_of p)" if "\<forall>b \<in> set p. \<not> b < 0x80" for p
  proof
    assume "c \<in> set (chars_of p)"
    then have "of_char c \<in> set (bytes_of (chars_of p))" by (auto simp: bytes_of_def)
    then show False using that of_char_low [OF assms(2)] by simp
  qed
  have bad: "c \<notin> set replacement" using assms(2) by (auto simp: replacement_def)
  show ?case
  proof (cases "utf8_step a rest")
    case (Valid n)
    have eq: "chars_of (take n (a # rest)) @ lossy (drop (n - 1) rest) = u @ c # v" using "2.prems" Valid by simp
    show ?thesis
    proof (cases "a < 0x80 \<and> u = []")
      case True
      then have "n = 1" using Valid by (simp add: utf8_step_def)
      then have "c = char_of (unat a)" "lossy rest = v" using eq True by (simp_all add: chars_of_def)
      then show ?thesis using True by (intro exI [of _ "[]"] exI [of _ rest]) simp
    next
      case False
      have "\<exists>u'. lossy (drop (n - 1) rest) = u' @ c # v"
      proof (cases "a < 0x80")
        case True
        then have "n = 1" using Valid by (simp add: utf8_step_def)
        then show ?thesis using eq False True by (cases u) (auto simp: chars_of_def)
      qed (use skip_other [OF eq] high [OF valid_high [OF Valid]] in blast)
      then obtain a' r where "drop (n - 1) rest = a' @ of_char c # r" "lossy r = v" using "2.IH"(1) [OF Valid] by blast
      moreover have "a # rest = (a # take (n - 1) rest) @ drop (n - 1) rest" by simp
      ultimately show ?thesis by (metis append.assoc)
    qed
  next
    case (Bad n)
    then have "\<exists>u'. lossy (drop (n - 1) rest) = u' @ c # v" using "2.prems" bad skip_other by simp
    then obtain a' r where "drop (n - 1) rest = a' @ of_char c # r" "lossy r = v" using "2.IH"(2) [OF Bad] by blast
    moreover have "a # rest = (a # take (n - 1) rest) @ drop (n - 1) rest" by simp
    ultimately show ?thesis by (metis append.assoc)
  next
    case Incomplete
    then have "replacement = u @ c # v" using "2.prems" by simp
    then show ?thesis using bad by (metis in_set_conv_decomp)
  qed
qed simp

lemma lossy_around: "(of_char c :: nat) < 128 \<Longrightarrow> lossy (a @ of_char c # r) = lossy a @ c # lossy r"
  using lossy_before_ascii [OF of_char_low] lossy_ascii_append [of "[of_char c]" r] of_char_low [of c]
  by (simp add: ascii_bytes_def) (metis append_Cons append_Nil bytes_of_Cons bytes_of_Nil chars_of_bytes_of)

lemma lossy_has_ascii:
  assumes "lossy bs = u @ p @ v" and "ascii p" and "p \<noteq> []"
  shows "\<exists>a r. bs = a @ bytes_of p @ r \<and> lossy a = u \<and> lossy r = v"
  using assms
proof (induction p arbitrary: bs u)
  case (Cons c p)
  then have c: "(of_char c :: nat) < 128" and p: "ascii p" by (simp_all add: ascii_def)
  have eq: "lossy bs = u @ c # p @ v" using Cons.prems(1) by simp
  obtain a r where 1: "bs = a @ of_char c # r" "lossy r = p @ v" using lossy_has_byte [OF eq c] by blast
  then have 2: "lossy a = u" using eq by (simp add: lossy_around [OF c])
  show ?case
  proof (cases "p = []")
    case True
    then show ?thesis using 1 2 by (intro exI [of _ a] exI [of _ r]) simp
  next
    case False
    then obtain r' where "r = bytes_of p @ r'" "lossy r' = v"
      using Cons.IH [of r "[]"] 1(2) p by auto
    then show ?thesis using 1 2 by (intro exI [of _ a] exI [of _ r']) simp
  qed
qed simp

lemma lossy_ascii_around:
  assumes "ascii p" and "p \<noteq> []"
  shows "lossy (a @ bytes_of p @ r) = lossy a @ p @ lossy r"
proof -
  obtain c q where p: "p = c # q" using assms(2) by (cases p) auto
  then have "(of_char c :: nat) < 128" "ascii_bytes (bytes_of q)"
    using assms(1) of_char_low by (auto simp: ascii_def ascii_bytes_def bytes_of_def list_all_iff)
  then show ?thesis by (simp add: p lossy_around lossy_ascii_append)
qed

lemma lossy_contains: "ascii p \<Longrightarrow> p \<noteq> [] \<Longrightarrow> contains p (lossy bs) \<longleftrightarrow> contains (bytes_of p) bs"
  unfolding contains_iff using lossy_has_ascii [of bs _ p] lossy_ascii_around [of p] by metis

lemma lossy_starts: "ascii p \<Longrightarrow> p \<noteq> [] \<Longrightarrow> starts_with p (lossy bs) \<longleftrightarrow> starts_with (bytes_of p) bs"
  unfolding starts_with_iff using lossy_has_ascii [of bs "[]" p] lossy_ascii_around [of p "[]"] by (metis append_Nil lossy_eq_Nil)

lemma find_sub_least: "find_sub p (a @ p @ b) = Some i \<Longrightarrow> i \<le> length a"
proof (induction a arbitrary: i)
  case Nil
  then show ?case using starts_with_append [of p b] by (cases "p @ b") (auto split: if_splits)
qed (auto split: if_splits)

text \<open>So the first line of the lossy text is the lossy text of the first line.\<close>

lemma lossy_first:
  assumes "ascii p" and "p \<noteq> []"
  shows "split_first p (lossy bs) = lossy (split_first (bytes_of p) bs)"
proof (cases "find_sub (bytes_of p) bs")
  case None
  then have "find_sub p (lossy bs) = None" using lossy_contains [OF assms, of bs] by (simp add: contains_def)
  then show ?thesis using None by (simp add: split_first_def)
next
  case (Some i)
  obtain r where bs: "bs = take i bs @ bytes_of p @ r" and i: "length (take i bs) = i"
    using find_sub_split [OF Some] by auto
  have lb: "lossy bs = lossy (take i bs) @ p @ lossy r" using lossy_ascii_around [OF assms] bs by metis
  then obtain j where j: "find_sub p (lossy bs) = Some j"
    using lossy_contains [OF assms, of bs] Some by (auto simp: contains_def)
  have le: "j \<le> length (lossy (take i bs))" using find_sub_least j lb by metis
  obtain v where "lossy bs = take j (lossy bs) @ p @ v" and lj: "length (take j (lossy bs)) = j"
    using find_sub_split [OF j] by auto
  then obtain a r' where a: "bs = a @ bytes_of p @ r'" "lossy a = take j (lossy bs)"
    using lossy_has_ascii [OF _ assms] by metis
  then have "i \<le> length a" using find_sub_least Some by metis
  then obtain x where x: "a = take i bs @ x" using a(1) by (metis append_take_drop_id take_append take_all_iff diff_is_0_eq take0 append_Nil2)
  have "x = []"
  proof (rule ccontr)
    assume "x \<noteq> []"
    have "x @ bytes_of p @ r' = bytes_of p @ r" using a(1) bs x by (metis append.assoc same_append_eq)
    then obtain c q y where c: "p = c # q" "x = of_char c # y" using \<open>x \<noteq> []\<close> assms(2) by (cases p; cases x) auto
    then have "(of_char c :: nat) < 128" using assms(1) by (simp add: ascii_def)
    then have "length (lossy (take i bs)) < length (lossy a)" by (simp add: x c lossy_around)
    then show False using le lj a(2) by simp
  qed
  then show ?thesis using a(2) x by (simp add: split_first_def j Some)
qed

end
