(* ===== verification/Env.thy ===== *)
theory Env
  imports Uri Utf8
begin

text \<open>
  What the pingers call and the repository does not contain: the \<open>regex\<close> engine, tokio's sockets,
  streams, timer and resolver, rustls, and the clocks. They are fields of a record that every
  definition takes as an argument. The locales state what tokio documents about a stream, a
  connected datagram socket and the timer; the model's own networks (a scripted stream, a loopback
  to a datagram responder) interpret them.

  Also here: \<open>util.rs\<close> (\<open>with_timeout\<close>), \<open>pinger.rs\<close> (\<open>timed\<close>) and \<open>resolve\<close> of \<open>lib.rs\<close>.
\<close>

section \<open>The environment\<close>

datatype socket_addr = SockV4 u32 u16 | SockV6 "128 word" u16

text \<open>
  Operations on an open stream handle (\<open>AsyncRead\<close>/\<open>AsyncWrite\<close>, \<open>Read\<close>/\<open>Write\<close>): \<open>read\<close> with the
  length of the caller's buffer, \<open>read_exact\<close> with the number of bytes to fill, \<open>write_all\<close>.
\<close>

record ('w, 'h) stream_io =
  st_read :: "'h \<Rightarrow> nat \<Rightarrow> ('w, bytes) io"
  st_read_exact :: "'h \<Rightarrow> nat \<Rightarrow> ('w, bytes) io"
  st_write_all :: "'h \<Rightarrow> bytes \<Rightarrow> ('w, unit) io"

text \<open>
  \<open>'w\<close> is the world, \<open>'h\<close> the socket and stream handles, \<open>'c\<close> a rustls \<open>ClientConfig\<close>.
  \<open>server_name_error\<close> is \<open>None\<close> where \<open>ServerName::try_from\<close> accepts the name and the error's text
  where it does not; \<open>system_time\<close> is seconds and nanoseconds since the epoch, \<open>None\<close> before it; \<open>str_debug\<close>
  is the \<open>Debug\<close> form of a string, which depends on Unicode tables.
\<close>

record ('w, 'h, 'c) net = "('w, 'h) stream_io" +
  net_regex :: engine
  udp_bind :: "string \<Rightarrow> ('w, 'h) io"
  udp_connect :: "'h \<Rightarrow> string \<Rightarrow> ('w, unit) io"
  udp_send :: "'h \<Rightarrow> bytes \<Rightarrow> ('w, nat) io"
  udp_recv :: "'h \<Rightarrow> nat \<Rightarrow> ('w, bytes) io"
  tcp_connect :: "string \<Rightarrow> ('w, 'h) io"
  server_name_error :: "string \<Rightarrow> string option"
  default_client_config :: 'c
  tls_connect :: "'c \<Rightarrow> string \<Rightarrow> 'h \<Rightarrow> ('w, 'h) io"
  tokio_timeout :: "nat \<Rightarrow> ('w, unit) io \<Rightarrow> 'w \<Rightarrow> unit result option \<times> 'w"
  lookup_host :: "string \<Rightarrow> ('w, socket_addr list) io"
  system_time :: "'w \<Rightarrow> (nat \<times> nat) option"
  instant_now :: "'w \<Rightarrow> nat"
  str_debug :: "string \<Rightarrow> string"

section \<open>\<open>util.rs\<close> and \<open>pinger.rs\<close>\<close>

text \<open>Durations are nanoseconds.\<close>

type_synonym duration = nat

definition from_secs :: "nat \<Rightarrow> duration" where
  "from_secs n = n * 10 ^ 9"

definition from_millis :: "nat \<Rightarrow> duration" where
  "from_millis n = n * 10 ^ 6"

definition with_timeout :: "('w, 'h, 'c) net \<Rightarrow> duration \<Rightarrow> ('w, unit) io \<Rightarrow> ('w, unit) io" where
  "with_timeout net d fut w =
     (case tokio_timeout net d fut w of
        (Some inner, w') \<Rightarrow> Some (inner, w')
      | (None, w') \<Rightarrow> Some (Err (IoError TimedOut ''operation timed out''), w'))"

text \<open>A \<open>Pinger\<close> is its \<open>ping\<close>; \<open>timed\<close> measures one.\<close>

definition timed :: "('w, 'h, 'c) net \<Rightarrow> ('w, unit) io \<Rightarrow> ('w, duration) io" where
  "timed net ping w =
     (let start = instant_now net w
      in io_bind ping (\<lambda>_ w'. Some (Ok (instant_now net w' - start), w')) w)"

text \<open>\<open>uri.port as u16\<close>: truncation of the \<open>i32\<close>.\<close>

definition as_u16 :: "int \<Rightarrow> u16" where
  "as_u16 p = word_of_int p"

text \<open>\<open>zpinger::resolve\<close>: addresses for display; every failure is an empty list.\<close>

definition resolve :: "('w, 'h, 'c) net \<Rightarrow> string \<Rightarrow> ('w, socket_addr list) io" where
  "resolve net url =
     io_bind (io_lift (get_uri (net_regex net) url)) (\<lambda>uri.
       if uri_domain uri = [] then io_ok []
       else
         (let port = (if 0 < uri_port uri then as_u16 (uri_port uri)
                      else (let s = to_ascii_lowercase (uri_scheme uri)
                            in if s = ''https'' \<or> s = ''wss'' then 443 else 80))
          in io_catch (lookup_host net (uri_domain uri @ '':'' @ dec (unat port)))
               io_ok (\<lambda>_. io_ok [])))"

section \<open>Timers\<close>

text \<open>
  \<open>tokio::time::timeout\<close> passes the output of a completed future on and elapses on one that never
  completes; \<open>prompt\<close> says moreover that the deadline is not reached before a future that completes
  does.
\<close>

definition prompt :: "('w, 'h, 'c) net \<Rightarrow> bool" where
  "prompt net = (\<forall>d fut w. case fut w of
       Some (r, w') \<Rightarrow> tokio_timeout net d fut w = (Some r, w')
     | None \<Rightarrow> fst (tokio_timeout net d fut w) = None)"

lemma with_timeout_prompt [io_simps]:
  assumes "prompt net" and "fut w = Some (r, w')"
  shows "with_timeout net d fut w = Some (r, w')"
proof -
  have "tokio_timeout net d fut w = (Some r, w')"
    using assms(1) [unfolded prompt_def, rule_format, where fut = fut and w = w and d = d] assms(2) by simp
  then show ?thesis by (simp add: with_timeout_def)
qed

lemma with_timeout_never [io_simps]:
  assumes "prompt net" and "fut w = None"
  shows "\<exists>w'. with_timeout net d fut w = Some (Err (IoError TimedOut ''operation timed out''), w')"
proof -
  have "fst (tokio_timeout net d fut w) = None"
    using assms(1) [unfolded prompt_def, rule_format, where fut = fut and w = w and d = d] assms(2) by simp
  then show ?thesis by (cases "tokio_timeout net d fut w") (simp add: with_timeout_def)
qed

lemma with_timeout_total: "\<exists>r w'. with_timeout net d fut w = Some (r, w')"
  by (auto simp: with_timeout_def split: prod.splits option.splits)

lemma timed_Err: "ping w = Some (Err e, w') \<Longrightarrow> timed net ping w = Some (Err e, w')"
  by (simp add: timed_def io_bind_Err)

lemma timed_Ok: "ping w = Some (Ok (), w') \<Longrightarrow>
   timed net ping w = Some (Ok (instant_now net w' - instant_now net w), w')"
  by (simp add: timed_def io_bind_Ok)

section \<open>Streams\<close>

text \<open>
  A connected stream whose peer sends the bytes \<open>incoming\<close> and then closes. \<open>read\<close> returns some
  non-empty part of what is left (how much is up to the network) and nothing only at the end;
  \<open>read_exact\<close> fails with \<open>UnexpectedEof\<close> when too little is left; \<open>outgoing\<close> collects what was
  written.
\<close>

locale byte_stream =
  fixes io :: "('w, 'h, 'z) stream_io_scheme" and h :: 'h
    and incoming :: "'w \<Rightarrow> bytes" and outgoing :: "'w \<Rightarrow> bytes"
  assumes read_some: "0 < n \<Longrightarrow> \<exists>bs w'. st_read io h n w = Some (Ok bs, w') \<and> length bs \<le> n \<and>
      incoming w = bs @ incoming w' \<and> (bs = [] \<longrightarrow> incoming w = []) \<and> outgoing w' = outgoing w"
    and read_exact_ok: "n \<le> length (incoming w) \<Longrightarrow> \<exists>w'. st_read_exact io h n w = Some (Ok (take n (incoming w)), w') \<and>
      incoming w' = drop n (incoming w) \<and> outgoing w' = outgoing w"
    and read_exact_eof: "length (incoming w) < n \<Longrightarrow>
      \<exists>m w'. st_read_exact io h n w = Some (Err (IoError UnexpectedEof m), w') \<and> outgoing w' = outgoing w"
    and write_ok: "\<exists>w'. st_write_all io h bs w = Some (Ok (), w') \<and>
      incoming w' = incoming w \<and> outgoing w' = outgoing w @ bs"

text \<open>
  A network whose connections, plain or TLS, all reach that one peer. \<open>relay s f\<close> says that a session
  on any of its streams runs to an end, with a result and bytes written that depend on the incoming
  bytes alone.
\<close>

locale stream_peer =
  fixes net :: "('w, 'h, 'c) net" and incoming :: "'w \<Rightarrow> bytes" and outgoing :: "'w \<Rightarrow> bytes"
  assumes tcp_ok: "\<exists>h w'. tcp_connect net a w = Some (Ok h, w') \<and> incoming w' = incoming w \<and> outgoing w' = outgoing w"
    and tls_ok: "\<exists>h' w'. tls_connect net c n h w = Some (Ok h', w') \<and> incoming w' = incoming w \<and> outgoing w' = outgoing w"
    and stream: "byte_stream net h incoming outgoing"
begin

lemmas peer_read = byte_stream.read_some [OF stream]
lemmas peer_read_exact = byte_stream.read_exact_ok [OF stream]
lemmas peer_read_eof = byte_stream.read_exact_eof [OF stream]
lemmas peer_write = byte_stream.write_ok [OF stream]

definition relay :: "('h \<Rightarrow> ('w, 'a) io) \<Rightarrow> (bytes \<Rightarrow> 'a result \<Rightarrow> bytes \<Rightarrow> bool) \<Rightarrow> bool" where
  "relay session spec = (\<forall>h w. \<exists>res w'. session h w = Some (res, w') \<and>
     (\<exists>out. outgoing w' = outgoing w @ out \<and> spec (incoming w) res out))"

lemma relay_tcp:
  assumes "relay session spec"
  shows "\<exists>res w' out. io_bind (tcp_connect net a) session w = Some (res, w') \<and>
    outgoing w' = outgoing w @ out \<and> spec (incoming w) res out"
proof -
  obtain h w1 where 1: "tcp_connect net a w = Some (Ok h, w1)" "incoming w1 = incoming w" "outgoing w1 = outgoing w"
    using tcp_ok [of a w] by blast
  obtain res w' out where 2: "session h w1 = Some (res, w')" "outgoing w' = outgoing w1 @ out" "spec (incoming w1) res out"
    using assms unfolding relay_def by meson
  have "io_bind (tcp_connect net a) session w = Some (res, w')" by (simp add: io_bind_def 1 2)
  with 1 2 show ?thesis by metis
qed

lemma relay_tls:
  assumes "relay session spec"
  shows "relay (\<lambda>tcp. io_bind (tls_connect net c n tcp) session) spec"
  unfolding relay_def
proof (intro allI)
  fix h w
  obtain h' w1 where 1: "tls_connect net c n h w = Some (Ok h', w1)" "incoming w1 = incoming w" "outgoing w1 = outgoing w"
    using tls_ok [of c n h w] by blast
  obtain res w' out where 2: "session h' w1 = Some (res, w')" "outgoing w' = outgoing w1 @ out" "spec (incoming w1) res out"
    using assms unfolding relay_def by meson
  have "io_bind (tls_connect net c n h) session w = Some (res, w')" by (simp add: io_bind_def 1 2)
  with 1 2 show "\<exists>res w'. io_bind (tls_connect net c n h) session w = Some (res, w') \<and>
      (\<exists>out. outgoing w' = outgoing w @ out \<and> spec (incoming w) res out)" by metis
qed

text \<open>A prompt timer lets every session finish.\<close>

lemma relay_timeout:
  assumes "prompt net" and "relay session spec"
  shows "\<exists>res w' out. with_timeout net d (io_bind (tcp_connect net a) session) w = Some (res, w') \<and>
    outgoing w' = outgoing w @ out \<and> spec (incoming w) res out"
  using relay_tcp [OF assms(2), of a w] with_timeout_prompt [OF assms(1)] by metis

end

text \<open>The scripted stream: the chunks the network delivers, then end of file.\<close>

record script =
  chunks :: "bytes list"
  sent :: bytes

definition script_read :: "nat \<Rightarrow> (script, bytes) io" where
  "script_read n w =
     (case dropWhile (\<lambda>c. c = []) (chunks w) of
        [] \<Rightarrow> Some (Ok [], w\<lparr>chunks := []\<rparr>)
      | c # cs \<Rightarrow> Some (Ok (take n c), w\<lparr>chunks := drop n c # cs\<rparr>))"

definition script_read_exact :: "nat \<Rightarrow> (script, bytes) io" where
  "script_read_exact n w =
     (let all = concat (chunks w)
      in if n \<le> length all then Some (Ok (take n all), w\<lparr>chunks := [drop n all]\<rparr>)
         else Some (Err (IoError UnexpectedEof ''early eof''), w\<lparr>chunks := []\<rparr>))"

definition script_write_all :: "bytes \<Rightarrow> (script, unit) io" where
  "script_write_all bs w = Some (Ok (), w\<lparr>sent := sent w @ bs\<rparr>)"

definition script_io :: "(script, unit) stream_io" where
  "script_io = \<lparr>st_read = (\<lambda>_. script_read), st_read_exact = (\<lambda>_. script_read_exact),
     st_write_all = (\<lambda>_. script_write_all)\<rparr>"

lemma concat_dropWhile_Nil: "concat (dropWhile (\<lambda>c. c = []) cs) = concat cs"
  by (induction cs) auto

lemma byte_stream_script:
  assumes "st_read io h = script_read" "st_read_exact io h = script_read_exact" "st_write_all io h = script_write_all"
  shows "byte_stream io h (\<lambda>w. concat (chunks w)) sent"
proof
  fix n :: nat and w :: script
  assume "0 < n"
  show "\<exists>bs w'. st_read io h n w = Some (Ok bs, w') \<and> length bs \<le> n \<and>
      concat (chunks w) = bs @ concat (chunks w') \<and> (bs = [] \<longrightarrow> concat (chunks w) = []) \<and> sent w' = sent w"
  proof (cases "dropWhile (\<lambda>c. c = []) (chunks w)")
    case Nil
    then show ?thesis
      using concat_dropWhile_Nil [of "chunks w"] unfolding assms script_read_def Nil by simp
  next
    case (Cons c cs)
    then have "c \<noteq> []" using hd_dropWhile [of "\<lambda>c. c = []" "chunks w"] by auto
    with Cons \<open>0 < n\<close> show ?thesis
      using concat_dropWhile_Nil [of "chunks w"] by (simp add: assms script_read_def flip: append_assoc)
  qed
qed (auto simp: assms script_read_exact_def script_write_all_def Let_def)

interpretation scripted: byte_stream script_io "()" "\<lambda>w. concat (chunks w)" sent
  by (rule byte_stream_script) (simp_all add: script_io_def)

section \<open>Datagrams\<close>

text \<open>
  A connected datagram socket whose peer answers a datagram \<open>d\<close> with \<open>answer d\<close> (if at all).
  \<open>queue\<close> holds the answers not yet received; \<open>recv\<close> cuts a datagram to the buffer, and never
  resolves when nothing arrives.
\<close>

locale datagram_peer =
  fixes net :: "('w, 'h, 'c) net" and answer :: "bytes \<Rightarrow> bytes option" and queue :: "'w \<Rightarrow> bytes list"
  assumes bind_ok: "\<exists>h w'. udp_bind net a w = Some (Ok h, w') \<and> queue w' = queue w"
    and connect_ok: "\<exists>w'. udp_connect net h ep w = Some (Ok (), w') \<and> queue w' = queue w"
    and send_ok: "\<exists>n w'. udp_send net h d w = Some (Ok n, w') \<and>
      queue w' = queue w @ (case answer d of Some r \<Rightarrow> [r] | None \<Rightarrow> [])"
    and recv_ok: "queue w = d # q \<Longrightarrow> \<exists>w'. udp_recv net h n w = Some (Ok (take n d), w') \<and> queue w' = q"
    and recv_never: "queue w = [] \<Longrightarrow> udp_recv net h n w = None"

text \<open>What every datagram pinger does with its socket.\<close>

definition udp_exchange ::
  "('w, 'h, 'c) net \<Rightarrow> string \<Rightarrow> bytes \<Rightarrow> nat \<Rightarrow> (bytes \<Rightarrow> unit result) \<Rightarrow> ('w, unit) io" where
  "udp_exchange net ep request n check =
     io_bind (udp_bind net ''0.0.0.0:0'') (\<lambda>socket.
     io_bind (udp_connect net socket ep) (\<lambda>_.
     io_bind (udp_send net socket request) (\<lambda>_.
     io_bind (udp_recv net socket n) (\<lambda>buf.
     io_lift (check buf)))))"

context datagram_peer
begin

lemma exchange_answered:
  assumes "queue w = []" and "answer request = Some r"
  shows "\<exists>w'. udp_exchange net ep request n check w = Some (check (take n r), w') \<and> queue w' = []"
proof -
  obtain h w1 where 1: "udp_bind net ''0.0.0.0:0'' w = Some (Ok h, w1)" "queue w1 = []"
    using bind_ok [of "''0.0.0.0:0''" w] assms(1) by auto
  obtain w2 where 2: "udp_connect net h ep w1 = Some (Ok (), w2)" "queue w2 = []"
    using connect_ok [of h ep w1] 1 by auto
  obtain k w3 where 3: "udp_send net h request w2 = Some (Ok k, w3)" "queue w3 = [r]"
    using send_ok [of h request w2] 2 assms(2) by auto
  obtain w4 where 4: "udp_recv net h n w3 = Some (Ok (take n r), w4)" "queue w4 = []"
    using recv_ok [OF 3(2)] by auto
  show ?thesis
    unfolding udp_exchange_def
    by (rule exI [of _ w4]) (simp add: io_bind_def 1 2 3 4)
qed

lemma exchange_unanswered:
  assumes "queue w = []" and "answer request = None"
  shows "udp_exchange net ep request n check w = None"
proof -
  obtain h w1 where 1: "udp_bind net ''0.0.0.0:0'' w = Some (Ok h, w1)" "queue w1 = []"
    using bind_ok [of "''0.0.0.0:0''" w] assms(1) by auto
  obtain w2 where 2: "udp_connect net h ep w1 = Some (Ok (), w2)" "queue w2 = []"
    using connect_ok [of h ep w1] 1 by auto
  obtain k w3 where 3: "udp_send net h request w2 = Some (Ok k, w3)" "queue w3 = []"
    using send_ok [of h request w2] 2 assms(2) by auto
  show ?thesis
    unfolding udp_exchange_def
    by (simp add: io_bind_def 1 2 3 recv_never)
qed

text \<open>With a prompt timer, the ping is the check of the (cut) answer, or the timeout error.\<close>

lemma ping_outcome:
  assumes "prompt net" and "queue w = []"
  shows "\<exists>w'. with_timeout net d (udp_exchange net ep request n check) w =
    Some (case answer request of Some r \<Rightarrow> check (take n r)
          | None \<Rightarrow> Err (IoError TimedOut ''operation timed out''), w')"
proof (cases "answer request")
  case None
  then show ?thesis
    using with_timeout_never [OF assms(1), of "udp_exchange net ep request n check" w d]
      exchange_unanswered [OF assms(2)] by simp
next
  case (Some r)
  then show ?thesis
    using exchange_answered [OF assms(2) Some] with_timeout_prompt [OF assms(1)] by fastforce
qed

end

end
