(* ===== verification/Endpoint.thy ===== *)
theory Endpoint
  imports UriLaws Env
begin

text \<open>
  Every pinger turns its target into the \<open>host:port\<close> it dials: the domain of the target, the
  target's port cut to 16 bits when one is given, the protocol's default port otherwise, and an
  \<open>InvalidInput\<close> error when there is no host. \<open>dial_address\<close> is that contract; each protocol theory
  interprets it on its own \<open>server_endpoint\<close>/\<open>endpoint_for\<close>.
\<close>

section \<open>Addresses parse back\<close>

lemma digit_not_sep: "is_digit c \<Longrightarrow> in_class (NotIn ''/?#'') c"
  by (auto simp: is_digit_def in_class.simps)

lemma domain_not_sep: "in_class (NotIn ''/?#:'') c \<Longrightarrow> in_class (NotIn ''/?#'') c"
  by (simp add: in_class.simps)

lemma digit_ascii: "is_digit c \<Longrightarrow> (of_char c :: nat) < 128"
  by (auto simp: is_digit_def)

lemma scan_uri_address:
  assumes "d \<noteq> []" and "list_all (in_class (NotIn ''/?#:'')) d" and "n < 2 ^ 31"
  shows "scan_uri (d @ '':'' @ dec n) =
    Ok (default_uri\<lparr>uri_host := d @ '':'' @ dec n, uri_domain := d, uri_port := int n, uri_path := []\<rparr>)"
proof -
  let ?s = "d @ '':'' @ dec n" and ?N = "in_class (NotIn ''/?#'')"
  have "list_all ?N d" "list_all ?N (dec n)"
    using assms(2) dec_digits [of n] domain_not_sep digit_not_sep by (auto simp: list_all_iff simp del: in_class.simps)
  then have "list_all ?N ?s" by (simp add: in_class.simps list_all_append)
  then have run: "takeWhile ?N ?s = ?s" "dropWhile ?N ?s = []"
    using span_sep [of ?N ?s "[]"] by simp_all
  have 1: "scan_scheme ?s = None" unfolding scan_scheme_def run by simp
  have 2: "scan_userinfo ?s = None"
    by (rule no_userinfo [OF assms(2) dec_digits [of n], of "[]"]) (simp_all add: tail_ok_def)
  have 3: "scan_host ?s = Some (d, Some (dec n), [])"
    using scan_host_port_build [OF assms(1,2) dec_digits [of n], of "[]"] by (simp add: tail_ok_def)
  show ?thesis
    unfolding scan_uri_def 1 2 option.case Let_def case_prod_conv 3
    by (simp add: scan_after_def port_value_def parse_i32_dec [OF assms(3)] default_uri_def host_text_def)
qed

lemma scan_uri_domain:
  assumes "scan_uri s = Ok u"
  shows "list_all (in_class (NotIn ''/?#:'')) (uri_domain u)" and "set (uri_domain u) \<subseteq> set s"
proof -
  obtain sc s1 where 1: "(case scan_scheme s of Some (x, r) \<Rightarrow> (x, r) | None \<Rightarrow> ([], s)) = (sc, s1)"
    by fastforce
  obtain us pw s2 where 2: "(case scan_userinfo s1 of Some x \<Rightarrow> x | None \<Rightarrow> ([], [], s1)) = (us, pw, s2)"
    by (metis prod_cases3)
  obtain dom po s3 where 3: "(case scan_host s2 of Some x \<Rightarrow> x | None \<Rightarrow> ([], None, s2)) = (dom, po, s3)"
    by (metis prod_cases3)
  have dom: "uri_domain u = dom"
    using assms unfolding scan_uri_def 1 2 3 Let_def case_prod_beta fst_conv snd_conv
    by (auto split: option.splits)
  have set_tl: "set (tl xs) \<subseteq> set xs" for xs :: string by (cases xs) auto
  have drop: "set (dropWhile P xs) \<subseteq> set xs" for P and xs :: string by (auto dest: set_dropWhileD)
  have "set s1 \<subseteq> set s"
    using 1 drop by (auto simp: scan_scheme_def Let_def split: option.splits if_splits dest!: in_set_dropD set_dropWhileD)
  moreover have "set s2 \<subseteq> set s1"
    using 2 by (auto simp: scan_userinfo_def Let_def split: option.splits if_splits
        dest!: subsetD [OF set_tl] set_dropWhileD)
  moreover have "set dom \<subseteq> set s2 \<and> list_all (in_class (NotIn ''/?#:'')) dom"
    using 3 by (auto simp: scan_host_def Let_def list_all_iff split: option.splits if_splits dest: set_takeWhileD)
  ultimately show "list_all (in_class (NotIn ''/?#:'')) (uri_domain u)" and "set (uri_domain u) \<subseteq> set s"
    unfolding dom by auto
qed

lemma ascii_iff: "ascii s \<longleftrightarrow> (\<forall>c\<in>set s. (of_char c :: nat) < 128)"
  by (simp add: ascii_def list_all_iff)

lemma ascii_append [simp]: "ascii (s @ t) \<longleftrightarrow> ascii s \<and> ascii t"
  by (auto simp: ascii_iff)

lemma ascii_dec [simp]: "ascii (dec n)"
  unfolding ascii_def by (rule list.pred_mono_strong [OF dec_digits digit_ascii])

lemma ascii_Cons [simp]: "ascii (c # s) \<longleftrightarrow> (of_char c :: nat) < 128 \<and> ascii s"
  by (simp add: ascii_def)

lemma ascii_Nil [simp]: "ascii []"
  by (simp add: ascii_def)

lemma ascii_bytes_of: "ascii s \<Longrightarrow> ascii_bytes (bytes_of s)"
proof -
  have "(of_char c :: u8) < 0x80" if "(of_char c :: nat) < 128" for c :: char
  proof -
    have "(of_char c :: u8) = of_nat (of_char c)" by (simp only: of_nat_of_char)
    with that show ?thesis by (simp add: word_less_nat_alt unat_of_nat)
  qed
  then show "ascii s \<Longrightarrow> ascii_bytes (bytes_of s)"
    by (auto simp: ascii_bytes_def ascii_def bytes_of_def list_all_iff)
qed

lemma unat_as_u16: "0 \<le> p \<Longrightarrow> unat (as_u16 p) = nat p mod 65536"
  by (simp add: as_u16_def unsigned_of_int take_bit_eq_mod nat_mod_distrib)

lemma unat_u16: "unat (p :: u16) < 65536"
  using unsigned_less [of p, where 'a = nat] by simp

section \<open>The contract\<close>

locale dial_address =
  fixes addr :: "engine \<Rightarrow> string \<Rightarrow> string result" and dflt :: "URI \<Rightarrow> u16"
  assumes addr_panic: "get_uri rx s = Panic m \<Longrightarrow> addr rx s = Panic m"
    and addr_explicit: "get_uri rx s = Ok u \<Longrightarrow> uri_domain u \<noteq> [] \<Longrightarrow> 0 < uri_port u \<Longrightarrow>
      addr rx s = Ok (uri_domain u @ '':'' @ dec (unat (as_u16 (uri_port u))))"
    and addr_default: "get_uri rx s = Ok u \<Longrightarrow> uri_domain u \<noteq> [] \<Longrightarrow> uri_port u \<le> 0 \<Longrightarrow>
      addr rx s = Ok (uri_domain u @ '':'' @ dec (unat (dflt u)))"
    and addr_no_host: "get_uri rx s = Ok u \<Longrightarrow> uri_domain u = [] \<Longrightarrow> \<exists>m. addr rx s = Err (IoError InvalidInput m)"
begin

definition port_of :: "URI \<Rightarrow> u16" where
  "port_of u = (if 0 < uri_port u then as_u16 (uri_port u) else dflt u)"

lemma addr_eq: "get_uri rx s = Ok u \<Longrightarrow> uri_domain u \<noteq> [] \<Longrightarrow>
    addr rx s = Ok (uri_domain u @ '':'' @ dec (unat (port_of u)))"
  by (cases "0 < uri_port u") (simp_all add: addr_explicit addr_default port_of_def)

lemma addr_Ok_iff: "addr rx s = Ok a \<longleftrightarrow>
    (\<exists>u. get_uri rx s = Ok u \<and> uri_domain u \<noteq> [] \<and> a = uri_domain u @ '':'' @ dec (unat (port_of u)))"
proof (cases "get_uri rx s")
  case (Ok u)
  then show ?thesis
    using addr_eq [OF Ok] addr_no_host [OF Ok] by (cases "uri_domain u = []") auto
next
  case (Err e)
  then show ?thesis by (auto simp: get_uri_def split: prod.splits result.splits)
next
  case (Panic m)
  then show ?thesis using addr_panic [OF Panic] by simp
qed

text \<open>The port dialed is the port given, where it is one.\<close>

lemma addr_valid_port:
  assumes "get_uri rx s = Ok u" and "uri_domain u \<noteq> []" and "0 < uri_port u" and "uri_port u < 65536"
  shows "addr rx s = Ok (uri_domain u @ '':'' @ dec (nat (uri_port u)))"
  using addr_explicit [OF assms(1-3)] assms(3,4) by (simp add: unat_as_u16 nat_less_iff)

text \<open>A larger port is dialed modulo \<open>2 ^ 16\<close>.\<close>

lemma addr_wraps:
  assumes "get_uri rx s = Ok u" and "uri_domain u \<noteq> []" and "0 < uri_port u"
  shows "addr rx s = Ok (uri_domain u @ '':'' @ dec (nat (uri_port u) mod 65536))"
  using addr_explicit [OF assms(1-3)] assms(3) by (simp add: unat_as_u16)

text \<open>The address parses back to the same domain and the port that is dialed.\<close>

lemma addr_reparse:
  assumes "regex_engine rx" and "ascii s" and "get_uri rx s = Ok u" and "uri_domain u \<noteq> []"
  shows "\<exists>a. addr rx s = Ok a \<and> get_uri rx a =
    Ok (default_uri\<lparr>uri_host := a, uri_domain := uri_domain u, uri_port := int (unat (port_of u)), uri_path := []\<rparr>)"
proof -
  have su: "scan_uri s = Ok u"
    using assms(3) by (simp add: regex_engine.get_uri_eq [OF assms(1,2)])
  let ?a = "uri_domain u @ '':'' @ dec (unat (port_of u))"
  have "ascii (uri_domain u)"
    using scan_uri_domain(2) [OF su] assms(2) by (auto simp: ascii_iff)
  then have "ascii ?a" by simp
  moreover have "scan_uri ?a = Ok (default_uri\<lparr>uri_host := ?a, uri_domain := uri_domain u,
      uri_port := int (unat (port_of u)), uri_path := []\<rparr>)"
    using scan_uri_address [OF assms(4) scan_uri_domain(1) [OF su], of "unat (port_of u)"]
      unat_u16 [of "port_of u"] by simp
  ultimately show ?thesis
    using addr_eq [OF assms(3,4)] regex_engine.get_uri_eq [OF assms(1), of ?a] by simp
qed

end

end
