(* ===== verification/Lab.thy ===== *)
theory Lab
  imports Endpoint
begin

text \<open>
  A concrete environment: one regex engine, a loopback for datagrams (a responder function), a
  scripted stream, a timer that never fires early and fixed clocks. It interprets \<open>datagram_peer\<close>
  and \<open>byte_stream\<close>, and every witness of the development runs on it.
\<close>

record lab_world = script +
  inbox :: "bytes list"

definition lab_start :: "bytes list \<Rightarrow> lab_world" where
  "lab_start cs = \<lparr>chunks = cs, sent = [], inbox = []\<rparr>"

definition lab_recv :: "nat \<Rightarrow> (lab_world, bytes) io" where
  "lab_recv n w = (case inbox w of [] \<Rightarrow> None | d # q \<Rightarrow> Some (Ok (take n d), w\<lparr>inbox := q\<rparr>))"

definition lab_send :: "(bytes \<Rightarrow> bytes option) \<Rightarrow> bytes \<Rightarrow> (lab_world, nat) io" where
  "lab_send answer d w =
     Some (Ok (length d), w\<lparr>inbox := inbox w @ (case answer d of Some r \<Rightarrow> [r] | None \<Rightarrow> [])\<rparr>)"

definition lab_read :: "nat \<Rightarrow> (lab_world, bytes) io" where
  "lab_read n w =
     (case dropWhile (\<lambda>c. c = []) (chunks w) of
        [] \<Rightarrow> Some (Ok [], w\<lparr>chunks := []\<rparr>)
      | c # cs \<Rightarrow> Some (Ok (take n c), w\<lparr>chunks := drop n c # cs\<rparr>))"

definition lab_read_exact :: "nat \<Rightarrow> (lab_world, bytes) io" where
  "lab_read_exact n w =
     (let all = concat (chunks w)
      in if n \<le> length all then Some (Ok (take n all), w\<lparr>chunks := [drop n all]\<rparr>)
         else Some (Err (IoError UnexpectedEof ''early eof''), w\<lparr>chunks := []\<rparr>))"

definition lab_write_all :: "bytes \<Rightarrow> (lab_world, unit) io" where
  "lab_write_all bs w = Some (Ok (), w\<lparr>sent := sent w @ bs\<rparr>)"

definition lab :: "(bytes \<Rightarrow> bytes option) \<Rightarrow> (lab_world, unit, unit) net" where
  "lab answer = \<lparr>
     st_read = (\<lambda>_. lab_read), st_read_exact = (\<lambda>_. lab_read_exact), st_write_all = (\<lambda>_. lab_write_all),
     net_regex = first_match,
     udp_bind = (\<lambda>_. io_ok ()), udp_connect = (\<lambda>_ _. io_ok ()),
     udp_send = (\<lambda>_. lab_send answer), udp_recv = (\<lambda>_. lab_recv),
     tcp_connect = (\<lambda>_. io_ok ()),
     server_name_error = (\<lambda>s. if s = [] then Some ''invalid dns name'' else None),
     default_client_config = (), tls_connect = (\<lambda>_ _ h. io_ok h),
     tokio_timeout = (\<lambda>d fut w. case fut w of Some (r, w') \<Rightarrow> (Some r, w') | None \<Rightarrow> (None, w)),
     lookup_host = (\<lambda>_. io_ok []), system_time = (\<lambda>_. Some (1700000000, 5)), instant_now = (\<lambda>_. 0),
     str_debug = (\<lambda>s. CHR 0x22 # s @ [CHR 0x22])\<rparr>"

lemma lab_regex [simp]: "net_regex (lab answer) = first_match"
  by (simp add: lab_def)

lemma get_uri_lab: "ascii s \<Longrightarrow> get_uri first_match s = scan_uri s"
  by (rule reference_engine.get_uri_eq)

text \<open>A target used by the witnesses.\<close>

lemma lab_target [simp]:
  "get_uri first_match ''srv:5300'' =
     Ok (default_uri\<lparr>uri_host := ''srv:5300'', uri_domain := ''srv'', uri_port := 5300, uri_path := []\<rparr>)"
proof -
  have "ascii ''srv:5300''" by code_simp
  then show ?thesis unfolding get_uri_lab [OF \<open>ascii _\<close>] by code_simp
qed

lemma lab_scheme [simp]: "to_ascii_lowercase (uri_scheme default_uri) = []"
  by (simp add: default_uri_def to_ascii_lowercase_def)

lemma dec_5300 [simp]: "dec (unat (as_u16 5300)) = ''5300''"
  by (simp add: unat_as_u16 dec.simps digit_char_def)

lemma lab_prompt [simp]: "prompt (lab answer)"
  by (simp add: prompt_def lab_def split: option.split)

lemma lab_start_simps [simp]: "inbox (lab_start cs) = []" "chunks (lab_start cs) = cs" "sent (lab_start cs) = []"
  by (simp_all add: lab_start_def)

interpretation lab_udp: datagram_peer "lab answer" answer inbox for answer
  by unfold_locales (auto simp: lab_def lab_send_def lab_recv_def split: option.splits)

lemma lab_read_some:
  assumes "0 < n"
  shows "\<exists>bs w'. lab_read n w = Some (Ok bs, w') \<and> length bs \<le> n \<and>
      concat (chunks w) = bs @ concat (chunks w') \<and> (bs = [] \<longrightarrow> concat (chunks w) = []) \<and> sent w' = sent w"
proof (cases "dropWhile (\<lambda>c. c = []) (chunks w)")
  case Nil
  then show ?thesis
    using concat_dropWhile_Nil [of "chunks w"] unfolding lab_read_def Nil by simp
next
  case (Cons c cs)
  then have "c \<noteq> []" using hd_dropWhile [of "\<lambda>c. c = []" "chunks w"] by auto
  with Cons assms show ?thesis
    using concat_dropWhile_Nil [of "chunks w"] by (simp add: lab_read_def flip: append_assoc)
qed

interpretation lab_stream: byte_stream "lab answer" h "\<lambda>w. concat (chunks w)" sent for answer h
  by unfold_locales
    (use lab_read_some in \<open>auto simp: lab_def lab_read_exact_def lab_write_all_def Let_def\<close>)

interpretation lab_tcp: stream_peer "lab answer" "\<lambda>w. concat (chunks w)" sent for answer
  by unfold_locales (auto simp: lab_def)

end
