(* ===== verification/Ntp.thy ===== *)
theory Ntp
  imports Lab
begin

text \<open>
  \<open>zpinger/src/ntp.rs\<close>: the client packet, the validation of the reply, \<open>server_endpoint\<close> and the
  ping; the ping's outcome as a function of the reply alone.
\<close>

section \<open>Definitions\<close>

abbreviation NTP_DEFAULT_PORT :: u16 where "NTP_DEFAULT_PORT \<equiv> 123"
abbreviation NTP_PACKET_LEN :: nat where "NTP_PACKET_LEN \<equiv> 48"
abbreviation NTP_BUF_SIZE :: nat where "NTP_BUF_SIZE \<equiv> 255"
abbreviation NTP_VERSION :: u8 where "NTP_VERSION \<equiv> 4"
abbreviation MODE_CLIENT :: u8 where "MODE_CLIENT \<equiv> 3"
abbreviation MODE_SERVER :: u8 where "MODE_SERVER \<equiv> 4"
abbreviation MODE_BROADCAST :: u8 where "MODE_BROADCAST \<equiv> 5"

record NtpPinger =
  ntp_server :: string
  ntp_timeout :: duration

definition NtpPinger_new :: "string \<Rightarrow> NtpPinger" where
  "NtpPinger_new server = \<lparr>ntp_server = server, ntp_timeout = from_secs 5\<rparr>"

definition NtpPinger_with_timeout :: "NtpPinger \<Rightarrow> duration \<Rightarrow> NtpPinger" where
  "NtpPinger_with_timeout self t = self\<lparr>ntp_timeout := t\<rparr>"

definition ntp_server_endpoint :: "engine \<Rightarrow> string \<Rightarrow> string result" where
  "ntp_server_endpoint rx server =
     bind_r (get_uri rx server) (\<lambda>uri.
       if uri_domain uri = [] then err_invalid ''NTP server target is missing a host''
       else
         (let port = (if 0 < uri_port uri then as_u16 (uri_port uri) else NTP_DEFAULT_PORT)
          in Ok (uri_domain uri @ '':'' @ dec (unat port))))"

definition ntp_build_request :: bytes where
  "ntp_build_request =
     (let packet = replicate NTP_PACKET_LEN 0
      in packet[0 := push_bit 3 NTP_VERSION OR MODE_CLIENT])"

definition ntp_validate_response :: "bytes \<Rightarrow> unit result" where
  "ntp_validate_response buf =
     (if length buf \<noteq> NTP_PACKET_LEN
      then err_other (''NTP response is '' @ dec (length buf) @ '' bytes (expected '' @ dec NTP_PACKET_LEN @ '')'')
      else
        (let first = buf ! 0; mode = first AND 7
         in if mode \<noteq> MODE_SERVER \<and> mode \<noteq> MODE_BROADCAST
            then err_other (''NTP response mode '' @ dec (unat mode) @ '' is not server (4) or broadcast (5)'')
            else
              (let version = drop_bit 3 first AND 7
               in if version \<noteq> NTP_VERSION
                  then err_other (''NTP response version '' @ dec (unat version)
                         @ '' does not match request version '' @ dec (unat NTP_VERSION))
                  else Ok ())))"

definition ntp_ping :: "('w, 'h, 'c) net \<Rightarrow> NtpPinger \<Rightarrow> ('w, unit) io" where
  "ntp_ping net self =
     io_bind (io_lift (ntp_server_endpoint (net_regex net) (ntp_server self))) (\<lambda>endpoint.
       let request = ntp_build_request
       in with_timeout net (ntp_timeout self)
            (udp_exchange net endpoint request NTP_BUF_SIZE ntp_validate_response))"

section \<open>Lemmas\<close>

interpretation ntp_addr: dial_address ntp_server_endpoint "\<lambda>_. NTP_DEFAULT_PORT"
  by unfold_locales (auto simp: ntp_server_endpoint_def Let_def)

text \<open>An NTP reply: 48 bytes, mode server or broadcast, version 4 (RFC 5905 7.3).\<close>

definition ntp_reply :: "bytes \<Rightarrow> bool" where
  "ntp_reply buf \<longleftrightarrow> length buf = 48 \<and> unat (hd buf) mod 8 \<in> {4, 5} \<and> unat (hd buf) div 8 mod 8 = 4"

lemma ntp_validate_iff: "ntp_validate_response buf = Ok () \<longleftrightarrow> ntp_reply buf"
proof (cases "length buf = 48")
  case True
  then have hd: "buf ! 0 = hd buf" by (cases buf) auto
  show ?thesis
    using True low3 [of "hd buf"] field3 [of "hd buf"]
    by (auto simp: ntp_validate_response_def ntp_reply_def Let_def hd word_unat_eq_iff)
qed (simp add: ntp_validate_response_def ntp_reply_def)

lemma ntp_validate_no_panic: "ntp_validate_response buf \<noteq> Panic m"
  by (simp add: ntp_validate_response_def Let_def)

lemma ntp_ping_run:
  "ntp_server_endpoint (net_regex net) (ntp_server p) = Ok ep \<Longrightarrow> ntp_ping net p w =
     with_timeout net (ntp_timeout p) (udp_exchange net ep ntp_build_request 255 ntp_validate_response) w"
  by (simp add: ntp_ping_def Let_def)

lemma ntp_request_shape: "length ntp_build_request = 48" "hd ntp_build_request = 0x23"
  by (simp_all add: ntp_build_request_def Let_def numeral_eq_Suc)

section \<open>The ping\<close>

lemma ntp_ping_outcome_fact:
  assumes "datagram_peer net answer queue" and "prompt net" and "queue w = []"
    and "ntp_server_endpoint (net_regex net) (ntp_server p) = Ok ep"
  shows "\<exists>res w'. ntp_ping net p w = Some (res, w') \<and> \<not> is_panic res \<and>
    (res = Ok () \<longleftrightarrow> (\<exists>r. answer ntp_build_request = Some r \<and> ntp_reply r)) \<and>
    (answer ntp_build_request = None \<longrightarrow> res = Err (IoError TimedOut ''operation timed out''))"
proof -
  have cut: "ntp_reply (take 255 r) \<longleftrightarrow> ntp_reply r" for r
    by (cases "length r \<le> 255") (auto simp: ntp_reply_def)
  show ?thesis
    using datagram_peer.ping_outcome [OF assms(1-3), of "ntp_timeout p" ep ntp_build_request 255 ntp_validate_response]
      ntp_ping_run [OF assms(4), of w] ntp_validate_no_panic
    by (cases "answer ntp_build_request") (auto simp: ntp_validate_iff cut is_panic_iff)
qed

text \<open>
  C9. NTP ping. Against any peer of the datagram socket, the ping resolves; it succeeds exactly when
  the peer answers the request with a 48-byte packet of mode 4 or 5 and version 4, it is the
  timeout error when the peer is silent, and an error in every other case.
\<close>

theorem ntp_ping_outcome:
  assumes "datagram_peer net answer queue" and "prompt net" and "queue w = []"
    and "ntp_server_endpoint (net_regex net) (ntp_server p) = Ok ep"
  shows "\<exists>res w'. ntp_ping net p w = Some (res, w') \<and> \<not> is_panic res \<and>
    (res = Ok () \<longleftrightarrow> (\<exists>r. answer ntp_build_request = Some r \<and> ntp_reply r)) \<and>
    (answer ntp_build_request = None \<longrightarrow> res = Err (IoError TimedOut ''operation timed out''))"
  by (rule ntp_ping_outcome_fact [OF assms])

lemma ntp_ping_outcome_witness:
  "\<exists>w'. ntp_ping (lab (\<lambda>_. Some (0x24 # replicate 47 0))) (NtpPinger_new ''srv:5300'') (lab_start []) = Some (Ok (), w')"
proof -
  let ?a = "\<lambda>_ :: bytes. Some (0x24 # replicate 47 (0 :: u8))" and ?p = "NtpPinger_new ''srv:5300''"
  have "ntp_server_endpoint first_match (ntp_server ?p) = Ok ''srv:5300''"
    by (simp add: ntp_server_endpoint_def NtpPinger_new_def default_uri_def)
  then have "\<exists>res w'. ntp_ping (lab ?a) ?p (lab_start []) = Some (res, w') \<and>
      (res = Ok () \<longleftrightarrow> (\<exists>r. ?a ntp_build_request = Some r \<and> ntp_reply r))"
    using ntp_ping_outcome [OF lab_udp.datagram_peer_axioms [of ?a], of "lab_start []" ?p] by auto
  moreover have "\<exists>r. ?a ntp_build_request = Some r \<and> ntp_reply r"
    by (simp add: ntp_reply_def)
  ultimately show ?thesis by auto
qed

end
