(* ===== verification/Dns.thy ===== *)
theory Dns
  imports Lab
begin

text \<open>
  \<open>zpinger/src/dns.rs\<close>: encoding of the question name, the query, the validation of the response,
  the query identifier and the ping. \<open>decode_labels\<close> is a reader of DNS names that the encoder is
  checked against.
\<close>

section \<open>Definitions\<close>

abbreviation DNS_DEFAULT_PORT :: u16 where "DNS_DEFAULT_PORT \<equiv> 53"
abbreviation DNS_BUF_SIZE :: nat where "DNS_BUF_SIZE \<equiv> 512"

datatype RecordType = A | Aaaa | Cname | Mx | Ns | Txt

fun RecordType_code :: "RecordType \<Rightarrow> u16" where
  "RecordType_code A = 1"
| "RecordType_code Ns = 2"
| "RecordType_code Cname = 5"
| "RecordType_code Mx = 15"
| "RecordType_code Txt = 16"
| "RecordType_code Aaaa = 28"

record DnsPinger =
  dns_server :: string
  dns_query :: string
  dns_record_type :: RecordType
  dns_timeout :: duration

definition DnsPinger_new :: "string \<Rightarrow> string \<Rightarrow> DnsPinger" where
  "DnsPinger_new server query =
     \<lparr>dns_server = server, dns_query = query, dns_record_type = A, dns_timeout = from_secs 5\<rparr>"

definition DnsPinger_with_record_type :: "DnsPinger \<Rightarrow> RecordType \<Rightarrow> DnsPinger" where
  "DnsPinger_with_record_type self rt = self\<lparr>dns_record_type := rt\<rparr>"

definition DnsPinger_with_timeout :: "DnsPinger \<Rightarrow> duration \<Rightarrow> DnsPinger" where
  "DnsPinger_with_timeout self t = self\<lparr>dns_timeout := t\<rparr>"

definition dns_server_endpoint :: "engine \<Rightarrow> string \<Rightarrow> string result" where
  "dns_server_endpoint rx server =
     bind_r (get_uri rx server) (\<lambda>uri.
       if uri_domain uri = [] then err_invalid ''DNS server target is missing a host''
       else
         (let port = (if 0 < uri_port uri then as_u16 (uri_port uri) else DNS_DEFAULT_PORT)
          in Ok (uri_domain uri @ '':'' @ dec (unat port))))"

text \<open>The clock is before the epoch (\<open>None\<close>) or gives seconds and nanoseconds.\<close>

definition random_id :: "(nat \<times> nat) option \<Rightarrow> u16" where
  "random_id now =
     (case now of
        Some (s, ns) \<Rightarrow> (let nanos = of_nat ns :: u32; secs = of_nat s :: u32 in ucast (nanos XOR secs))
      | None \<Rightarrow> 0)"

text \<open>The loop over the labels, \<open>out\<close> being the bytes pushed so far.\<close>

fun encode_labels :: "string list \<Rightarrow> bytes \<Rightarrow> bytes result" where
  "encode_labels [] out = Ok out"
| "encode_labels (label # rest) out =
     (if label = [] then err_invalid ''DNS query name has an empty label''
      else if length label > 63 then err_invalid ''DNS label exceeds 63 bytes''
      else encode_labels rest ((out @ [of_nat (length label)]) @ bytes_of label))"

definition encode_name :: "string \<Rightarrow> bytes result" where
  "encode_name name =
     (let trimmed = trim_end_matches (CHR ''.'') name
      in bind_r (encode_labels (split_char (CHR ''.'') trimmed) []) (\<lambda>out.
           let out = out @ [0]
           in if length out > 255 then err_invalid ''encoded DNS name exceeds 255 bytes'' else Ok out))"

definition build_query :: "u16 \<Rightarrow> string \<Rightarrow> u16 \<Rightarrow> bytes result" where
  "build_query qid name qtype =
     bind_r (encode_name name) (\<lambda>qname.
       Ok (be16 qid @ be16 0x0100 @ be16 1 @ be16 0 @ be16 0 @ be16 0 @ qname @ be16 qtype @ be16 1))"

definition dns_validate_response :: "bytes \<Rightarrow> bytes \<Rightarrow> u16 \<Rightarrow> unit result" where
  "dns_validate_response buf request expected_id =
     (if length buf < 12 then err_other ''DNS response shorter than header''
      else
        (let resp_id = u16_of_be (buf ! 0) (buf ! 1)
         in if resp_id \<noteq> expected_id
            then err_other (''DNS response ID '' @ hex_alt 0 (unat resp_id) @ '' does not match query ID ''
                   @ hex_alt 0 (unat expected_id))
            else
        (let flags = u16_of_be (buf ! 2) (buf ! 3); qr = drop_bit 15 flags
         in if qr \<noteq> 1 then err_other ''DNS response QR flag not set (server returned a query)''
            else
        (let rcode = flags AND 0x000F
         in if rcode \<noteq> 0
            then err_other (''DNS server returned RCODE '' @ dec (unat rcode) @ '' (non-zero = error)'')
            else
        (let qdcount = u16_of_be (buf ! 4) (buf ! 5)
         in if qdcount \<noteq> 1
            then err_other (''DNS response QDCOUNT = '' @ dec (unat qdcount) @ '' (expected 1)'')
            else if length request < 12 then Panic ''range start index out of range''
            else
        (let question = drop 12 request
         in if length buf < 12 + length question
            then err_other ''DNS response too short to carry an echoed question section''
            else if slice 12 (12 + length question) buf \<noteq> question
            then err_other ''DNS response question section does not match the query''
            else Ok ()))))))"

definition dns_ping :: "('w, 'h, 'c) net \<Rightarrow> DnsPinger \<Rightarrow> ('w, unit) io" where
  "dns_ping net self w =
     (if dns_query self = [] then io_err (IoError InvalidInput ''DNS query name is empty'') w
      else io_bind (io_lift (dns_server_endpoint (net_regex net) (dns_server self))) (\<lambda>endpoint w.
        let qid = random_id (system_time net w)
        in io_bind (io_lift (build_query qid (dns_query self) (RecordType_code (dns_record_type self)))) (\<lambda>request.
             with_timeout net (dns_timeout self)
               (udp_exchange net endpoint request DNS_BUF_SIZE (\<lambda>buf. dns_validate_response buf request qid))) w) w)"

section \<open>Names\<close>

interpretation dns_addr: dial_address dns_server_endpoint "\<lambda>_. DNS_DEFAULT_PORT"
  by unfold_locales (auto simp: dns_server_endpoint_def Let_def)

definition dns_labels :: "string \<Rightarrow> string list" where
  "dns_labels name = split_char (CHR ''.'') (trim_end_matches (CHR ''.'') name)"

definition wire_label :: "string \<Rightarrow> bytes" where
  "wire_label l = of_nat (length l) # bytes_of l"

abbreviation good_label :: "string \<Rightarrow> bool" where
  "good_label l \<equiv> l \<noteq> [] \<and> length l \<le> 63"

lemma encode_labels_Ok_iff:
  "encode_labels ls out = Ok res \<longleftrightarrow> list_all good_label ls \<and> res = out @ concat (map wire_label ls)"
  by (induction ls arbitrary: out) (auto simp: wire_label_def)

lemma encode_labels_no_panic: "encode_labels ls out \<noteq> Panic m"
  by (induction ls arbitrary: out) auto

lemma split_char_total: "sum_list (map length (split_char c s)) + length (split_char c s) = length s + 1"
  by (induction s) (auto split: list.splits)

lemma length_wire: "length (concat (map wire_label ls)) = sum_list (map length ls) + length ls"
  by (induction ls) (auto simp: wire_label_def)

lemma length_wire_labels:
  "length (concat (map wire_label (dns_labels name))) = length (trim_end_matches (CHR ''.'') name) + 1"
  unfolding length_wire dns_labels_def by (rule split_char_total)

lemma encode_name_Ok_iff:
  "encode_name name = Ok out \<longleftrightarrow> list_all good_label (dns_labels name) \<and>
     length (trim_end_matches (CHR ''.'') name) \<le> 253 \<and> out = concat (map wire_label (dns_labels name)) @ [0]"
  using length_wire_labels [of name]
  by (auto simp: encode_name_def Let_def encode_labels_Ok_iff dns_labels_def [symmetric])

text \<open>
  A strict reader of DNS names: length-prefixed labels up to the empty one, and what follows. A length
  byte above 63 is no label (RFC 1035 keeps its two high bits for compression).
\<close>

function decode_labels :: "bytes \<Rightarrow> (string list \<times> bytes) option" where
  "decode_labels bs =
     (case bs of [] \<Rightarrow> None
      | n # cs \<Rightarrow>
          if n = 0 then Some ([], cs)
          else if 63 < n \<or> length cs < unat n then None
          else map_option (\<lambda>(ls, rest). (chars_of (take (unat n) cs) # ls, rest)) (decode_labels (drop (unat n) cs)))"
  by pat_completeness auto
termination by (relation "measure length") auto

declare decode_labels.simps [simp del]

lemma decode_wire:
  assumes "list_all good_label ls"
  shows "decode_labels (concat (map wire_label ls) @ 0 # rest) = Some (ls, rest)"
  using assms
proof (induction ls)
  case Nil
  then show ?case by (simp add: decode_labels.simps)
next
  case (Cons l ls)
  then have len: "unat (of_nat (length l) :: u8) = length l" and "length l \<noteq> 0"
    by (auto simp: unat_of_nat)
  then have nz: "(of_nat (length l) :: u8) \<noteq> 0" by (metis unsigned_0)
  have le: "\<not> 63 < (of_nat (length l) :: u8)" using Cons.prems len by (simp add: word_less_nat_alt)
  have "decode_labels (wire_label l @ concat (map wire_label ls) @ 0 # rest) =
      map_option (\<lambda>(ls, rest). (l # ls, rest)) (decode_labels (concat (map wire_label ls) @ 0 # rest))"
    unfolding wire_label_def append_Cons
    by (subst decode_labels.simps) (simp only: list.case nz le if_False len, simp)
  with Cons show ?case by simp
qed

section \<open>The query\<close>

text \<open>A query, field by field: identifier, flags, the four counts, then the question.\<close>

definition query_for :: "u16 \<Rightarrow> string \<Rightarrow> u16 \<Rightarrow> bytes" where
  "query_for qid name qtype =
     be16 qid @ be16 0x0100 @ be16 1 @ replicate 6 0 @ concat (map wire_label (dns_labels name)) @ 0 # be16 qtype @ be16 1"

lemma build_query_Ok_iff:
  "build_query qid name qtype = Ok packet \<longleftrightarrow>
     list_all good_label (dns_labels name) \<and> length (trim_end_matches (CHR ''.'') name) \<le> 253 \<and>
     packet = query_for qid name qtype"
  by (auto simp: build_query_def encode_name_Ok_iff query_for_def be16_def numeral_eq_Suc)

lemma build_query_no_panic: "build_query qid name qtype \<noteq> Panic m"
proof -
  have "\<not> is_panic (encode_labels ls [])" for ls
    using encode_labels_no_panic by (auto simp: is_panic_iff)
  then have "\<not> is_panic (build_query qid name qtype)"
    unfolding build_query_def encode_name_def Let_def by (intro bind_r_no_panic) auto
  then show ?thesis by auto
qed

definition question_of :: "string \<Rightarrow> u16 \<Rightarrow> bytes" where
  "question_of name qtype = concat (map wire_label (dns_labels name)) @ 0 # be16 qtype @ be16 1"

lemma query_for_split: "query_for qid name qtype = be16 qid @ be16 0x0100 @ be16 1 @ replicate 6 0 @ question_of name qtype"
  by (simp add: query_for_def question_of_def)

lemma drop_query: "drop 12 (query_for qid name qtype) = question_of name qtype"
  by (simp add: query_for_split be16_def)

lemma length_query: "length (query_for qid name qtype) = 12 + length (question_of name qtype)"
  by (simp add: query_for_split)

lemma length_question:
  "length (question_of name qtype) = length (trim_end_matches (CHR ''.'') name) + 6"
  using length_wire_labels [of name] by (simp add: question_of_def)

section \<open>The response\<close>

text \<open>
  A positive response to a question: its identifier, a flags word with QR set and RCODE 0, one
  question, any other counts, the question itself, and any records.
\<close>

definition dns_reply :: "u16 \<Rightarrow> bytes \<Rightarrow> bytes \<Rightarrow> bool" where
  "dns_reply qid question buf \<longleftrightarrow>
     (\<exists>flags counts records. buf = be16 qid @ be16 flags @ be16 1 @ counts @ question @ records \<and>
        length counts = 6 \<and> bit flags 15 \<and> take_bit 4 flags = 0)"

lemma qr_bit: "drop_bit 15 (f :: u16) = 1 \<longleftrightarrow> bit f 15"
proof -
  have "drop_bit 15 f = of_bool (bit f 15)"
    by (rule bit_word_eqI) (use bit_imp_le_length [of f] in \<open>fastforce simp: bit_simps\<close>)
  then show ?thesis by simp
qed

lemma rcode_bits: "(f :: u16) AND 0x000F = take_bit 4 f"
  by (simp add: take_bit_eq_mask mask_eq_exp_minus_1)

lemma header_split:
  assumes "12 \<le> length buf"
  obtains b0 b1 b2 b3 b4 b5 cs rest where "buf = b0 # b1 # b2 # b3 # b4 # b5 # cs @ rest" "length cs = 6"
proof -
  obtain b0 b1 b2 b3 b4 b5 t where *: "buf = b0 # b1 # b2 # b3 # b4 # b5 # t"
    using assms by (metis (no_types) Suc_le_length_iff numeral_eq_Suc pred_numeral_simps(3) pred_numeral_simps(2)
        arith_simps(2-3) BitM.simps numeral_One eval_nat_numeral(3))
  with assms show ?thesis using that [of b0 b1 b2 b3 b4 b5 "take 6 t" "drop 6 t"] by simp
qed

lemma dns_validate_iff:
  assumes "length h = 12"
  shows "dns_validate_response buf (h @ q) qid = Ok () \<longleftrightarrow> dns_reply qid q buf"
proof (cases "length buf < 12")
  case True
  then show ?thesis by (auto simp: dns_validate_response_def dns_reply_def)
next
  case False
  then obtain b0 b1 b2 b3 b4 b5 cs rest
    where buf: "buf = b0 # b1 # b2 # b3 # b4 # b5 # cs @ rest" and cs: "length cs = 6"
    using header_split [of buf] by (metis not_less)
  have sl: "slice 12 (12 + n) buf = take n rest" for n
    using cs by (simp add: slice_def buf)
  have "dns_validate_response buf (h @ q) qid = Ok () \<longleftrightarrow>
      u16_of_be b0 b1 = qid \<and> bit (u16_of_be b2 b3) 15 \<and> take_bit 4 (u16_of_be b2 b3) = 0 \<and> u16_of_be b4 b5 = 1 \<and>
      length q \<le> length rest \<and> take (length q) rest = q"
    using assms cs sl [of "length q"] unfolding dns_validate_response_def Let_def
    by (simp add: buf qr_bit rcode_bits)
  also have "\<dots> \<longleftrightarrow> dns_reply qid q buf" (is "?l \<longleftrightarrow> ?r")
  proof
    assume ?l
    then have "buf = be16 qid @ be16 (u16_of_be b2 b3) @ be16 1 @ cs @ q @ drop (length q) rest"
      by (metis append_Cons append_Nil append_take_drop_id be16_u16_of_be buf)
    with \<open>?l\<close> cs show ?r unfolding dns_reply_def by blast
  next
    assume ?r
    then obtain flags counts records
      where r: "buf = be16 qid @ be16 flags @ be16 1 @ counts @ q @ records" "length counts = 6"
        "bit flags 15" "take_bit 4 flags = 0"
      unfolding dns_reply_def by blast
    then have "b0 # b1 # b2 # b3 # b4 # b5 # cs @ rest = be16 qid @ be16 flags @ be16 1 @ counts @ q @ records"
      by (simp add: buf)
    then have "be16 qid = [b0, b1]" "be16 flags = [b2, b3]" "be16 1 = [b4, b5]" "rest = q @ records"
      using cs r(2) by (auto simp: be16_def)
    with r(3,4) show ?l by (auto simp: u16_of_be_eq_iff [THEN iffD2])
  qed
  finally show ?thesis .
qed

lemma dns_validate_no_panic: "length h = 12 \<Longrightarrow> dns_validate_response buf (h @ q) qid \<noteq> Panic m"
  by (simp add: dns_validate_response_def Let_def)

lemma dns_reply_cut:
  assumes "12 + length q \<le> n"
  shows "dns_reply qid q (take n r) \<longleftrightarrow> dns_reply qid q r"
proof
  assume "dns_reply qid q (take n r)"
  then obtain f c t where *: "take n r = be16 qid @ be16 f @ be16 1 @ c @ q @ t" "length c = 6" "bit f 15" "take_bit 4 f = 0"
    unfolding dns_reply_def by blast
  have "r = be16 qid @ be16 f @ be16 1 @ c @ q @ t @ drop n r"
    using append_take_drop_id [of n r] *(1) by simp
  with * show "dns_reply qid q r" unfolding dns_reply_def by blast
next
  assume "dns_reply qid q r"
  then obtain f c t where *: "r = be16 qid @ be16 f @ be16 1 @ c @ q @ t" "length c = 6" "bit f 15" "take_bit 4 f = 0"
    unfolding dns_reply_def by blast
  have "take n r = be16 qid @ be16 f @ be16 1 @ c @ q @ take (n - 12 - length q) t"
    using assms *(2) by (simp add: *(1))
  with * show "dns_reply qid q (take n r)" unfolding dns_reply_def by blast
qed

section \<open>Properties\<close>

lemma encode_labels_err: "encode_labels ls out = Err e \<Longrightarrow> err_kind e = InvalidInput"
  by (induction ls arbitrary: out) (auto split: if_splits)

lemma encode_name_err:
  assumes "encode_name name = Err e"
  shows "err_kind e = InvalidInput"
  using assms encode_labels_err unfolding encode_name_def Let_def
  by (cases "encode_labels (split_char (CHR ''.'') (trim_end_matches (CHR ''.'') name)) []") (auto split: if_splits)

lemma encode_name_no_panic: "encode_name name \<noteq> Panic m"
proof -
  have "\<not> is_panic (encode_labels ls [])" for ls
    using encode_labels_no_panic by (auto simp: is_panic_iff)
  then have "\<not> is_panic (encode_name name)"
    unfolding encode_name_def Let_def by (intro bind_r_no_panic) auto
  then show ?thesis by auto
qed

text \<open>
  C12. DNS names. \<open>encode_name\<close> never panics. It accepts exactly the names of at most 253 bytes (trailing
  dots dropped) whose labels are non-empty and at most 63 bytes long; what it produces for one is at most
  255 bytes and is read back, whatever bytes follow, by a reader that takes no label longer than 63
  bytes. Every other name is refused with \<open>InvalidInput\<close>.
\<close>

theorem encode_name_roundtrip:
  "case encode_name name of
     Ok out \<Rightarrow> list_all (\<lambda>l. l \<noteq> [] \<and> length l \<le> 63) (dns_labels name) \<and> length (trim_end_matches (CHR ''.'') name) \<le> 253 \<and>
       decode_labels (out @ rest) = Some (dns_labels name, rest) \<and> length out \<le> 255
   | Err e \<Rightarrow> err_kind e = InvalidInput \<and>
       \<not> (list_all (\<lambda>l. l \<noteq> [] \<and> length l \<le> 63) (dns_labels name) \<and> length (trim_end_matches (CHR ''.'') name) \<le> 253)
   | Panic m \<Rightarrow> False"
proof (cases "encode_name name")
  case (Ok out)
  then have *: "list_all good_label (dns_labels name)" "length (trim_end_matches (CHR ''.'') name) \<le> 253"
      "out = concat (map wire_label (dns_labels name)) @ [0]"
    by (auto simp: encode_name_Ok_iff)
  then show ?thesis
    using decode_wire [OF *(1), of rest] length_wire_labels [of name] Ok by simp
next
  case (Err e)
  then show ?thesis
    using encode_name_err [OF Err] encode_name_Ok_iff [of name "concat (map wire_label (dns_labels name)) @ [0]"] by auto
next
  case (Panic m)
  then show ?thesis by (simp add: encode_name_no_panic)
qed

lemma dns_ping_run:
  assumes "dns_server_endpoint (net_regex net) (dns_server p) = Ok ep"
    and "build_query (random_id (system_time net w)) (dns_query p) (RecordType_code (dns_record_type p)) = Ok request"
  shows "dns_ping net p w = with_timeout net (dns_timeout p) (udp_exchange net ep request DNS_BUF_SIZE
      (\<lambda>buf. dns_validate_response buf request (random_id (system_time net w)))) w"
proof -
  have "dns_query p \<noteq> []"
    using assms(2) by (auto simp: build_query_Ok_iff dns_labels_def trim_end_matches_def)
  then show ?thesis by (simp add: dns_ping_def Let_def assms)
qed

lemma dns_ping_outcome_fact:
  assumes "datagram_peer net answer queue" and "prompt net" and "queue w = []"
    and "dns_server_endpoint (net_regex net) (dns_server p) = Ok ep"
    and "build_query (random_id (system_time net w)) (dns_query p) (RecordType_code (dns_record_type p)) = Ok request"
  shows "\<exists>res w'. dns_ping net p w = Some (res, w') \<and> \<not> is_panic res \<and>
    (res = Ok () \<longleftrightarrow> (\<exists>r. answer request = Some r \<and>
        dns_reply (random_id (system_time net w)) (drop 12 request) r)) \<and>
    (answer request = None \<longrightarrow> res = Err (IoError TimedOut ''operation timed out''))"
proof -
  let ?id = "random_id (system_time net w)" and ?q = "question_of (dns_query p) (RecordType_code (dns_record_type p))"
  have req: "request = query_for ?id (dns_query p) (RecordType_code (dns_record_type p))"
    and small: "length (trim_end_matches (CHR ''.'') (dns_query p)) \<le> 253"
    using assms(5) by (auto simp: build_query_Ok_iff)
  have q: "drop 12 request = ?q" "12 + length ?q \<le> 512"
    using small length_question [of "dns_query p"] by (simp_all add: req drop_query)
  obtain h where h: "request = h @ ?q" "length h = 12"
    using length_query q(1) req by (metis append_take_drop_id length_take min.absorb2 le_add1)
  show ?thesis
    using datagram_peer.ping_outcome [OF assms(1-3), of "dns_timeout p" ep request 512
        "\<lambda>buf. dns_validate_response buf request ?id"]
      dns_ping_run [OF assms(4,5)] dns_validate_no_panic [OF h(2)]
      dns_validate_iff [OF h(2)] dns_reply_cut [OF q(2)]
    by (cases "answer request") (auto simp: h(1) is_panic_iff h(2))
qed

text \<open>
  C3. DNS ping. For a query name that encodes, against any peer of the datagram socket, the ping
  resolves without a panic; it succeeds exactly when the peer answers the query with a response
  that carries the query's identifier, the QR flag, RCODE 0 and the question echoed byte for byte,
  with any records after it; a silent peer gives the timeout error.
\<close>

theorem dns_ping_outcome:
  assumes "datagram_peer net answer queue" and "prompt net" and "queue w = []"
    and "dns_server_endpoint (net_regex net) (dns_server p) = Ok ep"
    and "build_query (random_id (system_time net w)) (dns_query p) (RecordType_code (dns_record_type p)) = Ok request"
  shows "\<exists>res w'. dns_ping net p w = Some (res, w') \<and> \<not> is_panic res \<and>
    (res = Ok () \<longleftrightarrow> (\<exists>r. answer request = Some r \<and>
        dns_reply (random_id (system_time net w)) (drop 12 request) r)) \<and>
    (answer request = None \<longrightarrow> res = Err (IoError TimedOut ''operation timed out''))"
  by (rule dns_ping_outcome_fact [OF assms])

text \<open>A responder for the witness: the query with QR set and RCODE 0.\<close>

lemma dns_ping_outcome_witness:
  "\<exists>w'. dns_ping (lab (\<lambda>d. Some (take 2 d @ [0x81, 0x80] @ drop 4 d))) (DnsPinger_new ''srv:5300'' ''a.b'') (lab_start []) =
     Some (Ok (), w')"
proof -
  let ?a = "\<lambda>d :: bytes. Some (take 2 d @ [0x81, 0x80] @ drop 4 d)" and ?p = "DnsPinger_new ''srv:5300'' ''a.b''"
  let ?id = "random_id (system_time (lab ?a) (lab_start []))" and ?q = "question_of ''a.b'' 1"
  have ep: "dns_server_endpoint (net_regex (lab ?a)) (dns_server ?p) = Ok ''srv:5300''"
    by (simp add: dns_server_endpoint_def DnsPinger_new_def default_uri_def)
  have req: "build_query ?id (dns_query ?p) (RecordType_code (dns_record_type ?p)) = Ok (query_for ?id ''a.b'' 1)"
    by (simp add: build_query_Ok_iff DnsPinger_new_def dns_labels_def trim_end_matches_def)
  have "?a (query_for ?id ''a.b'' 1) = Some (be16 ?id @ be16 0x8180 @ be16 1 @ replicate 6 0 @ ?q @ [])"
    by (simp add: query_for_split be16_def)
  moreover have "bit (0x8180 :: u16) 15" "take_bit 4 (0x8180 :: u16) = 0" by simp_all
  ultimately have "\<exists>r. ?a (query_for ?id ''a.b'' 1) = Some r \<and> dns_reply ?id (drop 12 (query_for ?id ''a.b'' 1)) r"
    unfolding dns_reply_def drop_query by (metis length_replicate)
  then show ?thesis
    using dns_ping_outcome [OF lab_udp.datagram_peer_axioms [of ?a] lab_prompt _ ep req] by auto
qed

text \<open>
  A query name that cannot be encoded is reported as \<open>InvalidInput\<close> before any socket is opened:
  the world is untouched.
\<close>

theorem dns_ping_rejects_name:
  assumes "dns_server_endpoint (net_regex net) (dns_server p) = Ok ep"
    and "\<not> list_all good_label (dns_labels (dns_query p)) \<or> 253 < length (trim_end_matches (CHR ''.'') (dns_query p))"
  shows "\<exists>m. dns_ping net p w = Some (Err (IoError InvalidInput m), w)"
proof (cases "dns_query p = []")
  case False
  let ?b = "build_query (random_id (system_time net w)) (dns_query p) (RecordType_code (dns_record_type p))"
  have "encode_name (dns_query p) \<noteq> Ok out" for out
    using assms(2) by (auto simp: encode_name_Ok_iff)
  then obtain e where e: "encode_name (dns_query p) = Err e"
    using encode_name_no_panic by (cases "encode_name (dns_query p)") blast+
  moreover have "err_kind e = InvalidInput" by (rule encode_name_err [OF e])
  moreover have "?b = Err e" by (simp add: build_query_def e)
  ultimately show ?thesis using False by (cases e) (simp add: dns_ping_def Let_def assms(1))
qed (simp add: dns_ping_def)

lemma dns_ping_rejects_name_witness:
  "\<exists>m. dns_ping (lab (\<lambda>_. None)) (DnsPinger_new ''srv:5300'' ''foo..bar'') (lab_start []) =
     Some (Err (IoError InvalidInput m), lab_start [])"
proof -
  let ?p = "DnsPinger_new ''srv:5300'' ''foo..bar''"
  have ep: "dns_server_endpoint (net_regex (lab (\<lambda>_. None))) (dns_server ?p) = Ok ''srv:5300''"
    by (simp add: dns_server_endpoint_def DnsPinger_new_def default_uri_def)
  have "\<not> list_all good_label (dns_labels (dns_query ?p))"
    by (simp add: DnsPinger_new_def dns_labels_def trim_end_matches_def)
  then show ?thesis using dns_ping_rejects_name [OF ep] by blast
qed

end
