(* ===== verification/Stun.thy ===== *)
theory Stun
  imports Lab
begin

text \<open>
  \<open>zpinger/src/stun.rs\<close>: messages, transaction identifiers, the validation of response headers
  (shared with TURN) and the STUN ping.
\<close>

section \<open>Definitions\<close>

abbreviation STUN_DEFAULT_PORT :: u16 where "STUN_DEFAULT_PORT \<equiv> 3478"
abbreviation STUN_BUF_SIZE :: nat where "STUN_BUF_SIZE \<equiv> 255"
abbreviation STUN_HEADER_LEN :: nat where "STUN_HEADER_LEN \<equiv> 20"
abbreviation STUN_TXID_LEN :: nat where "STUN_TXID_LEN \<equiv> 12"
abbreviation MAGIC_COOKIE :: u32 where "MAGIC_COOKIE \<equiv> 0x2112A442"
abbreviation MSG_BINDING_REQUEST :: u16 where "MSG_BINDING_REQUEST \<equiv> 0x0001"
abbreviation MSG_BINDING_SUCCESS :: u16 where "MSG_BINDING_SUCCESS \<equiv> 0x0101"

record StunPinger =
  stun_server :: string
  stun_timeout :: duration

definition StunPinger_new :: "string \<Rightarrow> StunPinger" where
  "StunPinger_new server = \<lparr>stun_server = server, stun_timeout = from_secs 5\<rparr>"

definition StunPinger_with_timeout :: "StunPinger \<Rightarrow> duration \<Rightarrow> StunPinger" where
  "StunPinger_with_timeout self t = self\<lparr>stun_timeout := t\<rparr>"

definition stun_server_endpoint :: "u16 \<Rightarrow> engine \<Rightarrow> string \<Rightarrow> string result" where
  "stun_server_endpoint default_port rx server =
     bind_r (get_uri rx server) (\<lambda>uri.
       if uri_domain uri = [] then err_invalid ''STUN/TURN server target is missing a host''
       else
         (let port = (if 0 < uri_port uri then as_u16 (uri_port uri) else default_port)
          in Ok (uri_domain uri @ '':'' @ dec (unat port))))"

definition build_header :: "u16 \<Rightarrow> u16 \<Rightarrow> bytes \<Rightarrow> bytes" where
  "build_header message_type message_length transaction_id =
     (let header = replicate STUN_HEADER_LEN 0;
          header = copy_at 0 (be16 message_type) header;
          header = copy_at 2 (be16 message_length) header;
          header = copy_at 4 (be32 MAGIC_COOKIE) header
      in copy_at 8 transaction_id header)"

definition build_message :: "u16 \<Rightarrow> bytes \<Rightarrow> bytes \<Rightarrow> bytes result" where
  "build_message message_type attributes transaction_id =
     (if length attributes < 2 ^ 16
      then Ok (build_header message_type (of_nat (length attributes)) transaction_id @ attributes)
      else Panic ''STUN attributes fit in u16'')"

definition random_transaction_id :: "(nat \<times> nat) option \<Rightarrow> bytes" where
  "random_transaction_id now =
     (let tid = replicate STUN_TXID_LEN 0
      in case now of
           Some (secs, nanos) \<Rightarrow> copy_at 8 (be32 (of_nat nanos)) (copy_at 0 (be64 (of_nat secs)) tid)
         | None \<Rightarrow> tid)"

definition validate_response_header :: "bytes \<Rightarrow> u16 \<Rightarrow> bytes \<Rightarrow> unit result" where
  "validate_response_header buf expected_type expected_txid =
     (if length buf < STUN_HEADER_LEN
      then err_other (''STUN response shorter than 20-byte header (got '' @ dec (length buf) @ '' bytes)'')
      else
        (let message_type = u16_of_be (buf ! 0) (buf ! 1)
         in if message_type \<noteq> expected_type
            then err_other (''STUN response message type '' @ hex_alt 6 (unat message_type)
                   @ '' (expected '' @ hex_alt 6 (unat expected_type) @ '')'')
            else
              (let cookie = u32_of_be (buf ! 4) (buf ! 5) (buf ! 6) (buf ! 7)
               in if cookie \<noteq> MAGIC_COOKIE
                  then err_other (''STUN response magic cookie '' @ hex_alt 10 (unat cookie)
                         @ '' does not match '' @ hex_alt 10 (unat MAGIC_COOKIE))
                  else if slice 8 20 buf \<noteq> expected_txid
                  then err_other ''STUN response transaction ID does not match request''
                  else Ok ())))"

definition validate_binding_response :: "bytes \<Rightarrow> bytes \<Rightarrow> unit result" where
  "validate_binding_response buf expected_txid =
     validate_response_header buf MSG_BINDING_SUCCESS expected_txid"

definition stun_ping :: "('w, 'h, 'c) net \<Rightarrow> StunPinger \<Rightarrow> ('w, unit) io" where
  "stun_ping net self =
     io_bind (io_lift (stun_server_endpoint STUN_DEFAULT_PORT (net_regex net) (stun_server self))) (\<lambda>endpoint w.
       let txid = random_transaction_id (system_time net w);
           request = build_header MSG_BINDING_REQUEST 0 txid
       in with_timeout net (stun_timeout self)
            (udp_exchange net endpoint request STUN_BUF_SIZE (\<lambda>buf. validate_binding_response buf txid)) w)"

section \<open>Messages\<close>

interpretation stun_addr: dial_address "stun_server_endpoint default_port" "\<lambda>_. default_port" for default_port
  by unfold_locales (auto simp: stun_server_endpoint_def Let_def)

lemma build_header_eq:
  assumes "length tx = 12"
  shows "build_header ty len tx = be16 ty @ be16 len @ be32 MAGIC_COOKIE @ tx"
proof -
  have 1: "copy_at 0 (be16 ty) (replicate 20 0) = be16 ty @ replicate 18 0"
    by (simp add: copy_at_0)
  have 2: "copy_at 2 (be16 len) \<dots> = (be16 ty @ be16 len) @ replicate 16 0"
    by (simp add: copy_at_end)
  have 3: "copy_at 4 (be32 MAGIC_COOKIE) \<dots> = (be16 ty @ be16 len @ be32 MAGIC_COOKIE) @ replicate 12 0"
    by (subst copy_at_end) simp_all
  have 4: "copy_at 8 tx \<dots> = be16 ty @ be16 len @ be32 MAGIC_COOKIE @ tx"
    using assms by (subst copy_at_end) simp_all
  show ?thesis unfolding build_header_def Let_def 1 2 3 4 ..
qed

lemma length_txid [simp]: "length (random_transaction_id now) = 12"
  by (simp add: random_transaction_id_def Let_def split: option.split)

text \<open>A message of the given type, with the cookie and a transaction identifier.\<close>

definition stun_message :: "u16 \<Rightarrow> bytes \<Rightarrow> bytes \<Rightarrow> bool" where
  "stun_message ty tx buf \<longleftrightarrow> (\<exists>len body. buf = be16 ty @ be16 len @ be32 MAGIC_COOKIE @ tx @ body)"

lemma build_message_Ok_iff:
  "length tx = 12 \<Longrightarrow> build_message ty attrs tx = Ok m \<longleftrightarrow> length attrs < 65536 \<and>
     m = be16 ty @ be16 (of_nat (length attrs)) @ be32 MAGIC_COOKIE @ tx @ attrs"
  by (auto simp: build_message_def build_header_eq)

lemma header_split20:
  assumes "20 \<le> length buf"
  obtains b0 b1 b2 b3 b4 b5 b6 b7 t where "buf = b0 # b1 # b2 # b3 # b4 # b5 # b6 # b7 # t" "12 \<le> length t"
proof -
  have "8 \<le> length buf" using assms by simp
  then obtain b0 b1 b2 b3 b4 b5 b6 b7 t where "buf = b0 # b1 # b2 # b3 # b4 # b5 # b6 # b7 # t"
    by (auto simp: numeral_eq_Suc Suc_le_length_iff)
  with assms show ?thesis using that by simp
qed

lemma validate_header_iff:
  assumes "length tx = 12"
  shows "validate_response_header buf ty tx = Ok () \<longleftrightarrow> stun_message ty tx buf"
proof (cases "length buf < 20")
  case True
  then show ?thesis using assms by (auto simp: validate_response_header_def stun_message_def)
next
  case False
  then obtain b0 b1 b2 b3 b4 b5 b6 b7 t where buf: "buf = b0 # b1 # b2 # b3 # b4 # b5 # b6 # b7 # t" and t: "12 \<le> length t"
    using header_split20 [of buf] by (metis not_less)
  have "validate_response_header buf ty tx = Ok () \<longleftrightarrow>
      u16_of_be b0 b1 = ty \<and> u32_of_be b4 b5 b6 b7 = MAGIC_COOKIE \<and> take 12 t = tx"
    using t by (auto simp: validate_response_header_def Let_def buf slice_def)
  also have "\<dots> \<longleftrightarrow> stun_message ty tx buf" (is "?l \<longleftrightarrow> ?r")
  proof
    assume ?l
    then have "be32 MAGIC_COOKIE = [b4, b5, b6, b7]" by (simp add: u32_of_be_eq_iff)
    with \<open>?l\<close> have "buf = be16 ty @ be16 (u16_of_be b2 b3) @ be32 MAGIC_COOKIE @ tx @ drop 12 t"
      using buf by (auto simp: be_simps)
    then show ?r unfolding stun_message_def by blast
  next
    assume ?r
    then obtain len body where "b0 # b1 # b2 # b3 # b4 # b5 # b6 # b7 # t = be16 ty @ be16 len @ be32 MAGIC_COOKIE @ tx @ body"
      unfolding stun_message_def buf by blast
    then have "be16 ty = [b0, b1]" "be32 MAGIC_COOKIE = [b4, b5, b6, b7]" "t = tx @ body"
      by (auto simp: be16_def be32_def)
    with assms show ?l by (simp add: u16_of_be_eq_iff u32_of_be_eq_iff)
  qed
  finally show ?thesis .
qed

lemma validate_header_no_panic: "validate_response_header buf ty tx \<noteq> Panic m"
  by (simp add: validate_response_header_def Let_def)

lemma stun_message_cut:
  assumes "length tx = 12" and "20 \<le> n"
  shows "stun_message ty tx (take n r) \<longleftrightarrow> stun_message ty tx r"
proof
  assume "stun_message ty tx (take n r)"
  then obtain len body where "take n r = be16 ty @ be16 len @ be32 MAGIC_COOKIE @ tx @ body"
    unfolding stun_message_def by blast
  then have "r = be16 ty @ be16 len @ be32 MAGIC_COOKIE @ tx @ body @ drop n r"
    using append_take_drop_id [of n r] by simp
  then show "stun_message ty tx r" unfolding stun_message_def by blast
next
  assume "stun_message ty tx r"
  then obtain len body where r: "r = be16 ty @ be16 len @ be32 MAGIC_COOKIE @ tx @ body"
    unfolding stun_message_def by blast
  have "take n r = be16 ty @ be16 len @ be32 MAGIC_COOKIE @ tx @ take (n - 20) body"
    using assms by (simp add: r)
  then show "stun_message ty tx (take n r)" unfolding stun_message_def by blast
qed

section \<open>The ping\<close>

lemma stun_ping_run:
  assumes "stun_server_endpoint STUN_DEFAULT_PORT (net_regex net) (stun_server p) = Ok ep"
  shows "stun_ping net p w = with_timeout net (stun_timeout p)
    (udp_exchange net ep (build_header MSG_BINDING_REQUEST 0 (random_transaction_id (system_time net w))) 255
      (\<lambda>buf. validate_response_header buf MSG_BINDING_SUCCESS (random_transaction_id (system_time net w)))) w"
  by (simp add: stun_ping_def Let_def assms validate_binding_response_def)

lemma stun_ping_outcome_fact:
  assumes "datagram_peer net answer queue" and "prompt net" and "queue w = []"
    and "stun_server_endpoint STUN_DEFAULT_PORT (net_regex net) (stun_server p) = Ok ep"
  shows "\<exists>txid res w'. length txid = 12 \<and> stun_ping net p w = Some (res, w') \<and> \<not> is_panic res \<and>
    (res = Ok () \<longleftrightarrow> (\<exists>r. answer (be16 MSG_BINDING_REQUEST @ be16 0 @ be32 MAGIC_COOKIE @ txid) = Some r \<and>
        stun_message MSG_BINDING_SUCCESS txid r))"
proof -
  let ?tx = "random_transaction_id (system_time net w)"
  have "\<exists>w'. stun_ping net p w = Some (case answer (build_header MSG_BINDING_REQUEST 0 ?tx) of
        Some r \<Rightarrow> validate_response_header (take 255 r) MSG_BINDING_SUCCESS ?tx
      | None \<Rightarrow> Err (IoError TimedOut ''operation timed out''), w')"
    using datagram_peer.ping_outcome [OF assms(1-3)] unfolding stun_ping_run [OF assms(4)] .
  then show ?thesis
    using validate_header_no_panic
    by (intro exI [of _ ?tx], cases "answer (build_header MSG_BINDING_REQUEST 0 ?tx)")
      (auto simp: validate_header_iff stun_message_cut build_header_eq is_panic_iff)
qed



end
