(* ===== verification/Turn.thy ===== *)
theory Turn
  imports Stun
begin

text \<open>
  \<open>zpinger/src/turn.rs\<close>: the Allocate request, the walk over the attributes of the error response,
  and the TURN ping. The walk is related to attribute lists.
\<close>

section \<open>Definitions\<close>

abbreviation TURN_DEFAULT_PORT :: u16 where "TURN_DEFAULT_PORT \<equiv> 3478"
abbreviation TURN_BUF_SIZE :: nat where "TURN_BUF_SIZE \<equiv> 255"
abbreviation MSG_ALLOCATE_REQUEST :: u16 where "MSG_ALLOCATE_REQUEST \<equiv> 0x0003"
abbreviation MSG_ALLOCATE_ERROR :: u16 where "MSG_ALLOCATE_ERROR \<equiv> 0x0113"
abbreviation ATTR_ERROR_CODE :: u16 where "ATTR_ERROR_CODE \<equiv> 0x0009"
abbreviation ATTR_REQUESTED_TRANSPORT :: u16 where "ATTR_REQUESTED_TRANSPORT \<equiv> 0x0019"
abbreviation REQUESTED_TRANSPORT_UDP :: u8 where "REQUESTED_TRANSPORT_UDP \<equiv> 17"

record TurnPinger =
  turn_server :: string
  turn_timeout :: duration

definition TurnPinger_new :: "string \<Rightarrow> TurnPinger" where
  "TurnPinger_new server = \<lparr>turn_server = server, turn_timeout = from_secs 5\<rparr>"

definition TurnPinger_with_timeout :: "TurnPinger \<Rightarrow> duration \<Rightarrow> TurnPinger" where
  "TurnPinger_with_timeout self t = self\<lparr>turn_timeout := t\<rparr>"

definition build_requested_transport_attribute :: bytes where
  "build_requested_transport_attribute =
     (let attr = replicate 8 0;
          attr = copy_at 0 (be16 ATTR_REQUESTED_TRANSPORT) attr;
          attr = copy_at 2 (be16 4) attr
      in attr[4 := REQUESTED_TRANSPORT_UDP])"

text \<open>The loop: \<open>body\<close> is what is left to walk.\<close>

function find_error_code :: "bytes \<Rightarrow> u16 option result" where
  "find_error_code body =
     (if length body < 4 then Ok None
      else
        (let attr_type = u16_of_be (body ! 0) (body ! 1);
             attr_len = unat (u16_of_be (body ! 2) (body ! 3));
             total = 4 + attr_len;
             padded = (total + 3) div 4 * 4
         in if length body < total
            then err_other ''STUN attribute claims more bytes than the message contains''
            else if attr_type = ATTR_ERROR_CODE
            then
              (if attr_len < 4
               then err_other (''STUN ERROR-CODE attribute too short ('' @ dec attr_len @ '' bytes, need >= 4)'')
               else bind_r (byte_at body (4 + 2)) (\<lambda>b6. bind_r (byte_at body (4 + 3)) (\<lambda>b7.
                 let class = ucast (b6 AND 0x07) :: u16; number = ucast b7 :: u16
                 in Ok (Some (class * 100 + number)))))
            else if length body < padded then Ok None
            else find_error_code (drop padded body)))"
  by pat_completeness auto
termination
  by (relation "measure length") (auto simp: Let_def)

definition validate_allocate_error_response :: "bytes \<Rightarrow> bytes \<Rightarrow> unit result" where
  "validate_allocate_error_response buf expected_txid =
     bind_r (validate_response_header buf MSG_ALLOCATE_ERROR expected_txid) (\<lambda>_.
     bind_r (slice_from STUN_HEADER_LEN buf) (\<lambda>body.
     bind_r (find_error_code body) (\<lambda>code.
       case code of
         Some c \<Rightarrow>
           if c = 401 then Ok ()
           else err_other (''TURN Allocate Error returned code '' @ dec (unat c) @ '' (expected 401 Unauthorized)'')
       | None \<Rightarrow> err_other ''TURN Allocate Error Response is missing the ERROR-CODE attribute'')))"

definition turn_ping :: "('w, 'h, 'c) net \<Rightarrow> TurnPinger \<Rightarrow> ('w, unit) io" where
  "turn_ping net self =
     io_bind (io_lift (stun_server_endpoint TURN_DEFAULT_PORT (net_regex net) (turn_server self))) (\<lambda>endpoint w.
       let txid = random_transaction_id (system_time net w);
           attrs = build_requested_transport_attribute
       in io_bind (io_lift (build_message MSG_ALLOCATE_REQUEST attrs txid)) (\<lambda>request.
            with_timeout net (turn_timeout self)
              (udp_exchange net endpoint request TURN_BUF_SIZE (\<lambda>buf. validate_allocate_error_response buf txid))) w)"

section \<open>Attribute lists\<close>

text \<open>An attribute: type, value and the padding to a multiple of four bytes (of any content).\<close>

type_synonym attr = "u16 \<times> bytes \<times> bytes"

definition attr_bytes :: "attr \<Rightarrow> bytes" where
  "attr_bytes a = (case a of (ty, v, pad) \<Rightarrow> be16 ty @ be16 (of_nat (length v)) @ v @ pad)"

definition wf_attr :: "attr \<Rightarrow> bool" where
  "wf_attr a = (case a of (ty, v, pad) \<Rightarrow> length v < 65536 \<and> length pad = (4 - length v mod 4) mod 4)"

declare find_error_code.simps [simp del]

lemma padded_len: "(4 + n + 3) div 4 * 4 = 4 + n + (4 - n mod 4) mod (4 :: nat)"
proof -
  obtain q r where n: "n = 4 * q + r" "r < 4" by (metis mult_div_mod_eq mod_less_divisor zero_less_numeral)
  then have "r = 0 \<or> r = 1 \<or> r = 2 \<or> r = 3" by arith
  then show ?thesis by (auto simp: n(1))
qed

lemma unat_len: "n < 65536 \<Longrightarrow> unat (of_nat n :: u16) = n"
  by (simp add: unat_of_nat)

text \<open>One round of the loop on an attribute header followed by anything.\<close>

lemma find_error_code_step:
  assumes "length v = n" and "n < 65536"
  shows "find_error_code (be16 ty @ be16 (of_nat n) @ v @ rest) =
    (if ty = ATTR_ERROR_CODE
     then (if n < 4 then err_other (''STUN ERROR-CODE attribute too short ('' @ dec n @ '' bytes, need >= 4)'')
           else Ok (Some (ucast (v ! 2 AND 7) * 100 + ucast (v ! 3))))
     else if length rest < (4 - n mod 4) mod 4 then Ok None
     else find_error_code (drop ((4 - n mod 4) mod 4) rest))"
proof -
  define b where "b = be16 ty @ be16 (of_nat n) @ v @ rest"
  have h: "u16_of_be (b ! 0) (b ! 1) = ty" "u16_of_be (b ! 2) (b ! 3) = of_nat n"
    by (simp_all add: b_def be16_def)
  have len: "length b = 4 + n + length rest" using assms(1) by (simp add: b_def)
  have at: "byte_at b (4 + i) = Ok (v ! i)" if "i < n" for i
    using that assms(1) by (simp add: b_def byte_at_def be16_def nth_append)
  have dr: "drop (4 + n + k) b = drop k rest" for k
    using assms(1) drop_append [of "4 + n + k" "be16 ty @ be16 (of_nat n) @ v" rest] by (simp add: b_def)
  have "find_error_code b =
    (if ty = ATTR_ERROR_CODE
     then (if n < 4 then err_other (''STUN ERROR-CODE attribute too short ('' @ dec n @ '' bytes, need >= 4)'')
           else bind_r (byte_at b (4 + 2)) (\<lambda>b6. bind_r (byte_at b (4 + 3)) (\<lambda>b7.
             Ok (Some (ucast (b6 AND 7) * 100 + ucast b7)))))
     else if length rest < (4 - n mod 4) mod 4 then Ok None
     else find_error_code (drop ((4 - n mod 4) mod 4) rest))"
    unfolding find_error_code.simps [of b] Let_def h unat_len [OF assms(2)] padded_len len dr by simp
  then show ?thesis
    using at [of 2] at [of 3] by (simp add: b_def [symmetric] not_less)
qed

lemma find_error_code_attr:
  assumes "wf_attr a" and "fst a \<noteq> ATTR_ERROR_CODE"
  shows "find_error_code (attr_bytes a @ body) = find_error_code body"
proof -
  obtain ty v pad where a: "a = (ty, v, pad)" by (cases a)
  then show ?thesis
    using find_error_code_step [of v "length v" ty "pad @ body"] assms
    by (simp add: attr_bytes_def wf_attr_def)
qed

lemma find_error_code_attrs:
  "list_all (\<lambda>a. wf_attr a \<and> fst a \<noteq> ATTR_ERROR_CODE) as \<Longrightarrow>
    find_error_code (concat (map attr_bytes as) @ body) = find_error_code body"
  by (induction as) (simp_all add: find_error_code_attr)

text \<open>The ERROR-CODE attribute carried by a body: the first one, after attributes of other types.\<close>

definition carries_error :: "bytes \<Rightarrow> bytes \<Rightarrow> bool" where
  "carries_error body v \<longleftrightarrow> length v < 65536 \<and>
     (\<exists>as rest. body = concat (map attr_bytes as) @ be16 ATTR_ERROR_CODE @ be16 (of_nat (length v)) @ v @ rest \<and>
        list_all (\<lambda>a. wf_attr a \<and> fst a \<noteq> ATTR_ERROR_CODE) as)"

lemma carries_error_Cons:
  assumes "wf_attr a" and "fst a \<noteq> ATTR_ERROR_CODE" and "carries_error body v"
  shows "carries_error (attr_bytes a @ body) v"
proof -
  obtain as rest where "body = concat (map attr_bytes as) @ be16 ATTR_ERROR_CODE @ be16 (of_nat (length v)) @ v @ rest"
      "list_all (\<lambda>a. wf_attr a \<and> fst a \<noteq> ATTR_ERROR_CODE) as"
    using assms(3) unfolding carries_error_def by blast
  then have "attr_bytes a @ body = concat (map attr_bytes (a # as)) @ be16 ATTR_ERROR_CODE @ be16 (of_nat (length v)) @ v @ rest"
      "list_all (\<lambda>a. wf_attr a \<and> fst a \<noteq> ATTR_ERROR_CODE) (a # as)"
    using assms by simp_all
  then show ?thesis using assms(3) unfolding carries_error_def by blast
qed

lemma find_error_code_carries:
  assumes "carries_error body v" and "4 \<le> length v"
  shows "find_error_code body = Ok (Some (ucast (v ! 2 AND 7) * 100 + ucast (v ! 3)))"
proof -
  obtain as rest where "body = concat (map attr_bytes as) @ be16 ATTR_ERROR_CODE @ be16 (of_nat (length v)) @ v @ rest"
      "list_all (\<lambda>a. wf_attr a \<and> fst a \<noteq> ATTR_ERROR_CODE) as"
    using assms(1) unfolding carries_error_def by blast
  then show ?thesis
    using find_error_code_step [of v "length v" ATTR_ERROR_CODE rest] assms
    by (simp add: find_error_code_attrs carries_error_def)
qed

lemma find_error_code_some:
  "find_error_code body = Ok (Some c) \<Longrightarrow>
    \<exists>v. carries_error body v \<and> 4 \<le> length v \<and> c = ucast (v ! 2 AND 7) * 100 + ucast (v ! 3)"
proof (induction body rule: measure_induct_rule [of length])
  case (less body)
  show ?case
  proof (cases "length body < 4")
    case True
    then show ?thesis using less.prems by (simp add: find_error_code.simps)
  next
    case False
    then have "4 \<le> length body" by simp
    then obtain b0 b1 b2 b3 t where body: "body = b0 # b1 # b2 # b3 # t"
      by (auto simp: numeral_eq_Suc Suc_le_length_iff)
    define n v where "n = unat (u16_of_be b2 b3)" and "v = take n t"
    have n: "n < 65536" "u16_of_be b2 b3 = of_nat n"
      using unsigned_less [of "u16_of_be b2 b3", where 'a = nat] by (simp_all add: n_def)
    have enough: "n \<le> length t"
      using less.prems by (subst (asm) find_error_code.simps) (simp add: body n_def Let_def split: if_splits)
    then have v: "length v = n" and t: "t = v @ drop n t" by (simp_all add: v_def)
    have eq: "body = be16 (u16_of_be b0 b1) @ be16 (of_nat n) @ v @ drop n t"
      using t by (simp add: body be_simps n(2) [symmetric] v_def)
    note step = find_error_code_step [OF v n(1), of "u16_of_be b0 b1" "drop n t", folded eq]
    show ?thesis
    proof (cases "u16_of_be b0 b1 = ATTR_ERROR_CODE")
      case True
      then have "carries_error body v"
        using eq v n(1) unfolding carries_error_def by (intro conjI exI [of _ "[]"] exI [of _ "drop n t"]) simp_all
      then show ?thesis using less.prems step True v by (auto split: if_splits)
    next
      case False
      let ?k = "(4 - n mod 4) mod 4"
      have k: "?k \<le> length (drop n t)" and rec: "find_error_code (drop ?k (drop n t)) = Ok (Some c)"
        using less.prems step False by (auto split: if_splits)
      have "length (drop ?k (drop n t)) < length body" by (simp add: body)
      then obtain v' where v': "carries_error (drop ?k (drop n t)) v'" "4 \<le> length v'"
          "c = ucast (v' ! 2 AND 7) * 100 + ucast (v' ! 3)"
        using less.IH rec by blast
      have "body = attr_bytes (u16_of_be b0 b1, v, take ?k (drop n t)) @ drop ?k (drop n t)"
        unfolding attr_bytes_def prod.case append_assoc append_take_drop_id v by (rule eq)
      moreover have "wf_attr (u16_of_be b0 b1, v, take ?k (drop n t))"
        using v n(1) k by (simp add: wf_attr_def)
      ultimately show ?thesis using carries_error_Cons [OF _ _ v'(1)] v' False by fastforce
    qed
  qed
qed

lemma find_error_code_no_panic: "find_error_code body \<noteq> Panic m"
proof (induction body rule: find_error_code.induct)
  case (1 body)
  then show ?case
    by (subst find_error_code.simps) (auto simp: Let_def byte_at_def)
qed

section \<open>The ping\<close>

text \<open>An ERROR-CODE value that says 401: class in the low three bits of byte 2, number in byte 3.\<close>

definition unauthorized :: "bytes \<Rightarrow> bool" where
  "unauthorized v \<longleftrightarrow> 4 \<le> length v \<and> unat (v ! 2) mod 8 * 100 + unat (v ! 3) = 401"

lemma error_code_value:
  "(ucast (a AND 7 :: u8) * 100 + ucast (b :: u8) :: u16) = 401 \<longleftrightarrow> unat a mod 8 * 100 + unat b = 401"
proof -
  have "(ucast (a AND 7) * 100 + ucast b :: u16) = of_nat (unat a mod 8 * 100 + unat b)"
    by (simp add: low3 [symmetric])
  moreover have "unat a mod 8 * 100 + unat b < 65536"
    using unsigned_less [of b, where 'a = nat] mod_less_divisor [of 8 "unat a"] by simp
  ultimately have "unat (ucast (a AND 7) * 100 + ucast b :: u16) = unat a mod 8 * 100 + unat b"
    by (simp only: unat_len)
  moreover have "unat (401 :: u16) = 401" by simp
  ultimately show ?thesis by (simp only: word_unat_eq_iff)
qed

definition turn_reply :: "bytes \<Rightarrow> bytes \<Rightarrow> bool" where
  "turn_reply tx buf \<longleftrightarrow> (\<exists>len body v. buf = be16 MSG_ALLOCATE_ERROR @ be16 len @ be32 MAGIC_COOKIE @ tx @ body \<and>
     carries_error body v \<and> unauthorized v)"

lemma find_error_401: "find_error_code body = Ok (Some 401) \<longleftrightarrow> (\<exists>v. carries_error body v \<and> unauthorized v)"
proof
  assume "find_error_code body = Ok (Some 401)"
  then obtain v where "carries_error body v" "4 \<le> length v" "ucast (v ! 2 AND 7) * 100 + ucast (v ! 3) = (401 :: u16)"
    using find_error_code_some by metis
  then show "\<exists>v. carries_error body v \<and> unauthorized v"
    unfolding unauthorized_def error_code_value by blast
next
  assume "\<exists>v. carries_error body v \<and> unauthorized v"
  then obtain v where v: "carries_error body v" "4 \<le> length v" "ucast (v ! 2 AND 7) * 100 + ucast (v ! 3) = (401 :: u16)"
    unfolding unauthorized_def error_code_value by blast
  then show "find_error_code body = Ok (Some 401)" using find_error_code_carries [OF v(1,2)] by simp
qed

lemma validate_allocate_iff:
  assumes "length tx = 12"
  shows "validate_allocate_error_response buf tx = Ok () \<longleftrightarrow> turn_reply tx buf"
proof -
  have "validate_allocate_error_response buf tx = Ok () \<longleftrightarrow>
      stun_message MSG_ALLOCATE_ERROR tx buf \<and> 20 \<le> length buf \<and> find_error_code (drop 20 buf) = Ok (Some 401)"
    unfolding validate_allocate_error_response_def bind_r_Ok_iff validate_header_iff [OF assms, symmetric]
    by (cases "find_error_code (drop 20 buf)") (auto simp: slice_from_def split: option.split)
  also have "\<dots> \<longleftrightarrow> turn_reply tx buf"
  proof
    assume *: "stun_message MSG_ALLOCATE_ERROR tx buf \<and> 20 \<le> length buf \<and> find_error_code (drop 20 buf) = Ok (Some 401)"
    then obtain len body where buf: "buf = be16 MSG_ALLOCATE_ERROR @ be16 len @ be32 MAGIC_COOKIE @ tx @ body"
      unfolding stun_message_def by blast
    have "drop 20 buf = body" using assms by (simp add: buf)
    then obtain v where "carries_error body v" "unauthorized v" using * find_error_401 [of body] by auto
    with buf show "turn_reply tx buf" unfolding turn_reply_def by (intro exI conjI)
  next
    assume "turn_reply tx buf"
    then obtain len body v where buf: "buf = be16 MSG_ALLOCATE_ERROR @ be16 len @ be32 MAGIC_COOKIE @ tx @ body"
        and v: "carries_error body v" "unauthorized v"
      unfolding turn_reply_def by (elim exE conjE)
    have code: "find_error_code body = Ok (Some 401)" unfolding find_error_401 using v by (intro exI conjI)
    have "20 \<le> length buf" "drop 20 buf = body" using assms by (simp_all add: buf)
    moreover have "stun_message MSG_ALLOCATE_ERROR tx buf" unfolding stun_message_def using buf by blast
    ultimately show "stun_message MSG_ALLOCATE_ERROR tx buf \<and> 20 \<le> length buf \<and> find_error_code (drop 20 buf) = Ok (Some 401)"
      using code by simp
  qed
  finally show ?thesis .
qed

lemma validate_allocate_no_panic:
  assumes "length tx = 12"
  shows "\<not> is_panic (validate_allocate_error_response buf tx)"
  unfolding validate_allocate_error_response_def
proof (intro bind_r_no_panic)
  show "\<not> is_panic (validate_response_header buf MSG_ALLOCATE_ERROR tx)"
    using validate_header_no_panic by (auto simp: is_panic_iff)
next
  fix x assume "validate_response_header buf MSG_ALLOCATE_ERROR tx = Ok x"
  then have "20 \<le> length buf"
    by (cases "length buf < 20") (simp_all add: validate_response_header_def)
  then show "\<not> is_panic (slice_from STUN_HEADER_LEN buf)" by (simp add: slice_from_def)
next
  fix body show "\<not> is_panic (find_error_code body)"
    using find_error_code_no_panic by (auto simp: is_panic_iff)
qed (auto split: option.splits)

definition allocate_request :: "bytes \<Rightarrow> bytes" where
  "allocate_request txid = be16 MSG_ALLOCATE_REQUEST @ be16 8 @ be32 MAGIC_COOKIE @ txid @ [0, 0x19, 0, 4, 17, 0, 0, 0]"

lemma requested_transport: "build_requested_transport_attribute = [0, 0x19, 0, 4, 17, 0, 0, 0]"
  by (simp add: build_requested_transport_attribute_def Let_def copy_at_def be16_def) (simp add: numeral_eq_Suc)

lemma build_allocate:
  "length tx = 12 \<Longrightarrow> build_message MSG_ALLOCATE_REQUEST build_requested_transport_attribute tx = Ok (allocate_request tx)"
  by (simp add: build_message_Ok_iff requested_transport allocate_request_def)

lemma turn_ping_run:
  assumes "stun_server_endpoint TURN_DEFAULT_PORT (net_regex net) (turn_server p) = Ok ep"
  shows "turn_ping net p w = with_timeout net (turn_timeout p)
    (udp_exchange net ep (allocate_request (random_transaction_id (system_time net w))) 255
      (\<lambda>buf. validate_allocate_error_response buf (random_transaction_id (system_time net w)))) w"
  by (simp add: turn_ping_def Let_def assms build_allocate)

text \<open>
  C2. TURN attribute walk. On every byte string the walk over the attributes ends without an
  out-of-range access; it returns the code of the ERROR-CODE attribute \<open>v\<close> exactly when the bytes
  are any number of complete attributes of other types, with their padding, followed by that
  attribute, and \<open>v\<close> has at least four bytes. What follows it is not looked at. The class is
  the low three bits of byte 2, as in RFC 8489, where the comment above the function says the high three.
\<close>

theorem find_error_code_spec:
  "\<not> is_panic (find_error_code body) \<and>
   (find_error_code body = Ok (Some c) \<longleftrightarrow>
     (\<exists>v. carries_error body v \<and> 4 \<le> length v \<and> c = ucast (v ! 2 AND 7) * 100 + ucast (v ! 3)))"
  using find_error_code_no_panic find_error_code_carries find_error_code_some
  by (auto simp: is_panic_iff)

lemma turn_ping_outcome_fact:
  assumes "datagram_peer net answer queue" and "prompt net" and "queue w = []"
    and "stun_server_endpoint TURN_DEFAULT_PORT (net_regex net) (turn_server p) = Ok ep"
  shows "\<exists>txid res w'. length txid = 12 \<and> turn_ping net p w = Some (res, w') \<and> \<not> is_panic res \<and>
    (res = Ok () \<longleftrightarrow> (\<exists>r. answer (allocate_request txid) = Some r \<and> turn_reply txid (take 255 r)))"
proof -
  let ?tx = "random_transaction_id (system_time net w)"
  have "\<exists>w'. turn_ping net p w = Some (case answer (allocate_request ?tx) of
        Some r \<Rightarrow> validate_allocate_error_response (take 255 r) ?tx
      | None \<Rightarrow> Err (IoError TimedOut ''operation timed out''), w')"
    using datagram_peer.ping_outcome [OF assms(1-3)] unfolding turn_ping_run [OF assms(4)] .
  then show ?thesis
    using validate_allocate_no_panic [of ?tx]
    by (intro exI [of _ ?tx], cases "answer (allocate_request ?tx)") (auto simp: validate_allocate_iff)
qed

text \<open>
  C10. TURN ping. The request is an Allocate Request with one REQUESTED-TRANSPORT attribute for UDP;
  against any peer the ping resolves without a panic, and it succeeds exactly when the peer's
  answer, cut to the 255-byte buffer, is an Allocate Error message with the cookie and the same
  transaction identifier whose first ERROR-CODE attribute says 401.
\<close>

theorem turn_ping_outcome:
  assumes "datagram_peer net answer queue" and "prompt net" and "queue w = []"
    and "stun_server_endpoint TURN_DEFAULT_PORT (net_regex net) (turn_server p) = Ok ep"
  shows "\<exists>txid res w'. length txid = 12 \<and> turn_ping net p w = Some (res, w') \<and> \<not> is_panic res \<and>
    (res = Ok () \<longleftrightarrow> (\<exists>r. answer (allocate_request txid) = Some r \<and> turn_reply txid (take 255 r)))"
  by (rule turn_ping_outcome_fact [OF assms])

text \<open>The answer of the witness: the header with the type replaced, and ERROR-CODE 401.\<close>

definition refuse_allocate :: "bytes \<Rightarrow> bytes option" where
  "refuse_allocate d = Some (be16 MSG_ALLOCATE_ERROR @ slice 2 20 d @ [0, 9, 0, 4, 0, 0, 4, 1])"

lemma turn_ping_outcome_witness:
  "\<exists>w'. turn_ping (lab refuse_allocate) (TurnPinger_new ''srv:5300'') (lab_start []) = Some (Ok (), w')"
proof -
  let ?p = "TurnPinger_new ''srv:5300''"
  have ep: "stun_server_endpoint TURN_DEFAULT_PORT (net_regex (lab refuse_allocate)) (turn_server ?p) = Ok ''srv:5300''"
    by (simp add: stun_server_endpoint_def TurnPinger_new_def default_uri_def)
  obtain txid res w' where *: "length txid = 12" "turn_ping (lab refuse_allocate) ?p (lab_start []) = Some (res, w')"
    "res = Ok () \<longleftrightarrow> (\<exists>r. refuse_allocate (allocate_request txid) = Some r \<and> turn_reply txid (take 255 r))"
    using turn_ping_outcome [OF lab_udp.datagram_peer_axioms [of refuse_allocate] lab_prompt _ ep, of "lab_start []"] by auto
  have "carries_error [0, 9, 0, 4, 0, 0, 4, 1] [0, 0, 4, 1]"
    unfolding carries_error_def by (intro conjI exI [of _ "[]"]) (simp_all add: be16_def)
  moreover have "unauthorized [0, 0, 4, 1]" by (simp add: unauthorized_def)
  moreover have "refuse_allocate (allocate_request txid) =
      Some (be16 MSG_ALLOCATE_ERROR @ be16 8 @ be32 MAGIC_COOKIE @ txid @ [0, 9, 0, 4, 0, 0, 4, 1])"
    using *(1) by (simp add: refuse_allocate_def allocate_request_def slice_def be16_def be32_def)
  ultimately have "\<exists>r. refuse_allocate (allocate_request txid) = Some r \<and> turn_reply txid (take 255 r)"
    using *(1) unfolding turn_reply_def
    by (intro exI [of _ "be16 MSG_ALLOCATE_ERROR @ be16 8 @ be32 MAGIC_COOKIE @ txid @ [0, 9, 0, 4, 0, 0, 4, 1]"] conjI
        exI [of _ 8] exI [of _ "[0, 9, 0, 4, 0, 0, 4, 1]"] exI [of _ "[0, 0, 4, 1]"]) simp_all
  with * show ?thesis by simp
qed

end
