(* ===== verification/Level4.thy ===== *)
theory Level4
  imports Lab
begin

text \<open>
  \<open>zpinger/src/level4.rs\<close>: the TCP and UDP pingers.
\<close>

section \<open>Definitions\<close>

abbreviation BUF_SIZE :: nat where "BUF_SIZE \<equiv> 255"

record TcpPinger =
  tcp_target :: string
  tcp_timeout :: duration

definition TcpPinger_new :: "string \<Rightarrow> TcpPinger" where
  "TcpPinger_new target = \<lparr>tcp_target = target, tcp_timeout = from_secs 5\<rparr>"

definition TcpPinger_with_timeout :: "TcpPinger \<Rightarrow> duration \<Rightarrow> TcpPinger" where
  "TcpPinger_with_timeout self t = self\<lparr>tcp_timeout := t\<rparr>"

definition tcp_ping :: "('w, 'h, 'c) net \<Rightarrow> TcpPinger \<Rightarrow> ('w, unit) io" where
  "tcp_ping net self = with_timeout net (tcp_timeout self)
     (io_bind (tcp_connect net (tcp_target self)) (\<lambda>stream.
      io_bind (st_write_all net stream [1]) (\<lambda>_.
      io_bind (st_read net stream BUF_SIZE) (\<lambda>_.
      io_ok ()))))"

record UdpPinger =
  udp_target :: string
  udp_timeout :: duration

definition UdpPinger_new :: "string \<Rightarrow> UdpPinger" where
  "UdpPinger_new target = \<lparr>udp_target = target, udp_timeout = from_secs 5\<rparr>"

definition UdpPinger_with_timeout :: "UdpPinger \<Rightarrow> duration \<Rightarrow> UdpPinger" where
  "UdpPinger_with_timeout self t = self\<lparr>udp_timeout := t\<rparr>"

definition udp_ping :: "('w, 'h, 'c) net \<Rightarrow> UdpPinger \<Rightarrow> ('w, unit) io" where
  "udp_ping net self = with_timeout net (udp_timeout self)
     (udp_exchange net (udp_target self) [1] BUF_SIZE (\<lambda>_. Ok ()))"

section \<open>Properties\<close>

context stream_peer
begin

lemma tcp_session:
  "relay (\<lambda>h. io_bind (st_write_all net h [1]) (\<lambda>_. io_bind (st_read net h BUF_SIZE) (\<lambda>_. io_ok ())))
     (\<lambda>inp res out. res = Ok () \<and> out = [1])"
  unfolding relay_def
proof (intro allI)
  fix h w
  obtain w1 where 1: "st_write_all net h [1] w = Some (Ok (), w1)" "outgoing w1 = outgoing w @ [1]"
    using peer_write [of h "[1]" w] by blast
  obtain bs w2 where 2: "st_read net h 255 w1 = Some (Ok bs, w2)" "outgoing w2 = outgoing w1"
    using peer_read [of 255 h w1] by auto
  have "io_bind (st_write_all net h [1]) (\<lambda>_. io_bind (st_read net h BUF_SIZE) (\<lambda>_. io_ok ())) w = Some (Ok (), w2)"
    by (simp add: io_bind_def 1 2)
  with 1 2 show "\<exists>res w'. io_bind (st_write_all net h [1]) (\<lambda>_. io_bind (st_read net h BUF_SIZE) (\<lambda>_. io_ok ())) w = Some (res, w') \<and>
      (\<exists>out. outgoing w' = outgoing w @ out \<and> res = Ok () \<and> out = [1])" by auto
qed

lemma tcp_ping_ok:
  assumes "prompt net"
  shows "\<exists>w'. tcp_ping net p w = Some (Ok (), w') \<and> outgoing w' = outgoing w @ [1]"
  using relay_timeout [OF assms tcp_session, of "tcp_timeout p" "tcp_target p" w] unfolding tcp_ping_def by auto

end

text \<open>
  TCP ping. Against a peer that accepts the connection the ping sends the single byte 1 and
  succeeds, whatever the peer sends: even a peer that closes without a byte counts as an answer.
\<close>

theorem tcp_ping_succeeds:
  assumes "stream_peer net incoming outgoing" and "prompt net"
  shows "\<exists>w'. tcp_ping net p w = Some (Ok (), w') \<and> outgoing w' = outgoing w @ [1]"
  by (rule stream_peer.tcp_ping_ok [OF assms])

lemma tcp_ping_succeeds_witness:
  "\<exists>w'. tcp_ping (lab (\<lambda>_. None)) (TcpPinger_new ''srv:5300'') (lab_start []) = Some (Ok (), w') \<and> sent w' = [1]"
  using tcp_ping_succeeds [OF lab_tcp.stream_peer_axioms lab_prompt, of "\<lambda>_. None" "TcpPinger_new ''srv:5300''" "lab_start []"]
  by simp

lemma udp_ping_outcome_fact:
  assumes "datagram_peer net answer queue" and "prompt net" and "queue w = []"
  shows "\<exists>w'. udp_ping net p w = Some (if answer [1] = None then Err (IoError TimedOut ''operation timed out'') else Ok (), w')"
  using datagram_peer.ping_outcome [OF assms, of "udp_timeout p" "udp_target p" "[1]" BUF_SIZE "\<lambda>_. Ok ()"]
  unfolding udp_ping_def by (cases "answer [1]") auto

text \<open>
  UDP ping. The ping sends the one-byte datagram 1; it succeeds on any answer and is the timeout
  error when there is none.
\<close>

theorem udp_ping_outcome:
  assumes "datagram_peer net answer queue" and "prompt net" and "queue w = []"
  shows "\<exists>w'. udp_ping net p w = Some (if answer [1] = None then Err (IoError TimedOut ''operation timed out'') else Ok (), w')"
  by (rule udp_ping_outcome_fact [OF assms])

lemma udp_ping_outcome_witness:
  "\<exists>w'. udp_ping (lab Some) (UdpPinger_new ''srv:5300'') (lab_start []) = Some (Ok (), w')"
  using udp_ping_outcome [OF lab_udp.datagram_peer_axioms [of Some] lab_prompt, of "lab_start []"] by simp

end
