(* ===== verification/Responders.thy ===== *)
theory Responders
  imports Ntp Dns Turn Level4
begin

text \<open>
  \<open>testserver/src/lib.rs\<close>, the UDP servers: echo, DNS, NTP, STUN and TURN. Each is a loop over one
  1024-byte buffer that \<open>recv_from\<close> overwrites at the front and the handler edits in place; the lemmas
  show that nothing of an earlier datagram gets into an answer, and that each pinger accepts the
  answers of its server.
\<close>

section \<open>Definitions\<close>

abbreviation SERVER_BUF_SIZE :: nat where "SERVER_BUF_SIZE \<equiv> 1024"

text \<open>What \<open>recv_from\<close> yields: an error, or a datagram and the address it came from.\<close>

datatype 'a recv_event = RecvError | Datagram 'a bytes

type_synonym responder = "bytes \<Rightarrow> bytes \<Rightarrow> bytes option \<times> bytes"

definition recv_into :: "bytes \<Rightarrow> bytes \<Rightarrow> nat \<times> bytes" where
  "recv_into buf d = (let cut = take SERVER_BUF_SIZE d in (length cut, copy_at 0 cut buf))"

text \<open>One round of each loop: the buffer and a datagram to the answer, if any, and the buffer.\<close>

definition udp_echo_step :: responder where
  "udp_echo_step buf d = (let (n, buf) = recv_into buf d in (Some (take n buf), buf))"

definition dns_step :: responder where
  "dns_step buf d =
     (let (n, buf) = recv_into buf d
      in if n \<ge> 12 then
           (let buf = buf[2 := buf ! 2 OR 0x80];
                buf = buf[3 := buf ! 3 AND 0xF0]
            in (Some (take n buf), buf))
         else (None, buf))"

definition ntp_step :: responder where
  "ntp_step buf d =
     (let (n, buf) = recv_into buf d
      in if n = 48 then
           (let version = drop_bit 3 (buf ! 0) AND 7;
                buf = buf[0 := push_bit 3 version OR 4];
                buf = buf[1 := 2]
            in (Some (take 48 buf), buf))
         else (None, buf))"

definition stun_step :: responder where
  "stun_step buf d =
     (let (n, buf) = recv_into buf d
      in if n \<ge> 20 then
           (let buf = buf[0 := 0x01, 1 := 0x01, 2 := 0x00, 3 := 0x00]
            in (Some (take 20 buf), buf))
         else (None, buf))"

definition turn_step :: responder where
  "turn_step buf d =
     (let (n, buf) = recv_into buf d
      in if n \<ge> 20 then
           (let resp = replicate 28 0;
                resp = resp[0 := 0x01, 1 := 0x13, 2 := 0x00, 3 := 0x08];
                resp = copy_at 4 (slice 4 20 buf) resp;
                resp = resp[20 := 0x00, 21 := 0x09, 22 := 0x00, 23 := 0x04];
                resp = resp[24 := 0x00, 25 := 0x00, 26 := 0x04, 27 := 0x01]
            in (Some resp, buf))
         else (None, buf))"

text \<open>The loop. The echo server goes on after a receive error, the others end.\<close>

fun serve :: "bool \<Rightarrow> responder \<Rightarrow> bytes \<Rightarrow> 'a recv_event list \<Rightarrow> ('a \<times> bytes) list" where
  "serve goes_on step buf [] = []"
| "serve goes_on step buf (RecvError # es) = (if goes_on then serve goes_on step buf es else [])"
| "serve goes_on step buf (Datagram src d # es) =
     (case step buf d of
        (Some r, buf) \<Rightarrow> (src, r) # serve goes_on step buf es
      | (None, buf) \<Rightarrow> serve goes_on step buf es)"

definition start_udp_echo :: "'a recv_event list \<Rightarrow> ('a \<times> bytes) list" where
  "start_udp_echo es = serve True udp_echo_step (replicate SERVER_BUF_SIZE 0) es"

definition start_dns_ok :: "'a recv_event list \<Rightarrow> ('a \<times> bytes) list" where
  "start_dns_ok es = serve False dns_step (replicate SERVER_BUF_SIZE 0) es"

definition start_ntp_ok :: "'a recv_event list \<Rightarrow> ('a \<times> bytes) list" where
  "start_ntp_ok es = serve False ntp_step (replicate SERVER_BUF_SIZE 0) es"

definition start_stun_ok :: "'a recv_event list \<Rightarrow> ('a \<times> bytes) list" where
  "start_stun_ok es = serve False stun_step (replicate SERVER_BUF_SIZE 0) es"

definition start_turn_ok :: "'a recv_event list \<Rightarrow> ('a \<times> bytes) list" where
  "start_turn_ok es = serve False turn_step (replicate SERVER_BUF_SIZE 0) es"

section \<open>Answers\<close>

text \<open>The answers as functions of the datagram alone.\<close>

definition echo_answer :: "bytes \<Rightarrow> bytes option" where
  "echo_answer d = Some (take 1024 d)"

definition dns_answer :: "bytes \<Rightarrow> bytes option" where
  "dns_answer d =
     (case take 1024 d of
        a # b # c # e # r \<Rightarrow> if length d < 12 then None else Some ([a, b, c OR 0x80, e AND 0xF0] @ r)
      | _ \<Rightarrow> None)"

definition ntp_answer :: "bytes \<Rightarrow> bytes option" where
  "ntp_answer d =
     (case d of
        a # b # r \<Rightarrow> if length d = 48 then Some ([push_bit 3 (drop_bit 3 a AND 7) OR 4, 2] @ r) else None
      | _ \<Rightarrow> None)"

definition stun_answer :: "bytes \<Rightarrow> bytes option" where
  "stun_answer d = (if length d < 20 then None else Some ([1, 1, 0, 0] @ slice 4 20 d))"

definition turn_answer :: "bytes \<Rightarrow> bytes option" where
  "turn_answer d = (if length d < 20 then None
     else Some ([1, 0x13, 0, 8] @ slice 4 20 d @ [0, 9, 0, 4, 0, 0, 4, 1]))"

text \<open>What a server that answers datagram by datagram sends.\<close>

definition answers_of :: "(bytes \<Rightarrow> bytes option) \<Rightarrow> 'a recv_event list \<Rightarrow> ('a \<times> bytes) list" where
  "answers_of answer es = concat (map (\<lambda>e. case e of RecvError \<Rightarrow> []
     | Datagram src d \<Rightarrow> (case answer d of None \<Rightarrow> [] | Some r \<Rightarrow> [(src, r)])) es)"

text \<open>
  A server whose loop keeps its buffer at its size and answers each datagram by a function of it.
\<close>

locale stateless =
  fixes step :: responder and answer :: "bytes \<Rightarrow> bytes option"
  assumes keeps: "length buf = 1024 \<Longrightarrow> length (snd (step buf d)) = 1024"
    and answers: "length buf = 1024 \<Longrightarrow> fst (step buf d) = answer d"
begin

lemma serve_answers:
  "length buf = 1024 \<Longrightarrow> serve goes_on step buf es =
     answers_of answer (if goes_on then es else takeWhile (\<lambda>e. e \<noteq> RecvError) es)"
proof (induction es arbitrary: buf)
  case (Cons e es)
  show ?case
  proof (cases e)
    case RecvError
    with Cons show ?thesis by (cases goes_on) (auto simp: answers_of_def)
  next
    case (Datagram src d)
    obtain r buf' where step: "step buf d = (r, buf')" by fastforce
    then have "length buf' = 1024" "r = answer d"
      using keeps [OF Cons.prems, of d] answers [OF Cons.prems, of d] by simp_all
    with step Cons.IH [of buf'] show ?thesis by (cases "answer d") (simp_all add: Datagram answers_of_def)
  qed
qed (simp add: answers_of_def)

end

lemma recv_into_split:
  assumes "length buf = 1024"
  obtains c rest where "recv_into buf d = (length c, c @ rest)" and "take 1024 d = c"
    and "length c + length rest = 1024" and "length c = min (length d) 1024"
proof (rule that [OF _ refl])
  show "recv_into buf d = (length (take 1024 d), take 1024 d @ drop (length (take 1024 d)) buf)"
    by (simp add: recv_into_def Let_def copy_at_0)
  show "length (take 1024 d) + length (drop (length (take 1024 d)) buf) = 1024"
    using assms by simp
qed simp

lemma four_bytes: "4 \<le> length c \<Longrightarrow> \<exists>a b x y r. c = a # b # x # y # r"
  by (auto simp: Suc_le_length_iff numeral_eq_Suc)

interpretation echo: stateless udp_echo_step echo_answer
proof
  fix buf d :: bytes
  assume "length buf = 1024"
  then obtain c rest where "recv_into buf d = (length c, c @ rest)" "take 1024 d = c" "length c + length rest = 1024"
    by (rule recv_into_split)
  then show "length (snd (udp_echo_step buf d)) = 1024" and "fst (udp_echo_step buf d) = echo_answer d"
    by (simp_all add: udp_echo_step_def echo_answer_def)
qed

interpretation dns: stateless dns_step dns_answer
proof
  fix buf d :: bytes
  assume "length buf = 1024"
  then obtain c rest where c: "recv_into buf d = (length c, c @ rest)" "take 1024 d = c" "length c + length rest = 1024"
      "length c = min (length d) 1024"
    by (rule recv_into_split)
  from c(1,3) show "length (snd (dns_step buf d)) = 1024" by (simp add: dns_step_def Let_def)
  show "fst (dns_step buf d) = dns_answer d"
  proof (cases "12 \<le> length d")
    case True
    then have 12: "12 \<le> length c" using c(4) by simp
    then obtain a b x y r where abc: "c = a # b # x # y # r" using four_bytes [of c] by auto
    have "fst (dns_step buf d) = Some (take (length c) ((c @ rest)[2 := (c @ rest) ! 2 OR 0x80, 3 := (c @ rest) ! 3 AND 0xF0]))"
      using 12 abc by (simp add: dns_step_def c(1) Let_def)
    also have "\<dots> = Some ([a, b, x OR 0x80, y AND 0xF0] @ r)" by (simp add: abc)
    finally show ?thesis using True by (simp add: dns_answer_def c(2) abc)
  next
    case False
    then have "\<not> 12 \<le> length c" using c(4) by simp
    then show ?thesis using False by (auto simp: dns_step_def c(1) dns_answer_def split: list.split)
  qed
qed

lemma update_two: "(a # b # xs)[0 := p, 1 := q] = p # q # xs"
  by simp

interpretation ntp: stateless ntp_step ntp_answer
proof
  fix buf d :: bytes
  assume "length buf = 1024"
  then obtain c rest where c: "recv_into buf d = (length c, c @ rest)" "take 1024 d = c" "length c + length rest = 1024"
      "length c = min (length d) 1024"
    by (rule recv_into_split)
  from c(1,3) show "length (snd (ntp_step buf d)) = 1024" by (simp add: ntp_step_def Let_def)
  show "fst (ntp_step buf d) = ntp_answer d"
  proof (cases "length d = 48")
    case True
    then have d: "c = d" "length c = 48" using c(2) by auto
    then obtain a b x y r where abc: "d = a # b # x # y # r" using four_bytes [of d] by auto
    have "fst (ntp_step buf d) = Some (take (length d) ((d @ rest)[0 := push_bit 3 (drop_bit 3 ((d @ rest) ! 0) AND 7) OR 4, 1 := 2]))"
      using d True by (simp add: ntp_step_def c(1) Let_def)
    also have "\<dots> = Some ([push_bit 3 (drop_bit 3 a AND 7) OR 4, 2] @ x # y # r)"
      unfolding abc append_Cons update_two nth_Cons_0 by simp
    finally show ?thesis using True by (simp add: ntp_answer_def abc)
  next
    case False
    then have "length c \<noteq> 48" using c(4) by simp
    then show ?thesis using False by (auto simp: ntp_step_def c(1) ntp_answer_def split: list.split)
  qed
qed

lemma twenty_bytes:
  assumes "20 \<le> length c"
  obtains a b x y m r where "c = [a, b, x, y] @ m @ r" and "length m = 16"
proof -
  obtain a b x y s where s: "c = a # b # x # y # s" using four_bytes [of c] assms by auto
  show thesis
    by (rule that [of a b x y "take 16 s" "drop 16 s"]) (use s assms in simp_all)
qed

lemma slice_request:
  assumes "take 1024 d = [a, b, x, y] @ m @ r" and "length m = 16"
  shows "slice 4 20 d = m"
proof -
  obtain s where "d = ([a, b, x, y] @ m @ r) @ s"
    using assms(1) append_take_drop_id [of 1024 d] by metis
  then show ?thesis using assms(2) by (simp add: slice_def)
qed

interpretation stun: stateless stun_step stun_answer
proof
  fix buf d :: bytes
  assume "length buf = 1024"
  then obtain c rest where c: "recv_into buf d = (length c, c @ rest)" "take 1024 d = c" "length c + length rest = 1024"
      "length c = min (length d) 1024"
    by (rule recv_into_split)
  from c(1,3) show "length (snd (stun_step buf d)) = 1024" by (simp add: stun_step_def Let_def)
  show "fst (stun_step buf d) = stun_answer d"
  proof (cases "20 \<le> length d")
    case True
    then have 20: "20 \<le> length c" using c(4) by simp
    obtain a b x y m r where m: "c = [a, b, x, y] @ m @ r" "length m = 16" using twenty_bytes [OF 20] .
    have "fst (stun_step buf d) = Some (take 20 ((c @ rest)[0 := 1, 1 := 1, 2 := 0, 3 := 0]))"
      using 20 by (simp add: stun_step_def c(1) Let_def)
    also have "\<dots> = Some ([1, 1, 0, 0] @ m)" by (simp add: m)
    finally show ?thesis using True slice_request [OF c(2) [unfolded m(1)] m(2)] by (simp add: stun_answer_def)
  next
    case False
    then have "\<not> 20 \<le> length c" using c(4) by simp
    then show ?thesis using False by (simp add: stun_step_def c(1) stun_answer_def)
  qed
qed

interpretation turn: stateless turn_step turn_answer
proof
  fix buf d :: bytes
  assume "length buf = 1024"
  then obtain c rest where c: "recv_into buf d = (length c, c @ rest)" "take 1024 d = c" "length c + length rest = 1024"
      "length c = min (length d) 1024"
    by (rule recv_into_split)
  from c(1,3) show "length (snd (turn_step buf d)) = 1024" by (simp add: turn_step_def Let_def)
  show "fst (turn_step buf d) = turn_answer d"
  proof (cases "20 \<le> length d")
    case True
    then have 20: "20 \<le> length c" using c(4) by simp
    obtain a b x y m r where m: "c = [a, b, x, y] @ m @ r" "length m = 16" using twenty_bytes [OF 20] .
    let ?hdr = "(replicate 28 0)[0 := 0x01, 1 := 0x13, 2 := 0x00, 3 := 0x08] :: bytes"
    have hdr: "?hdr = [1, 0x13, 0, 8] @ replicate 24 0" by (simp add: numeral_eq_Suc)
    have mid: "copy_at 4 m ([1, 0x13, 0, 8] @ replicate 24 0) = [1, 0x13, 0, 8] @ m @ replicate 8 0"
      using m(2) by (subst copy_at_end) simp_all
    have attr: "([1, 0x13, 0, 8] @ m @ replicate 8 0)[20 := 0, 21 := 9, 22 := 0, 23 := 4, 24 := 0, 25 := 0, 26 := 4, 27 := 1] =
        [1, 0x13, 0, 8] @ m @ [0, 9, 0, 4, 0, 0, 4, 1 :: u8]"
      using m(2) by (simp add: list_update_append) (simp add: numeral_eq_Suc)
    have "slice 4 20 (c @ rest) = m" using m by (simp add: slice_def)
    then have "fst (turn_step buf d) = Some ([1, 0x13, 0, 8] @ m @ [0, 9, 0, 4, 0, 0, 4, 1])"
      using 20 unfolding turn_step_def c(1) Let_def case_prod_conv by (simp only: hdr mid attr if_True fst_conv)
    then show ?thesis
      using True slice_request [OF c(2) [unfolded m(1)] m(2)] by (simp add: turn_answer_def)
  next
    case False
    then have "\<not> 20 \<le> length c" using c(4) by simp
    then show ?thesis using False by (simp add: turn_step_def c(1) turn_answer_def)
  qed
qed


section \<open>Answers and requests\<close>

lemma dns_answer_accepted:
  assumes "length (question_of name ty) \<le> 500"
  shows "\<exists>r. dns_answer (query_for qid name ty) = Some r \<and> dns_reply qid (question_of name ty) r"
proof -
  let ?q = "question_of name ty"
  have "query_for qid name ty = be16 qid @ [1, 0] @ be16 1 @ replicate 6 0 @ ?q"
    by (simp add: query_for_split) (simp add: be16_def)
  moreover obtain a b where ab: "be16 qid = [a, b]" by (simp add: be16_def)
  ultimately have q: "query_for qid name ty = a # b # 1 # 0 # be16 1 @ replicate 6 0 @ ?q" by simp
  have "dns_answer (query_for qid name ty) = Some ([a, b, 1 OR 0x80, 0 AND 0xF0] @ be16 1 @ replicate 6 0 @ ?q)"
    using assms by (simp add: dns_answer_def q)
  moreover have "[1 OR 0x80, 0 AND 0xF0] = be16 0x8100" by (simp add: be16_def)
  ultimately have "dns_answer (query_for qid name ty) = Some (be16 qid @ be16 0x8100 @ be16 1 @ replicate 6 0 @ ?q @ [])"
    by (simp add: ab)
  moreover have "bit (0x8100 :: u16) 15 \<and> take_bit 4 (0x8100 :: u16) = 0" by (simp add: bit_numeral_simps)
  ultimately show ?thesis unfolding dns_reply_def by (metis length_replicate)
qed

lemma ntp_answer_accepted: "\<exists>r. ntp_answer ntp_build_request = Some r \<and> ntp_reply r"
proof -
  have req: "ntp_build_request = 0x23 # 0 # replicate 46 0"
    by (simp add: ntp_build_request_def Let_def numeral_eq_Suc)
  have "ntp_answer ntp_build_request = Some (0x24 # 2 # replicate 46 0)"
    unfolding ntp_answer_def req by simp
  then show ?thesis by (simp add: ntp_reply_def)
qed

lemma stun_answer_accepted:
  assumes "length txid = 12"
  shows "\<exists>r. stun_answer (be16 MSG_BINDING_REQUEST @ be16 0 @ be32 MAGIC_COOKIE @ txid) = Some r \<and>
    stun_message MSG_BINDING_SUCCESS txid r"
proof -
  have "stun_answer (be16 MSG_BINDING_REQUEST @ be16 0 @ be32 MAGIC_COOKIE @ txid) =
      Some (be16 MSG_BINDING_SUCCESS @ be16 0 @ be32 MAGIC_COOKIE @ txid @ [])"
    using assms by (simp add: stun_answer_def slice_def be16_def)
  then show ?thesis unfolding stun_message_def by blast
qed

lemma turn_answer_accepted:
  assumes "length txid = 12"
  shows "\<exists>r. turn_answer (allocate_request txid) = Some r \<and> turn_reply txid (take 255 r)"
proof -
  let ?attr = "[0, 9, 0, 4, 0, 0, 4, 1] :: bytes"
  have "turn_answer (allocate_request txid) = Some (be16 MSG_ALLOCATE_ERROR @ be16 8 @ be32 MAGIC_COOKIE @ txid @ ?attr)"
    using assms by (simp add: turn_answer_def allocate_request_def slice_def be16_def)
  moreover have "carries_error ?attr [0, 0, 4, 1]"
    unfolding carries_error_def by (intro conjI exI [of _ "[]"]) (simp_all add: be16_def)
  moreover have "unauthorized [0, 0, 4, 1]" by (simp add: unauthorized_def)
  moreover have "take 255 (be16 MSG_ALLOCATE_ERROR @ be16 8 @ be32 MAGIC_COOKIE @ txid @ ?attr) =
      be16 MSG_ALLOCATE_ERROR @ be16 8 @ be32 MAGIC_COOKIE @ txid @ ?attr"
    using assms by simp
  ultimately show ?thesis unfolding turn_reply_def by metis
qed

section \<open>Properties\<close>

text \<open>
  UDP test servers. On every sequence of datagrams and receive errors each server sends, in order
  and to the sender, the answer that the datagram alone determines: whatever an earlier datagram left
  in the shared buffer is in no later answer. The echo server goes on after an error, the others stop.
\<close>

theorem servers_keep_no_state:
  "start_udp_echo es = answers_of echo_answer es \<and>
   (let live = takeWhile (\<lambda>e. e \<noteq> RecvError) es
    in start_dns_ok es = answers_of dns_answer live \<and> start_ntp_ok es = answers_of ntp_answer live \<and>
       start_stun_ok es = answers_of stun_answer live \<and> start_turn_ok es = answers_of turn_answer live)"
  unfolding start_udp_echo_def start_dns_ok_def start_ntp_ok_def start_stun_ok_def start_turn_ok_def Let_def
  by (simp add: echo.serve_answers dns.serve_answers ntp.serve_answers stun.serve_answers turn.serve_answers)

text \<open>
  What a started server sends back for a datagram that comes after the events \<open>es\<close>: the first thing sent
  that was not sent for \<open>es\<close> alone.
\<close>

definition reply_after :: "(unit recv_event list \<Rightarrow> (unit \<times> bytes) list) \<Rightarrow> unit recv_event list \<Rightarrow> bytes \<Rightarrow> bytes option" where
  "reply_after server es d =
     (case drop (length (server es)) (server (es @ [Datagram () d])) of [] \<Rightarrow> None | (_, r) # _ \<Rightarrow> Some r)"

lemma answers_of_append: "answers_of answer (es @ fs) = answers_of answer es @ answers_of answer fs"
  by (simp add: answers_of_def)

lemma reply_after_answers:
  assumes "server es = answers_of answer es" and "server (es @ [Datagram () d]) = answers_of answer (es @ [Datagram () d])"
  shows "reply_after server es d = answer d"
  by (cases "answer d") (simp_all add: reply_after_def assms answers_of_append, simp_all add: answers_of_def)

lemma live_events: "RecvError \<notin> set es \<Longrightarrow> takeWhile (\<lambda>e. e \<noteq> RecvError) es = es"
  by (simp add: takeWhile_eq_all_conv) metis

lemma replies:
  "reply_after start_udp_echo es = echo_answer"
  "RecvError \<notin> set es \<Longrightarrow> reply_after start_dns_ok es = dns_answer"
  "RecvError \<notin> set es \<Longrightarrow> reply_after start_ntp_ok es = ntp_answer"
  "RecvError \<notin> set es \<Longrightarrow> reply_after start_stun_ok es = stun_answer"
  "RecvError \<notin> set es \<Longrightarrow> reply_after start_turn_ok es = turn_answer"
proof -
  have live: "takeWhile (\<lambda>e. e \<noteq> RecvError) (es @ [Datagram () d]) = es @ [Datagram () d]" if "RecvError \<notin> set es" for d
    using that by (intro live_events) simp
  note run = servers_keep_no_state [unfolded Let_def]
  show "reply_after start_udp_echo es = echo_answer"
    by (rule ext, rule reply_after_answers) (simp_all add: run)
  show "reply_after start_dns_ok es = dns_answer" "reply_after start_ntp_ok es = ntp_answer"
    "reply_after start_stun_ok es = stun_answer" "reply_after start_turn_ok es = turn_answer" if "RecvError \<notin> set es"
    by (rule ext, rule reply_after_answers; simp add: run live [OF that] live_events [OF that])+
qed

text \<open>
  C21. Datagram pingers against their servers. On any network that carries a pinger's datagram to its test
  server as started by \<open>start_*\<close>, after whatever datagrams that server has already received and answered from
  the same buffer, and carries the server's reply back: the NTP, STUN and TURN pings of a target with a
  host succeed, the DNS ping of every name it can encode succeeds, and so does the UDP ping, whose server
  may have met receive errors too.
\<close>

theorem datagram_pings_meet_servers:
  assumes "\<And>answer. datagram_peer (net answer) answer queue" and "\<And>answer. prompt (net answer)" and "queue w = []"
    and "RecvError \<notin> set es"
    and "ntp_server_endpoint (net_regex (net (reply_after start_ntp_ok es))) (ntp_server n) = Ok a"
    and "stun_server_endpoint STUN_DEFAULT_PORT (net_regex (net (reply_after start_stun_ok es))) (stun_server s) = Ok b"
    and "stun_server_endpoint TURN_DEFAULT_PORT (net_regex (net (reply_after start_turn_ok es))) (turn_server t) = Ok c"
    and "dns_server_endpoint (net_regex (net (reply_after start_dns_ok es))) (dns_server d) = Ok e"
    and "build_query (random_id (system_time (net (reply_after start_dns_ok es)) w)) (dns_query d) (RecordType_code (dns_record_type d)) = Ok request"
  shows "(\<exists>w'. ntp_ping (net (reply_after start_ntp_ok es)) n w = Some (Ok (), w')) \<and>
    (\<exists>w'. stun_ping (net (reply_after start_stun_ok es)) s w = Some (Ok (), w')) \<and>
    (\<exists>w'. turn_ping (net (reply_after start_turn_ok es)) t w = Some (Ok (), w')) \<and>
    (\<exists>w'. dns_ping (net (reply_after start_dns_ok es)) d w = Some (Ok (), w')) \<and>
    (\<exists>w'. udp_ping (net (reply_after start_udp_echo fs)) u w = Some (Ok (), w'))"
proof (intro conjI)
  note r = replies(2-5) [OF assms(4)]
  show "\<exists>w'. ntp_ping (net (reply_after start_ntp_ok es)) n w = Some (Ok (), w')"
    using ntp_ping_outcome_fact [OF assms(1,2,3,5)] ntp_answer_accepted unfolding r by metis
  show "\<exists>w'. stun_ping (net (reply_after start_stun_ok es)) s w = Some (Ok (), w')"
    using stun_ping_outcome_fact [OF assms(1,2,3,6)] stun_answer_accepted unfolding r by metis
  show "\<exists>w'. turn_ping (net (reply_after start_turn_ok es)) t w = Some (Ok (), w')"
    using turn_ping_outcome_fact [OF assms(1,2,3,7)] turn_answer_accepted unfolding r by metis
  show "\<exists>w'. udp_ping (net (reply_after start_udp_echo fs)) u w = Some (Ok (), w')"
    using udp_ping_outcome_fact [OF assms(1,2,3), of echo_answer u] by (simp add: replies echo_answer_def)
  let ?id = "random_id (system_time (net dns_answer) w)" and ?ty = "RecordType_code (dns_record_type d)"
  have req: "request = query_for ?id (dns_query d) ?ty"
    and small: "length (trim_end_matches (CHR ''.'') (dns_query d)) \<le> 253"
    using assms(9) unfolding r by (auto simp: build_query_Ok_iff)
  have "length (question_of (dns_query d) ?ty) \<le> 500"
    using small length_question [of "dns_query d" ?ty] by simp
  from dns_answer_accepted [OF this, of ?id]
  obtain x where "dns_answer request = Some x" "dns_reply ?id (drop 12 request) x"
    unfolding req drop_query by blast
  then show "\<exists>w'. dns_ping (net (reply_after start_dns_ok es)) d w = Some (Ok (), w')"
    using dns_ping_outcome_fact [OF assms(1,2,3,8,9)] unfolding r by metis
qed

lemma datagram_pings_meet_servers_witness:
  "(\<exists>w'. ntp_ping (lab (reply_after start_ntp_ok [Datagram () [7, 7]])) (NtpPinger_new ''srv:5300'') (lab_start []) = Some (Ok (), w')) \<and>
   (\<exists>w'. dns_ping (lab (reply_after start_dns_ok [Datagram () [7, 7]])) (DnsPinger_new ''srv:5300'' ''a.b'') (lab_start []) = Some (Ok (), w'))"
proof -
  let ?es = "[Datagram () [7, 7]] :: unit recv_event list"
  have 1: "ntp_server_endpoint (net_regex (lab a)) (ntp_server (NtpPinger_new ''srv:5300'')) = Ok ''srv:5300''" for a
    by (simp add: ntp_server_endpoint_def NtpPinger_new_def default_uri_def)
  have 2: "stun_server_endpoint STUN_DEFAULT_PORT (net_regex (lab a)) (stun_server (StunPinger_new ''srv:5300'')) = Ok ''srv:5300''" for a
    by (simp add: stun_server_endpoint_def StunPinger_new_def default_uri_def)
  have 3: "stun_server_endpoint TURN_DEFAULT_PORT (net_regex (lab a)) (turn_server (TurnPinger_new ''srv:5300'')) = Ok ''srv:5300''" for a
    by (simp add: stun_server_endpoint_def TurnPinger_new_def default_uri_def)
  have 4: "dns_server_endpoint (net_regex (lab a)) (dns_server (DnsPinger_new ''srv:5300'' ''a.b'')) = Ok ''srv:5300''" for a
    by (simp add: dns_server_endpoint_def DnsPinger_new_def default_uri_def)
  have 5: "build_query (random_id (system_time (lab a) (lab_start []))) (dns_query (DnsPinger_new ''srv:5300'' ''a.b''))
      (RecordType_code (dns_record_type (DnsPinger_new ''srv:5300'' ''a.b''))) =
      Ok (query_for (random_id (system_time (lab a) (lab_start []))) ''a.b'' 1)" for a
    by (simp add: build_query_Ok_iff DnsPinger_new_def dns_labels_def trim_end_matches_def)
  show ?thesis
    using datagram_pings_meet_servers [OF lab_udp.datagram_peer_axioms lab_prompt _ _ 1 2 3 4 5, of ?es] by simp
qed

end
