(* ===== verification/Hls.thy ===== *)
theory Hls
  imports Lab
begin

text \<open>
  \<open>zpinger/src/hls.rs\<close>: the playlist scanners, the resolution of relative references, the minimal
  HTTP fetcher and the ping, which makes two or three requests on connections of their own.
\<close>

section \<open>Playlists and references\<close>

record 'c HlsPinger =
  hls_url :: string
  hls_timeout :: duration
  hls_tls_config :: "'c option"

definition HlsPinger_new :: "string \<Rightarrow> 'c HlsPinger" where
  "HlsPinger_new url = \<lparr>hls_url = url, hls_timeout = from_secs 5, hls_tls_config = None\<rparr>"

definition HlsPinger_with_timeout :: "'c HlsPinger \<Rightarrow> duration \<Rightarrow> 'c HlsPinger" where
  "HlsPinger_with_timeout self t = self\<lparr>hls_timeout := t\<rparr>"

definition HlsPinger_with_tls_config :: "'c HlsPinger \<Rightarrow> 'c \<Rightarrow> 'c HlsPinger" where
  "HlsPinger_with_tls_config self config = self\<lparr>hls_tls_config := Some config\<rparr>"

text \<open>
  The inner \<open>for\<close> over \<open>iter.by_ref()\<close>: the first line, trimmed, that is neither empty nor a comment.
  When there is none the iterator is used up, so the outer loop ends as well.
\<close>

fun next_url :: "string list \<Rightarrow> string option" where
  "next_url [] = None"
| "next_url (line # rest) =
     (let next = trim line in if next \<noteq> [] \<and> \<not> starts_with ''#'' next then Some next else next_url rest)"

fun url_after :: "string \<Rightarrow> string list \<Rightarrow> string option" where
  "url_after tag [] = None"
| "url_after tag (line # rest) =
     (if starts_with tag (trim_start line) then next_url rest else url_after tag rest)"

definition first_variant_url :: "string \<Rightarrow> string option" where
  "first_variant_url playlist = url_after ''#EXT-X-STREAM-INF'' (lines playlist)"

definition first_segment_url :: "string \<Rightarrow> string option" where
  "first_segment_url playlist = url_after ''#EXTINF'' (lines playlist)"

definition resolve_relative :: "engine \<Rightarrow> string \<Rightarrow> string \<Rightarrow> string result" where
  "resolve_relative rx base reference =
     (if starts_with ''http://'' reference \<or> starts_with ''https://'' reference then Ok reference
      else bind_r (get_uri rx base) (\<lambda>uri.
        let scheme = (if uri_scheme uri = [] then ''http'' else uri_scheme uri)
        in if uri_host uri = [] then err_invalid ''cannot resolve relative URL: base has no host''
           else (case strip_prefix ''/'' reference of
             Some rest \<Rightarrow> Ok (scheme @ ''://'' @ uri_host uri @ ''/'' @ rest)
           | None \<Rightarrow>
               (let dir = (case rsplit_once (CHR ''/'') (uri_path uri) of Some (d, _) \<Rightarrow> d | None \<Rightarrow> [])
                in if dir = [] then Ok (scheme @ ''://'' @ uri_host uri @ ''/'' @ reference)
                   else Ok (scheme @ ''://'' @ uri_host uri @ dir @ ''/'' @ reference)))))"

section \<open>The fetcher\<close>

definition hls_endpoint_for :: "URI \<Rightarrow> u16 \<Rightarrow> string result" where
  "hls_endpoint_for uri default_port =
     (if uri_domain uri = [] then err_invalid ''missing host in URL''
      else
        (let port = (if 0 < uri_port uri then as_u16 (uri_port uri) else default_port)
         in Ok (uri_domain uri @ '':'' @ dec (unat port))))"

definition build_get :: "URI \<Rightarrow> string \<Rightarrow> string option \<Rightarrow> string" where
  "build_get uri host_header rng =
     (let path = (if uri_path uri = [] then ''/'' else uri_path uri);
          req = ''GET '' @ path @ '' HTTP/1.1'' @ crlf @
            ''Host: '' @ host_header @ crlf @
            ''User-Agent: Knock Knock'' @ crlf @
            ''Accept: */*'' @ crlf @
            ''Connection: close'' @ crlf;
          req = (case rng of Some r \<Rightarrow> req @ ''Range: '' @ r @ crlf | None \<Rightarrow> req)
      in req @ crlf)"

partial_function (option) read_to_end :: "('w, 'h, 'z) stream_io_scheme \<Rightarrow> 'h \<Rightarrow> bytes \<Rightarrow> ('w, bytes) io" where
  "read_to_end io h buf w =
     io_bind (st_read io h 4096) (\<lambda>chunk w.
       if length chunk = 0 then io_ok buf w else read_to_end io h (buf @ chunk) w) w"

text \<open>What follows the loop: the header, the status, the body.\<close>

definition response_body :: "bytes \<Rightarrow> bytes result" where
  "response_body buf =
     (case find_sub (bytes_of (crlf @ crlf)) buf of
        None \<Rightarrow> err_other ''response missing header/body separator''
      | Some split \<Rightarrow>
          (case from_utf8 (take split buf) of
             Inl _ \<Rightarrow> err_other ''response headers are not valid UTF-8''
           | Inr header \<Rightarrow>
               (let status_line = (case lines header of [] \<Rightarrow> [] | l # _ \<Rightarrow> l)
                in if \<not> starts_with ''HTTP/'' status_line
                   then err_other ''response is not HTTP/1.x (wrong port or protocol?)''
                   else if \<not> contains '' 200 '' status_line \<and> \<not> contains '' 206 '' status_line
                   then err_other (''unexpected HTTP status: '' @ status_line)
                   else Ok (drop (split + 4) buf))))"

definition fetch_response_body :: "('w, 'h, 'z) stream_io_scheme \<Rightarrow> 'h \<Rightarrow> string \<Rightarrow> ('w, bytes) io" where
  "fetch_response_body io stream request =
     io_bind (st_write_all io stream (bytes_of request)) (\<lambda>_.
     io_bind (read_to_end io stream []) (\<lambda>buf.
     io_lift (response_body buf)))"

definition fetch_plain :: "('w, 'h, 'c) net \<Rightarrow> URI \<Rightarrow> string option \<Rightarrow> ('w, bytes) io" where
  "fetch_plain net uri rng =
     io_bind (io_lift (hls_endpoint_for uri 80)) (\<lambda>endpoint.
       let request = build_get uri endpoint rng
       in io_bind (tcp_connect net endpoint) (\<lambda>stream.
          fetch_response_body net stream request))"

definition fetch_tls :: "('w, 'h, 'c) net \<Rightarrow> URI \<Rightarrow> 'c option \<Rightarrow> string option \<Rightarrow> ('w, bytes) io" where
  "fetch_tls net uri tls_config rng =
     io_bind (io_lift (hls_endpoint_for uri 443)) (\<lambda>endpoint.
       case server_name_error net (uri_domain uri) of
         Some e \<Rightarrow> io_err (IoError InvalidInput e)
       | None \<Rightarrow>
           (let config = (case tls_config of Some c \<Rightarrow> c | None \<Rightarrow> default_client_config net);
                request = build_get uri endpoint rng
            in io_bind (tcp_connect net endpoint) (\<lambda>tcp.
               io_bind (tls_connect net config (uri_domain uri) tcp) (\<lambda>stream.
               fetch_response_body net stream request))))"

definition http_get_with_range :: "('w, 'h, 'c) net \<Rightarrow> string \<Rightarrow> 'c option \<Rightarrow> string option \<Rightarrow> ('w, bytes) io" where
  "http_get_with_range net url tls_config rng =
     io_bind (io_lift (get_uri (net_regex net) url)) (\<lambda>uri.
       let scheme = to_ascii_lowercase (uri_scheme uri)
       in if scheme = '''' \<or> scheme = ''http'' then fetch_plain net uri rng
          else if scheme = ''https'' then fetch_tls net uri tls_config rng
          else io_err (IoError Other (''scheme '' @ [CHR 0x27] @ scheme @ [CHR 0x27]
                 @ '' is not supported by HlsPinger (use http:// or https://)'')))"

definition http_get :: "('w, 'h, 'c) net \<Rightarrow> string \<Rightarrow> 'c option \<Rightarrow> ('w, bytes) io" where
  "http_get net url tls_config = http_get_with_range net url tls_config None"

section \<open>The ping\<close>

definition utf8_or :: "string \<Rightarrow> bytes \<Rightarrow> string result" where
  "utf8_or what body =
     (case from_utf8 body of
        Inl e \<Rightarrow> Err (IoError InvalidData (what @ '' is not valid UTF-8: '' @ show_utf8_error e))
      | Inr s \<Rightarrow> Ok s)"

definition hls_ping :: "('w, 'h, 'c) net \<Rightarrow> 'c HlsPinger \<Rightarrow> ('w, unit) io" where
  "hls_ping net self =
     (let url = hls_url self; tls_config = hls_tls_config self
      in with_timeout net (hls_timeout self)
        (io_bind (http_get net url tls_config) (\<lambda>body.
         io_bind (io_lift (utf8_or ''playlist'' body)) (\<lambda>playlist.
         if \<not> starts_with ''#EXTM3U'' (case lines playlist of [] \<Rightarrow> [] | l # _ \<Rightarrow> l)
         then io_err (IoError InvalidData ''response is not an M3U8 playlist (missing #EXTM3U header)'')
         else
           io_bind
             (case first_variant_url playlist of
                Some variant \<Rightarrow>
                  io_bind (io_lift (resolve_relative (net_regex net) url variant)) (\<lambda>resolved.
                  io_bind (http_get net resolved tls_config) (\<lambda>variant_body.
                  io_bind (io_lift (utf8_or ''variant playlist'' variant_body)) (\<lambda>variant_text.
                  io_ok (resolved, variant_text))))
              | None \<Rightarrow> io_ok (url, playlist))
             (\<lambda>(media_url, media_text).
           io_bind (case first_segment_url media_text of
                      Some s \<Rightarrow> io_ok s
                    | None \<Rightarrow> io_err (IoError InvalidData ''no segments in media playlist'')) (\<lambda>segment.
           io_bind (io_lift (resolve_relative (net_regex net) media_url segment)) (\<lambda>segment_url.
           io_bind (http_get_with_range net segment_url tls_config (Some ''bytes=0-0'')) (\<lambda>_.
           io_ok ()))))))))"

section \<open>Playlists\<close>

lemma split_char_append: "c \<notin> set l \<Longrightarrow> split_char c (l @ c # s) = l # split_char c s"
  by (induction l) auto

lemma split_char_unlines:
  "list_all (\<lambda>l. c \<notin> set l) ls \<Longrightarrow> split_char c (concat (map (\<lambda>l. l @ [c]) ls)) = ls @ [[]]"
  by (induction ls) (simp_all add: split_char_append)

text \<open>Text with either line end reads back as its lines.\<close>

lemma lines_unlines:
  assumes "list_all (\<lambda>l. CHR 0x0A \<notin> set l) ls"
    and "eol = [CHR 0x0A] \<and> list_all (\<lambda>l. l = [] \<or> last l \<noteq> CHR 0x0D) ls \<or> eol = crlf"
  shows "lines (concat (map (\<lambda>l. l @ eol) ls)) = ls"
proof (cases "eol = crlf")
  case False
  then have eol: "eol = [CHR 0x0A]" "list_all (\<lambda>l. l = [] \<or> last l \<noteq> CHR 0x0D) ls" using assms(2) by auto
  then have "map strip_cr ls = ls"
    by (intro map_idI) (auto simp: strip_cr_def list_all_iff)
  then show ?thesis
    unfolding lines_def eol(1) split_char_unlines [OF assms(1)] Let_def by simp
next
  case True
  have cr: "concat (map (\<lambda>l. l @ eol) ls) = concat (map (\<lambda>l. l @ [CHR 0x0A]) (map (\<lambda>l. l @ [CHR 0x0D]) ls))"
    by (simp add: True o_def)
  have nl: "list_all (\<lambda>l. CHR 0x0A \<notin> set l) (map (\<lambda>l. l @ [CHR 0x0D]) ls)"
    using assms(1) by (auto simp: list_all_iff)
  have "map strip_cr (map (\<lambda>l. l @ [CHR 0x0D]) ls) = ls"
    by (simp add: strip_cr_def o_def)
  then show ?thesis
    unfolding lines_def cr Let_def split_char_unlines [OF nl] by simp
qed

lemma next_url_find: "next_url ls = List.find (\<lambda>l. l \<noteq> [] \<and> \<not> starts_with ''#'' l) (map trim ls)"
  by (induction ls) (simp_all add: Let_def)

lemma url_after_find:
  "url_after tag ls = next_url (tl (dropWhile (\<lambda>l. \<not> starts_with tag (trim_start l)) ls))"
  by (induction ls) simp_all

text \<open>
  HLS playlists. On a playlist made of lines with either line end, the first segment is the first
  line after the first EXTINF tag that, trimmed, is neither empty nor a comment, and the first
  variant likewise after the first STREAM-INF tag; there is none exactly when there is no such line.
\<close>

theorem first_url_of_lines:
  assumes "list_all (\<lambda>l. CHR 0x0A \<notin> set l) ls"
    and "eol = [CHR 0x0A] \<and> list_all (\<lambda>l. l = [] \<or> last l \<noteq> CHR 0x0D) ls \<or> eol = crlf"
  shows "first_segment_url (concat (map (\<lambda>l. l @ eol) ls)) =
      List.find (\<lambda>l. l \<noteq> [] \<and> \<not> starts_with ''#'' l)
        (map trim (tl (dropWhile (\<lambda>l. \<not> starts_with ''#EXTINF'' (trim_start l)) ls))) \<and>
    first_variant_url (concat (map (\<lambda>l. l @ eol) ls)) =
      List.find (\<lambda>l. l \<noteq> [] \<and> \<not> starts_with ''#'' l)
        (map trim (tl (dropWhile (\<lambda>l. \<not> starts_with ''#EXT-X-STREAM-INF'' (trim_start l)) ls)))"
  using lines_unlines [OF assms]
  by (simp only: first_segment_url_def first_variant_url_def url_after_find next_url_find)

lemma first_url_of_lines_witness:
  "first_segment_url (''#EXTINF:10'' @ crlf @ ''#c'' @ crlf @ ''s.ts'' @ crlf) = Some ''s.ts''"
proof -
  let ?ls = "[''#EXTINF:10'', ''#c'', ''s.ts'']"
  have "List.find (\<lambda>l. l \<noteq> [] \<and> \<not> starts_with ''#'' l)
        (map trim (tl (dropWhile (\<lambda>l. \<not> starts_with ''#EXTINF'' (trim_start l)) ?ls))) = Some ''s.ts''"
    by (simp add: trim_id trim_start_id graphic_def)
  then show ?thesis using first_url_of_lines [of ?ls crlf] by simp
qed

section \<open>Responses\<close>

text \<open>The loop collects everything up to the end of the stream; \<open>keep\<close> is what reading leaves alone.\<close>

lemma read_to_end_run:
  assumes "\<And>n w. 0 < n \<Longrightarrow> \<exists>bs w'. st_read io h n w = Some (Ok bs, w') \<and> incoming w = bs @ incoming w' \<and>
      (bs = [] \<longrightarrow> incoming w = []) \<and> keep w' = keep w"
  shows "\<exists>w'. read_to_end io h buf w = Some (Ok (buf @ incoming w), w') \<and> keep w' = keep w"
proof (induction "length (incoming w)" arbitrary: w buf rule: less_induct)
  case less
  obtain bs w1 where 1: "st_read io h 4096 w = Some (Ok bs, w1)" "incoming w = bs @ incoming w1"
      "bs = [] \<Longrightarrow> incoming w = []" "keep w1 = keep w"
    using assms [of 4096 w] by auto
  show ?case
  proof (cases "bs = []")
    case True
    then show ?thesis
      using 1 by (intro exI [of _ w1]) (subst read_to_end.simps, simp add: io_bind_def)
  next
    case False
    then have "length (incoming w1) < length (incoming w)" using 1(2) by simp
    then obtain w' where w': "read_to_end io h (buf @ bs) w1 = Some (Ok ((buf @ bs) @ incoming w1), w')" "keep w' = keep w1"
      using less by blast
    have "read_to_end io h buf w = read_to_end io h (buf @ bs) w1"
      using False 1(1) by (subst read_to_end.simps) (simp add: io_bind_def)
    with w' 1 show ?thesis by auto
  qed
qed

lemma read_some_keep:
  assumes "byte_stream io h incoming outgoing" and "0 < n"
  shows "\<exists>bs w'. st_read io h n w = Some (Ok bs, w') \<and> incoming w = bs @ incoming w' \<and>
      (bs = [] \<longrightarrow> incoming w = []) \<and> outgoing w' = outgoing w"
  using byte_stream.read_some [OF assms, of w] by blast

text \<open>
  HLS fetch. Over any stream the fetcher writes exactly the request, reads to the end, however the
  network cuts the bytes, and its result is a function of all the bytes received.
\<close>

theorem fetch_whole_response:
  assumes "byte_stream io h incoming outgoing"
  shows "\<exists>w'. fetch_response_body io h request w = Some (response_body (incoming w), w') \<and>
    outgoing w' = outgoing w @ bytes_of request"
proof -
  obtain w1 where 1: "st_write_all io h (bytes_of request) w = Some (Ok (), w1)" "incoming w1 = incoming w"
      "outgoing w1 = outgoing w @ bytes_of request"
    using byte_stream.write_ok [OF assms, of "bytes_of request" w] by blast
  obtain w2 where 2: "read_to_end io h [] w1 = Some (Ok (incoming w1), w2)" "outgoing w2 = outgoing w1"
    using read_to_end_run [where keep = outgoing, OF read_some_keep [OF assms], of "[]" w1] by auto
  show ?thesis
    by (rule exI [of _ w2]) (simp add: fetch_response_body_def io_bind_def 1 2)
qed

lemma fetch_whole_response_witness:
  "\<exists>w'. fetch_response_body script_io () ''GET'' \<lparr>chunks = [[1], [], [2]], sent = []\<rparr> = Some (response_body [1, 2], w') \<and>
     sent w' = bytes_of ''GET''"
  using fetch_whole_response [OF scripted.byte_stream_axioms, of "''GET''" "\<lparr>chunks = [[1], [], [2]], sent = []\<rparr>"] by simp

text \<open>The separator is found at the first empty line of a header block.\<close>

lemma find_sub_skip: "c \<notin> set l \<Longrightarrow> find_sub (c # p) (l @ s) = map_option (\<lambda>i. length l + i) (find_sub (c # p) s)"
  by (induction l; cases "find_sub (c # p) s") auto

definition head_bytes :: "bytes \<Rightarrow> bytes list \<Rightarrow> bytes" where
  "head_bytes status headers = status @ concat (map (\<lambda>h. 13 # 10 # h) headers)"

lemma find_sub_head:
  assumes "13 \<notin> set status" and "list_all (\<lambda>h. h \<noteq> [] \<and> 13 \<notin> set h) headers"
  shows "find_sub [13, 10, 13, 10] (head_bytes status headers @ [13, 10, 13, 10] @ body) = Some (length (head_bytes status headers))"
  using assms
proof (induction headers arbitrary: status)
  case Nil
  then show ?case by (simp add: head_bytes_def find_sub_skip starts_with_def)
next
  case (Cons h hs)
  then have IH: "find_sub [13, 10, 13, 10] (head_bytes h hs @ [13, 10, 13, 10] @ body) = Some (length (head_bytes h hs))"
    by simp
  obtain a l where h: "h = a # l" "a \<noteq> 13" using Cons.prems by (cases h) auto
  have eq: "head_bytes status (h # hs) = status @ 13 # 10 # head_bytes h hs" by (simp add: head_bytes_def)
  have "\<not> starts_with [13, 10, 13, 10] (13 # 10 # head_bytes h hs @ x)" for x :: bytes
    using h by (simp add: head_bytes_def)
  then show ?case
    using Cons.prems(1) IH unfolding eq by (simp add: find_sub_skip starts_with_def)
qed

definition head_text :: "string \<Rightarrow> string list \<Rightarrow> string" where
  "head_text status headers = status @ concat (map (\<lambda>h. crlf @ h) headers)"

lemma bytes_of_head: "bytes_of (head_text status headers) = head_bytes (bytes_of status) (map bytes_of headers)"
  by (induction headers) (simp_all add: head_text_def head_bytes_def)

lemma no_cr:
  assumes "CHR 0x0D \<notin> set s"
  shows "13 \<notin> set (bytes_of s)"
proof
  assume "13 \<in> set (bytes_of s)"
  then obtain c where c: "c \<in> set s" "(of_char c :: u8) = 13" unfolding bytes_of_def by force
  have "(of_char (CHR 0x0D) :: u8) = 13" by simp
  with c(2) have "c = CHR 0x0D" using of_char_inj8 [of c "CHR 0x0D"] by metis
  with c(1) assms show False by blast
qed

text \<open>The status line is the first line of the header block.\<close>

lemma head_first_line:
  assumes "CHR 0x0A \<notin> set status" and "CHR 0x0D \<notin> set status" and "status \<noteq> []"
  shows "(case lines (head_text status headers) of [] \<Rightarrow> [] | l # _ \<Rightarrow> l) = status"
proof (cases headers)
  case Nil
  have "split_char (CHR 0x0A) status = [status]"
    using assms(1) by (induction status) auto
  then show ?thesis using Nil assms(3) by (simp add: head_text_def lines_def Let_def)
next
  case (Cons h hs)
  have "split_char (CHR 0x0A) (head_text status headers) =
      (status @ [CHR 0x0D]) # split_char (CHR 0x0A) (head_text h hs)"
    using split_char_append [of "CHR 0x0A" "status @ [CHR 0x0D]" "head_text h hs"] assms(1)
    by (simp add: head_text_def Cons)
  then show ?thesis by (simp add: lines_def Let_def strip_cr_def)
qed

lemma response_body_spec_fact:
  assumes "list_all (\<lambda>l. ascii l \<and> l \<noteq> [] \<and> CHR 0x0D \<notin> set l \<and> CHR 0x0A \<notin> set l) (status # headers)"
  shows "response_body (bytes_of (status @ concat (map (\<lambda>h. crlf @ h) headers) @ crlf @ crlf) @ body) =
    (if \<not> starts_with ''HTTP/'' status then err_other ''response is not HTTP/1.x (wrong port or protocol?)''
     else if contains '' 200 '' status \<or> contains '' 206 '' status then Ok body
     else err_other (''unexpected HTTP status: '' @ status))"
proof -
  let ?h = "head_text status headers"
  have "list_all (\<lambda>h. h \<noteq> [] \<and> 13 \<notin> set h) (map bytes_of headers)"
    using assms no_cr by (auto simp: list_all_iff)
  then have "find_sub [13, 10, 13, 10] (bytes_of ?h @ [13, 10, 13, 10] @ body) = Some (length ?h)"
    using find_sub_head [of "bytes_of status" "map bytes_of headers" body] assms no_cr [of status]
    by (simp add: bytes_of_head [symmetric])
  then have sub: "find_sub (bytes_of (crlf @ crlf)) (bytes_of (?h @ crlf @ crlf) @ body) = Some (length ?h)" by simp
  have "ascii ?h" using assms by (auto simp: head_text_def ascii_iff list_all_iff)
  then have utf8: "from_utf8 (bytes_of ?h) = Inr ?h" by (simp add: from_utf8_ascii ascii_bytes_of)
  have tk: "take (length ?h) (bytes_of (?h @ crlf @ crlf) @ body) = bytes_of ?h"
    and dr: "drop (length ?h + 4) (bytes_of (?h @ crlf @ crlf) @ body) = body" by simp_all
  have line: "(case lines ?h of [] \<Rightarrow> [] | l # _ \<Rightarrow> l) = status"
    using assms by (intro head_first_line) auto
  have "response_body (bytes_of (?h @ crlf @ crlf) @ body) =
    (if \<not> starts_with ''HTTP/'' status then err_other ''response is not HTTP/1.x (wrong port or protocol?)''
     else if contains '' 200 '' status \<or> contains '' 206 '' status then Ok body
     else err_other (''unexpected HTTP status: '' @ status))"
    unfolding response_body_def sub option.case tk utf8 sum.case Let_def line dr by simp
  then show ?thesis by (simp only: head_text_def append_assoc)
qed



section \<open>References\<close>

definition dir_of :: "string \<Rightarrow> string" where
  "dir_of path = (case rsplit_once (CHR ''/'') path of Some (d, _) \<Rightarrow> d | None \<Rightarrow> [])"

definition join_path :: "string \<Rightarrow> string \<Rightarrow> string" where
  "join_path path r = (if starts_with ''/'' r then r else dir_of path @ ''/'' @ r)"

lemma rsplit_once_split: "rsplit_once c s = Some (a, b) \<Longrightarrow> s = a @ c # b"
proof -
  assume r: "rsplit_once c s = Some (a, b)"
  let ?t = "takeWhile (\<lambda>x. x \<noteq> c) (rev s)" and ?d = "dropWhile (\<lambda>x. x \<noteq> c) (rev s)"
  have c: "c \<in> set s" and ab: "a = rev (tl ?d)" "b = rev ?t"
    using r by (auto simp: rsplit_once_def split: if_splits)
  have "?d \<noteq> []" using c by (simp add: dropWhile_eq_Nil_conv)
  then have "?d = c # tl ?d" using hd_dropWhile [of "\<lambda>x. x \<noteq> c" "rev s"] by (cases ?d) auto
  then have "rev s = ?t @ c # tl ?d" by (metis takeWhile_dropWhile_id)
  then have "s = rev (?t @ c # tl ?d)" by (metis rev_rev_ident)
  then show ?thesis using ab by simp
qed

lemma dir_of_prefix: "\<exists>t. path = dir_of path @ t"
proof (cases "rsplit_once (CHR ''/'') path")
  case (Some ab)
  then show ?thesis using rsplit_once_split [of "CHR ''/''" path "fst ab" "snd ab"]
    by (auto simp: dir_of_def split: prod.split)
qed (simp add: dir_of_def)

lemma resolve_relative_wf:
  assumes "scan_uri (get_url u) = get_uri rx (get_url u)" and "wf_uri u"
    and "\<not> starts_with ''http://'' r" and "\<not> starts_with ''https://'' r"
  shows "resolve_relative rx (get_url u) r = Ok (uri_scheme u @ ''://'' @ uri_host u @ join_path (uri_path u) r)"
proof -
  have "get_uri rx (get_url u) = Ok u" using scan_uri_get_url [OF assms(2)] assms(1) by simp
  moreover have "uri_scheme u \<noteq> []" "uri_host u \<noteq> []"
    using assms(2) by (auto simp: wf_uri_def starts_with_iff)
  moreover have "r = CHR ''/'' # tl r" if "starts_with ''/'' r" using that by (cases r) auto
  ultimately show ?thesis
    using assms(3,4)
    by (cases "starts_with ''/'' r") (auto simp: resolve_relative_def join_path_def dir_of_def strip_prefix_def Let_def
        starts_with_iff)
qed

lemma resolve_relative_spec_fact:
  assumes "regex_engine rx" and "wf_uri u" and "ascii (get_url u)" and "ascii r"
    and "list_all (in_class (NotIn ''?#'')) r" and "\<not> starts_with ''http://'' r" and "\<not> starts_with ''https://'' r"
  shows "\<exists>s. resolve_relative rx (get_url u) r = Ok s \<and> get_uri rx s =
    Ok (u\<lparr>uri_username := [], uri_password := [], uri_path := join_path (uri_path u) r, uri_query := [], uri_fragment := []\<rparr>)"
proof -
  let ?v = "u\<lparr>uri_username := [], uri_password := [], uri_path := join_path (uri_path u) r, uri_query := [], uri_fragment := []\<rparr>"
  obtain t where t: "uri_path u = dir_of (uri_path u) @ t" using dir_of_prefix by blast
  have path: "uri_path u = [] \<or> hd (uri_path u) = CHR ''/''" "list_all (in_class (NotIn ''?#'')) (uri_path u)"
    using assms(2) by (simp_all add: wf_uri_def)
  have dir: "dir_of (uri_path u) = [] \<or> hd (dir_of (uri_path u)) = CHR ''/''" "list_all (in_class (NotIn ''?#'')) (dir_of (uri_path u))"
    using path t by (metis append_is_Nil_conv hd_append2, metis list_all_append)
  have sl: "in_class (NotIn ''?#'') (CHR ''/'')" by (simp add: in_class.simps)
  have wf: "wf_uri ?v"
    using assms(2,5) dir sl unfolding wf_uri_def
    by (cases "dir_of (uri_path u)") (auto simp: join_path_def starts_with_iff simp del: in_class.simps)
  have eq: "uri_scheme u @ ''://'' @ uri_host u @ join_path (uri_path u) r = get_url ?v"
    unfolding get_url_parts by (simp add: url_tail_def)
  have asc: "ascii (uri_scheme u)" "ascii (uri_host u)" "ascii (uri_path u)"
    using assms(3) unfolding get_url_parts url_tail_def by (auto split: if_splits)
  then have "ascii (dir_of (uri_path u))" using t by (metis ascii_append)
  then have "ascii (get_url ?v)"
    unfolding eq [symmetric] using asc assms(4) by (simp add: join_path_def)
  then have "get_uri rx (get_url ?v) = Ok ?v"
    using regex_engine.get_uri_eq [OF assms(1)] scan_uri_get_url [OF wf] by simp
  moreover have "resolve_relative rx (get_url u) r = Ok (get_url ?v)"
    using resolve_relative_wf [OF regex_engine.get_uri_eq [OF assms(1,3), symmetric] assms(2,6,7)] unfolding eq .
  ultimately show ?thesis by blast
qed

text \<open>
  C36. HLS references. A reference without query or fragment, against a base with a host, stays on the
  base's scheme, host and port: the result parses back to the base with the path replaced by the
  reference itself where it starts with a slash (a reference \<open>//other/x\<close> included), by the base's
  directory and the reference otherwise, and without credentials, query and fragment.
\<close>

theorem resolve_relative_spec:
  assumes "regex_engine rx" and "wf_uri u" and "ascii (get_url u)" and "ascii r"
    and "list_all (in_class (NotIn ''?#'')) r" and "\<not> starts_with ''http://'' r" and "\<not> starts_with ''https://'' r"
  shows "\<exists>s. resolve_relative rx (get_url u) r = Ok s \<and> get_uri rx s =
    Ok (u\<lparr>uri_username := [], uri_password := [], uri_path := join_path (uri_path u) r, uri_query := [], uri_fragment := []\<rparr>)"
  by (rule resolve_relative_spec_fact [OF assms])

lemma resolve_relative_spec_witness:
  "\<exists>s. resolve_relative first_match (get_url example_uri) ''seg.ts'' = Ok s \<and> get_uri first_match s =
    Ok (example_uri\<lparr>uri_username := [], uri_password := [], uri_path := ''/api/seg.ts'', uri_query := [], uri_fragment := []\<rparr>)"
proof -
  have wf: "wf_uri example_uri" and a: "ascii (get_url example_uri)" and s: "ascii ''seg.ts''"
    and p: "join_path (uri_path example_uri) ''seg.ts'' = ''/api/seg.ts''" "list_all (in_class (NotIn ''?#'')) ''seg.ts''"
    by code_simp+
  show ?thesis
    using resolve_relative_spec [OF reference_engine.regex_engine_axioms wf a s p(2)] by (simp add: p(1))
qed

section \<open>The ping as a plan\<close>

text \<open>
  An abstract server: a connection carries one request, and the server's answer to it is a function
  of the request's bytes.
\<close>

locale request_server =
  fixes net :: "('w, 'h, 'c) net" and serve :: "bytes \<Rightarrow> bytes" and incoming :: "'w \<Rightarrow> bytes"
  assumes tcp_open: "\<exists>h w'. tcp_connect net a w = Some (Ok h, w')"
    and tls_open: "\<exists>h' w'. tls_connect net c nm h w = Some (Ok h', w')"
    and serve_write: "\<exists>w'. st_write_all net h bs w = Some (Ok (), w') \<and> incoming w' = serve bs"
    and serve_read: "0 < n \<Longrightarrow> \<exists>bs w'. st_read net h n w = Some (Ok bs, w') \<and> incoming w = bs @ incoming w' \<and>
      (bs = [] \<longrightarrow> incoming w = [])"

text \<open>The result of a future that always resolves with it.\<close>

definition returns :: "('w, 'a) io \<Rightarrow> 'a result \<Rightarrow> bool" where
  "returns m r = (\<forall>w. \<exists>w'. m w = Some (r, w'))"

lemma returns_lift [intro!]: "returns (io_lift r) r"
  by (simp add: returns_def)

lemma returns_bind:
  assumes "returns m r" and "\<And>x. r = Ok x \<Longrightarrow> returns (f x) (g x)"
  shows "returns (io_bind m f) (bind_r r g)"
  unfolding returns_def
proof
  fix w
  obtain w1 where w1: "m w = Some (r, w1)" using assms(1) unfolding returns_def by blast
  show "\<exists>w'. io_bind m f w = Some (bind_r r g, w')"
  proof (cases r)
    case (Ok x)
    then show ?thesis using assms(2) [OF Ok] w1 by (simp add: returns_def io_bind_def)
  qed (simp_all add: io_bind_def w1)
qed

lemma returns_open:
  assumes "\<And>w. \<exists>h w'. m w = Some (Ok h, w')" and "\<And>h. returns (f h) r"
  shows "returns (io_bind m f) r"
  unfolding returns_def
proof
  fix w
  obtain h w1 where "m w = Some (Ok h, w1)" using assms(1) by blast
  moreover obtain w2 where "f h w1 = Some (r, w2)" using assms(2) unfolding returns_def by blast
  ultimately show "\<exists>w'. io_bind m f w = Some (r, w')" by (simp add: io_bind_def)
qed

text \<open>One fetch, and the whole ping, over such a server: no futures left.\<close>

definition plan_get :: "engine \<Rightarrow> (string \<Rightarrow> string option) \<Rightarrow> (bytes \<Rightarrow> bytes) \<Rightarrow> string \<Rightarrow> string option \<Rightarrow> bytes result" where
  "plan_get rx bad_name serve url rng =
     bind_r (get_uri rx url) (\<lambda>uri.
       let scheme = to_ascii_lowercase (uri_scheme uri)
       in if scheme = [] \<or> scheme = ''http''
          then bind_r (hls_endpoint_for uri 80) (\<lambda>ep. response_body (serve (bytes_of (build_get uri ep rng))))
          else if scheme = ''https''
          then bind_r (hls_endpoint_for uri 443) (\<lambda>ep.
            case bad_name (uri_domain uri) of
              Some e \<Rightarrow> Err (IoError InvalidInput e)
            | None \<Rightarrow> response_body (serve (bytes_of (build_get uri ep rng))))
          else err_other (''scheme '' @ [CHR 0x27] @ scheme @ [CHR 0x27]
                 @ '' is not supported by HlsPinger (use http:// or https://)''))"

definition plan_media :: "engine \<Rightarrow> (string \<Rightarrow> string option \<Rightarrow> bytes result) \<Rightarrow> string \<Rightarrow> string \<Rightarrow> (string \<times> string) result" where
  "plan_media rx get url playlist =
     (case first_variant_url playlist of
        Some variant \<Rightarrow>
          bind_r (resolve_relative rx url variant) (\<lambda>resolved.
          bind_r (get resolved None) (\<lambda>body.
          bind_r (utf8_or ''variant playlist'' body) (\<lambda>text. Ok (resolved, text))))
      | None \<Rightarrow> Ok (url, playlist))"

definition plan_ping :: "engine \<Rightarrow> (string \<Rightarrow> string option \<Rightarrow> bytes result) \<Rightarrow> string \<Rightarrow> unit result" where
  "plan_ping rx get url =
     bind_r (get url None) (\<lambda>body.
     bind_r (utf8_or ''playlist'' body) (\<lambda>playlist.
     if \<not> starts_with ''#EXTM3U'' (case lines playlist of [] \<Rightarrow> [] | l # _ \<Rightarrow> l)
     then Err (IoError InvalidData ''response is not an M3U8 playlist (missing #EXTM3U header)'')
     else
       bind_r (plan_media rx get url playlist) (\<lambda>(media_url, media_text).
       bind_r (case first_segment_url media_text of
                 Some s \<Rightarrow> Ok s | None \<Rightarrow> Err (IoError InvalidData ''no segments in media playlist'')) (\<lambda>segment.
       bind_r (resolve_relative rx media_url segment) (\<lambda>segment_url.
       bind_r (get segment_url (Some ''bytes=0-0'')) (\<lambda>_. Ok ()))))))"

context request_server
begin

lemma fetch_returns: "returns (fetch_response_body net h request) (response_body (serve (bytes_of request)))"
  unfolding returns_def
proof
  fix w
  obtain w1 where 1: "st_write_all net h (bytes_of request) w = Some (Ok (), w1)" "incoming w1 = serve (bytes_of request)"
    using serve_write [of h "bytes_of request" w] by blast
  obtain w2 where 2: "read_to_end net h [] w1 = Some (Ok (incoming w1), w2)"
    using read_to_end_run [where io = net and h = h and incoming = incoming and keep = "\<lambda>_. ()" and buf = "[]" and w = w1]
      serve_read by fastforce
  show "\<exists>w'. fetch_response_body net h request w = Some (response_body (serve (bytes_of request)), w')"
    by (rule exI [of _ w2]) (simp add: fetch_response_body_def io_bind_def 1 2)
qed

lemma connect_returns: "(\<And>h. returns (f h) r) \<Longrightarrow> returns (io_bind (tcp_connect net a) f) r"
  using returns_open [OF tcp_open] .

lemma connect_tls_returns: "(\<And>h. returns (f h) r) \<Longrightarrow> returns (io_bind (tls_connect net c n h) f) r"
  using returns_open [OF tls_open] .

lemma get_returns:
  "returns (http_get_with_range net url cfg rng) (plan_get (net_regex net) (server_name_error net) serve url rng)"
proof -
  have plain: "returns (fetch_plain net uri rng) (bind_r (hls_endpoint_for uri 80) (\<lambda>ep. response_body (serve (bytes_of (build_get uri ep rng)))))" for uri
    unfolding fetch_plain_def Let_def by (intro returns_bind returns_lift connect_returns fetch_returns)
  have tls: "returns (fetch_tls net uri cfg rng) (bind_r (hls_endpoint_for uri 443) (\<lambda>ep.
            case server_name_error net (uri_domain uri) of
              Some e \<Rightarrow> Err (IoError InvalidInput e)
            | None \<Rightarrow> response_body (serve (bytes_of (build_get uri ep rng)))))" for uri
    unfolding fetch_tls_def Let_def
    by (cases "server_name_error net (uri_domain uri)")
      (auto intro!: returns_bind connect_returns connect_tls_returns fetch_returns)
  show ?thesis
    unfolding http_get_with_range_def plan_get_def Let_def
    by (rule returns_bind [OF returns_lift]) (auto intro: plain tls)
qed

lemma ping_returns:
  assumes "prompt net"
  shows "returns (hls_ping net p)
    (plan_ping (net_regex net) (plan_get (net_regex net) (server_name_error net) serve) (hls_url p))"
proof -
  let ?get = "plan_get (net_regex net) (server_name_error net) serve"
  have media: "returns (case first_variant_url playlist of
                Some variant \<Rightarrow>
                  io_bind (io_lift (resolve_relative (net_regex net) url variant)) (\<lambda>resolved.
                  io_bind (http_get_with_range net resolved (hls_tls_config p) None) (\<lambda>variant_body.
                  io_bind (io_lift (utf8_or ''variant playlist'' variant_body)) (\<lambda>variant_text.
                  io_ok (resolved, variant_text))))
              | None \<Rightarrow> io_ok (url, playlist)) (plan_media (net_regex net) ?get url playlist)" for url playlist
    unfolding plan_media_def
    by (cases "first_variant_url playlist") (auto intro!: returns_bind get_returns)
  have segment: "returns (case s of Some s \<Rightarrow> io_ok s | None \<Rightarrow> io_err e) (case s of Some s \<Rightarrow> Ok s | None \<Rightarrow> Err e)"
    for s :: "string option" and e
    by (cases s) auto
  have timed: "returns (with_timeout net d m) r" if "returns m r" for d m r
    using that with_timeout_prompt [OF assms] unfolding returns_def by meson
  show ?thesis
    unfolding hls_ping_def plan_ping_def http_get_def Let_def
    by (rule timed) (auto intro!: returns_bind get_returns media segment)
qed

end

section \<open>The refinement\<close>

text \<open>A concrete server: writing a request on a connection puts its answer on it.\<close>

definition serving :: "(bytes \<Rightarrow> bytes) \<Rightarrow> (lab_world, unit, unit) net" where
  "serving serve = (lab (\<lambda>_. None))\<lparr>st_write_all := (\<lambda>_ bs w. Some (Ok (), w\<lparr>chunks := [serve bs], sent := sent w @ bs\<rparr>))\<rparr>"

lemma serving_simps [simp]: "net_regex (serving serve) = first_match" "prompt (serving serve)"
    "server_name_error (serving serve) s = (if s = [] then Some ''invalid dns name'' else None)"
  by (simp_all add: serving_def lab_def prompt_def split: option.split)

interpretation serving_lab: request_server "serving serve" serve "\<lambda>w. concat (chunks w)" for serve
proof
  fix n :: nat and h :: unit and w :: lab_world
  assume "0 < n"
  then show "\<exists>bs w'. st_read (serving serve) h n w = Some (Ok bs, w') \<and> concat (chunks w) = bs @ concat (chunks w') \<and>
      (bs = [] \<longrightarrow> concat (chunks w) = [])"
    using lab_read_some [of n w] by (simp add: serving_def lab_def) blast
qed (simp_all add: serving_def lab_def)

lemma hls_ping_refines_plan_fact:
  assumes "request_server net serve incoming" and "prompt net"
  shows "\<exists>w'. hls_ping net p w =
    Some (plan_ping (net_regex net) (plan_get (net_regex net) (server_name_error net) serve) (hls_url p), w')"
  using request_server.ping_returns [OF assms, of p] by (simp add: returns_def)

text \<open>
  C18. HLS ping refines its plan. Over any server whose answer is a function of the request, and
  whatever connections, reads and timers do in between, the ping resolves with the result of the
  plan: playlist, its first variant if it has one, then the first segment of the media playlist,
  each resolved against the URL it came from, the first failure being the result.
\<close>

theorem hls_ping_refines_plan:
  assumes "request_server net serve incoming" and "prompt net"
  shows "\<exists>w'. hls_ping net p w =
    Some (plan_ping (net_regex net) (plan_get (net_regex net) (server_name_error net) serve) (hls_url p), w')"
  by (rule hls_ping_refines_plan_fact [OF assms])

lemma hls_ping_refines_plan_witness:
  "\<exists>w'. hls_ping (serving (\<lambda>_. bytes_of ''oops'')) (HlsPinger_new ''srv:5300'') (lab_start []) =
     Some (err_other ''response missing header/body separator'', w')"
proof -
  have "find_sub (bytes_of (crlf @ crlf)) (bytes_of ''oops'') = None"
    by (rule find_sub_None_set) simp
  then have "plan_ping first_match (plan_get first_match (server_name_error (serving (\<lambda>_. bytes_of ''oops''))) (\<lambda>_. bytes_of ''oops'')) ''srv:5300'' =
      err_other ''response missing header/body separator''"
    by (simp add: plan_ping_def plan_get_def hls_endpoint_for_def response_body_def)
  then show ?thesis
    using hls_ping_refines_plan [OF serving_lab.request_server_axioms, of "\<lambda>_. bytes_of ''oops''" "HlsPinger_new ''srv:5300''" "lab_start []"]
    by (simp add: HlsPinger_new_def)
qed

end
