(* ===== verification/HlsServer.thy ===== *)
theory HlsServer
  imports Hls
begin

text \<open>
  \<open>testserver/src/lib.rs\<close>, \<open>handle_hls\<close>: the HLS test server, as a function of the request it reads and
  as the handler of a connection; and the HLS ping run against it.
\<close>

section \<open>Definitions\<close>

text \<open>\<open>split_whitespace\<close>: the maximal runs of characters that are not white space.\<close>

fun take_word :: "nat \<Rightarrow> string \<Rightarrow> string \<times> string" where
  "take_word 0 s = ([], s)"
| "take_word (Suc fuel) s =
     (case s of [] \<Rightarrow> ([], [])
      | c # t \<Rightarrow> if ws_len white_space s \<noteq> 0 then ([], s)
                else (let (w, r) = take_word fuel t in (c # w, r)))"

fun split_words :: "nat \<Rightarrow> string \<Rightarrow> string list" where
  "split_words 0 s = []"
| "split_words (Suc fuel) s =
     (let s = trim_start s
      in if s = [] then []
         else (let (w, r) = take_word (length s) s in w # split_words fuel r))"

text \<open>Each word takes at least one byte, so \<open>length s\<close> rounds are enough.\<close>

definition split_whitespace :: "string \<Rightarrow> string list" where
  "split_whitespace s = split_words (length s) s"

definition nth_or_empty :: "string list \<Rightarrow> nat \<Rightarrow> string" where
  "nth_or_empty xs n = (if n < length xs then xs ! n else [])"

definition hls_playlist :: string where
  "hls_playlist = concat (map (\<lambda>l. l @ [CHR 0x0A])
     [''#EXTM3U'', ''#EXT-X-VERSION:3'', ''#EXT-X-TARGETDURATION:10'', ''#EXT-X-MEDIA-SEQUENCE:0'',
      ''#EXTINF:10.0,'', ''segment0.ts'', ''#EXT-X-ENDLIST''])"

definition hls_master :: string where
  "hls_master = concat (map (\<lambda>l. l @ [CHR 0x0A])
     [''#EXTM3U'', ''#EXT-X-VERSION:3'', ''#EXT-X-STREAM-INF:BANDWIDTH=800000,RESOLUTION=640x360'', ''playlist.m3u8''])"

definition hls_body :: "string \<Rightarrow> string option" where
  "hls_body path =
     (if starts_with ''/playlist.m3u8'' path then Some hls_playlist
      else if starts_with ''/master.m3u8'' path then Some hls_master
      else if starts_with ''/segment0.ts'' path then Some ''FAKE_TS_SEGMENT_PAYLOAD''
      else None)"

definition hls_content_type :: "string \<Rightarrow> string" where
  "hls_content_type path =
     (if contains ''.m3u8'' path then ''application/vnd.apple.mpegurl'' else ''video/mp2t'')"

text \<open>The buffers handed to \<open>write_all\<close>, in order, for the bytes of the request that were read.\<close>

definition hls_writes :: "bytes \<Rightarrow> bytes list" where
  "hls_writes buf =
     (let req = lossy buf;
          request_line = nth_or_empty (lines req) 0;
          path = nth_or_empty (split_whitespace request_line) 1;
          range_hdr = List.find (\<lambda>l. starts_with ''range:'' (to_ascii_lowercase l)) (lines req)
      in case hls_body path of
           None \<Rightarrow> [bytes_of (''HTTP/1.1 404 Not Found'' @ crlf @ ''Content-Length: 0'' @ crlf @ ''Connection: close'' @ crlf @ crlf)]
         | Some body \<Rightarrow>
             (let content_type = hls_content_type path
              in case range_hdr of
                   Some _ \<Rightarrow>
                     [bytes_of (''HTTP/1.1 206 Partial Content'' @ crlf @ ''Content-Type: '' @ content_type @ crlf
                        @ ''Content-Range: bytes 0-0/'' @ dec (length body) @ crlf @ ''Content-Length: 1'' @ crlf
                        @ ''Connection: close'' @ crlf @ crlf),
                      bytes_of (take 1 body)]
                 | None \<Rightarrow>
                     [bytes_of (''HTTP/1.1 200 OK'' @ crlf @ ''Content-Type: '' @ content_type @ crlf
                        @ ''Content-Length: '' @ dec (length body) @ crlf @ ''Connection: close'' @ crlf @ crlf),
                      bytes_of body]))"

text \<open>The results of the writes are dropped.\<close>

fun write_each :: "('w, 'h, 'z) stream_io_scheme \<Rightarrow> 'h \<Rightarrow> bytes list \<Rightarrow> ('w, unit) io" where
  "write_each io s [] = io_ok ()"
| "write_each io s (b # bs) =
     io_catch (st_write_all io s b) (\<lambda>_. write_each io s bs) (\<lambda>_. write_each io s bs)"

definition handle_hls :: "('w, 'h, 'z) stream_io_scheme \<Rightarrow> 'h \<Rightarrow> ('w, unit) io" where
  "handle_hls io s =
     io_catch (st_read io s 1024) (\<lambda>buf. write_each io s (hls_writes buf)) (\<lambda>_. io_ok ())"

section \<open>Words\<close>

lemma white_space_plain: "graphic c \<Longrightarrow> ws_len white_space (c # s) = 0"
proof -
  assume "graphic c"
  then have "\<not> starts_with p (c # s)" if "p \<in> set white_space" for p
    using white_space_ends that by (cases p) auto
  then show ?thesis by (simp add: ws_len_def filter_False split: list.split)
qed

lemma white_space_space: "ws_len white_space (CHR '' '' # s) = 1"
  by (simp add: ws_len_def white_space_def upt_rec_numeral)

lemma take_word_plain:
  assumes "list_all graphic w" and "length (w @ r) \<le> fuel" and "ws_len white_space r \<noteq> 0 \<or> r = []"
  shows "take_word fuel (w @ r) = (w, r)"
  using assms
proof (induction w arbitrary: fuel)
  case Nil
  then show ?case by (cases fuel; cases r) simp_all
next
  case (Cons c w)
  then obtain f where "fuel = Suc f" by (cases fuel) auto
  with Cons show ?case by (simp add: white_space_plain)
qed

lemma split_words_word:
  assumes "list_all graphic w" "w \<noteq> []" "ws_len white_space r \<noteq> 0 \<or> r = []" "0 < fuel"
  shows "split_words fuel (w @ r) = w # split_words (fuel - 1) r"
proof -
  obtain f where f: "fuel = Suc f" using assms(4) by (cases fuel) auto
  have "trim_start (w @ r) = w @ r"
    using assms(1,2) by (intro trim_start_id) (cases w; simp)
  moreover have "take_word (length (w @ r)) (w @ r) = (w, r)"
    using assms(1,3) by (intro take_word_plain) auto
  ultimately show ?thesis using assms(2) by (simp add: f)
qed

lemma split_words_space: "split_words fuel (CHR '' '' # s) = split_words fuel s"
proof -
  have "trim_start (CHR '' '' # s) = trim_start s"
    by (simp add: trim_start_def white_space_space Let_def)
  then show ?thesis by (cases fuel) simp_all
qed

text \<open>The path of a request line.\<close>

lemma request_path:
  assumes "list_all graphic m" "m \<noteq> []" "list_all graphic p" "p \<noteq> []"
  shows "nth_or_empty (split_whitespace (m @ '' '' @ p @ '' '' @ r)) 1 = p"
proof -
  let ?n = "length (m @ '' '' @ p @ '' '' @ r)"
  have "split_words ?n (m @ '' '' @ p @ '' '' @ r) = m # split_words (?n - 1) ('' '' @ p @ '' '' @ r)"
    using assms(1,2) by (intro split_words_word) (simp_all add: white_space_space)
  also have "split_words (?n - 1) ('' '' @ p @ '' '' @ r) = split_words (?n - 1) (p @ '' '' @ r)"
    by (simp add: split_words_space)
  also have "\<dots> = p # split_words (?n - 1 - 1) ('' '' @ r)"
    using assms(2,3,4) by (intro split_words_word) (cases m; simp add: white_space_space)+
  finally show ?thesis by (simp add: split_whitespace_def nth_or_empty_def)
qed

section \<open>The request of the pinger\<close>

definition get_lines :: "string \<Rightarrow> string \<Rightarrow> string option \<Rightarrow> string list" where
  "get_lines path host rng =
     [''GET '' @ path @ '' HTTP/1.1'', ''Host: '' @ host, ''User-Agent: Knock Knock'', ''Accept: */*'', ''Connection: close'']
     @ (case rng of Some r \<Rightarrow> [''Range: '' @ r] | None \<Rightarrow> []) @ [[]]"

lemma build_get_lines:
  "build_get uri host rng =
     concat (map (\<lambda>l. l @ crlf) (get_lines (if uri_path uri = [] then ''/'' else uri_path uri) host rng))"
  by (simp add: build_get_def get_lines_def Let_def split: option.split)

lemma graphic_no_lf: "list_all graphic s \<Longrightarrow> CHR 0x0A \<notin> set s"
  by (auto simp: list_all_iff graphic_def)

lemma graphic_ascii: "list_all graphic s \<Longrightarrow> ascii s"
  by (auto simp: ascii_def list_all_iff graphic_def)

lemma lower_first:
  "to_lower (CHR ''G'') = CHR ''g''" "to_lower (CHR ''H'') = CHR ''h''" "to_lower (CHR ''U'') = CHR ''u''"
  "to_lower (CHR ''A'') = CHR ''a''" "to_lower (CHR ''C'') = CHR ''c''" "to_ascii_lowercase ''Range:'' = ''range:''"
  by code_simp+

lemma range_header:
  "List.find (\<lambda>l. starts_with ''range:'' (to_ascii_lowercase l)) (get_lines path host rng) =
     map_option (\<lambda>r. ''Range: '' @ r) rng"
proof -
  have "starts_with ''range:'' (to_ascii_lowercase (''Range: '' @ r))" for r
  proof -
    have "to_ascii_lowercase (''Range: '' @ r) = to_ascii_lowercase ''Range:'' @ to_ascii_lowercase ('' '' @ r)"
      by (simp add: to_ascii_lowercase_def)
    then show ?thesis unfolding lower_first by simp
  qed
  moreover have "\<not> starts_with ''range:'' (to_ascii_lowercase l)" if "l \<noteq> []" "to_lower (hd l) \<noteq> CHR ''r''" for l
    using that by (cases l) (simp_all add: to_ascii_lowercase_def)
  ultimately show ?thesis
    by (cases rng) (simp_all add: get_lines_def lower_first(1-5) to_ascii_lowercase_def [of "[]"])
qed

lemma hls_writes_get:
  assumes "list_all graphic path" "path \<noteq> []" "list_all graphic host" "case rng of Some r \<Rightarrow> list_all graphic r | None \<Rightarrow> True"
  shows "hls_writes (bytes_of (concat (map (\<lambda>l. l @ crlf) (get_lines path host rng)))) =
    (case hls_body path of
       None \<Rightarrow> [bytes_of (''HTTP/1.1 404 Not Found'' @ crlf @ ''Content-Length: 0'' @ crlf @ ''Connection: close'' @ crlf @ crlf)]
     | Some body \<Rightarrow>
         if rng = None
         then [bytes_of (''HTTP/1.1 200 OK'' @ crlf @ ''Content-Type: '' @ hls_content_type path @ crlf
                 @ ''Content-Length: '' @ dec (length body) @ crlf @ ''Connection: close'' @ crlf @ crlf), bytes_of body]
         else [bytes_of (''HTTP/1.1 206 Partial Content'' @ crlf @ ''Content-Type: '' @ hls_content_type path @ crlf
                 @ ''Content-Range: bytes 0-0/'' @ dec (length body) @ crlf @ ''Content-Length: 1'' @ crlf
                 @ ''Connection: close'' @ crlf @ crlf), bytes_of (take 1 body)])"
proof -
  let ?ls = "get_lines path host rng"
  have "list_all (\<lambda>l. CHR 0x0A \<notin> set l) ?ls"
    using assms graphic_no_lf by (auto simp: get_lines_def split: option.splits)
  then have lines: "lines (concat (map (\<lambda>l. l @ crlf) ?ls)) = ?ls" by (rule lines_unlines) simp
  have "ascii (concat (map (\<lambda>l. l @ crlf) ?ls))"
    using assms graphic_ascii by (auto simp: get_lines_def split: option.splits)
  then have req: "lossy (bytes_of (concat (map (\<lambda>l. l @ crlf) ?ls))) = concat (map (\<lambda>l. l @ crlf) ?ls)"
    by (simp add: lossy_ascii ascii_bytes_of)
  have "nth_or_empty ?ls 0 = ''GET'' @ '' '' @ path @ '' '' @ ''HTTP/1.1''"
    by (simp add: get_lines_def nth_or_empty_def)
  moreover have "nth_or_empty (split_whitespace (''GET'' @ '' '' @ path @ '' '' @ ''HTTP/1.1'')) 1 = path"
    using assms(1,2) by (intro request_path) (simp_all add: graphic_def)
  ultimately have path: "nth_or_empty (split_whitespace (nth_or_empty ?ls 0)) 1 = path" by simp
  show ?thesis
    unfolding hls_writes_def req lines Let_def path range_header by (cases "hls_body path"; cases rng; simp)
qed

section \<open>The answer the pinger gets\<close>

definition hls_serve :: "bytes \<Rightarrow> bytes" where
  "hls_serve request = concat (hls_writes (take 1024 request))"

abbreviation plain_line :: "string \<Rightarrow> bool" where
  "plain_line l \<equiv> ascii l \<and> l \<noteq> [] \<and> CHR 0x0D \<notin> set l \<and> CHR 0x0A \<notin> set l"

lemma digits_plain: "CHR 0x0D \<notin> set (dec n)" "CHR 0x0A \<notin> set (dec n)"
proof -
  have "\<not> is_digit (CHR 0x0D)" "\<not> is_digit (CHR 0x0A)" by (simp_all add: is_digit_def)
  with dec_digits [of n] show "CHR 0x0D \<notin> set (dec n)" "CHR 0x0A \<notin> set (dec n)"
    unfolding list_all_iff by blast+
qed

lemma content_type_plain: "plain_line (''Content-Type: '' @ hls_content_type path)"
  by (simp add: hls_content_type_def)

lemmas header_lines = list.map concat.simps append_Nil2 append_assoc

lemma plain_constants:
  "plain_line ''HTTP/1.1 200 OK''" "plain_line ''HTTP/1.1 206 Partial Content''" "plain_line ''HTTP/1.1 404 Not Found''"
  "plain_line ''Content-Length: 0''" "plain_line ''Content-Length: 1''" "plain_line ''Connection: close''"
  "plain_line (''Content-Length: '' @ dec n)" "plain_line (''Content-Range: bytes 0-0/'' @ dec n)"
  by (simp_all add: digits_plain)

lemma status_lines:
  "starts_with ''HTTP/'' ''HTTP/1.1 200 OK'' \<and> contains '' 200 '' ''HTTP/1.1 200 OK''"
  "starts_with ''HTTP/'' ''HTTP/1.1 206 Partial Content'' \<and> contains '' 206 '' ''HTTP/1.1 206 Partial Content''"
  "starts_with ''HTTP/'' ''HTTP/1.1 404 Not Found'' \<and> \<not> contains '' 200 '' ''HTTP/1.1 404 Not Found'' \<and>
   \<not> contains '' 206 '' ''HTTP/1.1 404 Not Found''"
  by (simp_all add: contains_def)

lemma ok_body:
  "response_body (bytes_of (''HTTP/1.1 200 OK'' @ crlf @ (''Content-Type: '' @ hls_content_type path) @ crlf
      @ (''Content-Length: '' @ dec n) @ crlf @ ''Connection: close'' @ crlf @ crlf) @ body) = Ok body"
proof -
  have "list_all plain_line [''HTTP/1.1 200 OK'', ''Content-Type: '' @ hls_content_type path, ''Content-Length: '' @ dec n,
      ''Connection: close'']"
    using plain_constants content_type_plain by (simp only: list.pred_inject simp_thms)
  from response_body_spec_fact [OF this, of body] status_lines(1) show ?thesis by (simp only: header_lines if_True simp_thms if_False)
qed

lemma partial_body:
  "response_body (bytes_of (''HTTP/1.1 206 Partial Content'' @ crlf @ (''Content-Type: '' @ hls_content_type path) @ crlf
      @ (''Content-Range: bytes 0-0/'' @ dec n) @ crlf @ ''Content-Length: 1'' @ crlf @ ''Connection: close'' @ crlf @ crlf) @ body) = Ok body"
proof -
  have "list_all plain_line [''HTTP/1.1 206 Partial Content'', ''Content-Type: '' @ hls_content_type path,
      ''Content-Range: bytes 0-0/'' @ dec n, ''Content-Length: 1'', ''Connection: close'']"
    using plain_constants content_type_plain by (simp only: list.pred_inject simp_thms)
  from response_body_spec_fact [OF this, of body] status_lines(2) show ?thesis by (simp only: header_lines if_True simp_thms if_False)
qed

lemma not_found_body:
  "response_body (bytes_of (''HTTP/1.1 404 Not Found'' @ crlf @ ''Content-Length: 0'' @ crlf @ ''Connection: close'' @ crlf @ crlf)) =
     err_other ''unexpected HTTP status: HTTP/1.1 404 Not Found''"
proof -
  have "list_all plain_line [''HTTP/1.1 404 Not Found'', ''Content-Length: 0'', ''Connection: close'']"
    using plain_constants by (simp only: list.pred_inject simp_thms)
  from response_body_spec_fact [OF this, of "[]"] status_lines(3) show ?thesis
    by (simp only: header_lines if_True simp_thms if_False) simp
qed

lemma hls_serve_body:
  assumes "list_all graphic (uri_path uri)" "uri_path uri \<noteq> []" "list_all graphic host"
    and "rng = None \<or> rng = Some ''bytes=0-0''" and "length (uri_path uri) + length host \<le> 800"
  shows "response_body (hls_serve (bytes_of (build_get uri host rng))) =
    (case hls_body (uri_path uri) of
       None \<Rightarrow> err_other ''unexpected HTTP status: HTTP/1.1 404 Not Found''
     | Some body \<Rightarrow> Ok (bytes_of (if rng = None then body else take 1 body)))"
proof -
  have "length (build_get uri host rng) \<le> 1024"
    using assms(4,5) by (auto simp: build_get_def Let_def split: option.split)
  moreover have "case rng of Some r \<Rightarrow> list_all graphic r | None \<Rightarrow> True"
    using assms(4) by (auto simp: graphic_def)
  ultimately have serve: "hls_serve (bytes_of (build_get uri host rng)) = concat (hls_writes (bytes_of
      (concat (map (\<lambda>l. l @ crlf) (get_lines (uri_path uri) host rng)))))"
    using assms(2) by (simp add: hls_serve_def build_get_lines)
  show ?thesis
    unfolding serve using hls_writes_get [OF assms(1,2,3), of rng] assms(4)
      ok_body partial_body not_found_body
    by (cases "hls_body (uri_path uri)") (auto simp: graphic_def simp del: bytes_of_append)
qed

section \<open>The playlists\<close>

lemma lines_playlist: "lines hls_playlist =
    [''#EXTM3U'', ''#EXT-X-VERSION:3'', ''#EXT-X-TARGETDURATION:10'', ''#EXT-X-MEDIA-SEQUENCE:0'',
      ''#EXTINF:10.0,'', ''segment0.ts'', ''#EXT-X-ENDLIST'']"
  unfolding hls_playlist_def by (rule lines_unlines) simp_all

lemma lines_master: "lines hls_master =
    [''#EXTM3U'', ''#EXT-X-VERSION:3'', ''#EXT-X-STREAM-INF:BANDWIDTH=800000,RESOLUTION=640x360'', ''playlist.m3u8'']"
  unfolding hls_master_def by (rule lines_unlines) simp_all

lemma playlist_urls: "first_variant_url hls_playlist = None" "first_segment_url hls_playlist = Some ''segment0.ts''"
    "first_variant_url hls_master = Some ''playlist.m3u8''"
  unfolding first_variant_url_def first_segment_url_def lines_playlist lines_master
  by (simp_all add: trim_start_id trim_id graphic_def)

lemma playlist_utf8: "utf8_or what (bytes_of hls_playlist) = Ok hls_playlist" "utf8_or what (bytes_of hls_master) = Ok hls_master"
proof -
  have "ascii hls_playlist" "ascii hls_master"
    unfolding hls_playlist_def hls_master_def by (simp_all add: ascii_def)
  then show "utf8_or what (bytes_of hls_playlist) = Ok hls_playlist" "utf8_or what (bytes_of hls_master) = Ok hls_master"
    by (simp_all add: utf8_or_def from_utf8_ascii ascii_bytes_of)
qed

section \<open>The connection handler\<close>

context byte_stream
begin

lemma write_each_run: "\<exists>w'. write_each io h bs w = Some (Ok (), w') \<and> outgoing w' = outgoing w @ concat bs"
proof (induction bs arbitrary: w)
  case (Cons b bs)
  obtain w1 where 1: "st_write_all io h b w = Some (Ok (), w1)" "outgoing w1 = outgoing w @ b"
    using write_ok [of b w] by blast
  obtain w2 where "write_each io h bs w1 = Some (Ok (), w2)" "outgoing w2 = outgoing w1 @ concat bs"
    using Cons by blast
  with 1 show ?case by (simp add: io_catch_def)
qed simp

text \<open>The handler answers the bytes of its one read, at most 1024 of them.\<close>

lemma handle_hls_run: "\<exists>n w'. handle_hls io h w = Some (Ok (), w') \<and> n \<le> 1024 \<and> (n = 0 \<longleftrightarrow> incoming w = []) \<and>
    outgoing w' = outgoing w @ hls_serve (take n (incoming w))"
proof -
  obtain bs w1 where 1: "st_read io h 1024 w = Some (Ok bs, w1)" "length bs \<le> 1024" "incoming w = bs @ incoming w1"
      "bs = [] \<Longrightarrow> incoming w = []" "outgoing w1 = outgoing w"
    using read_some [of 1024 w] by auto
  obtain w2 where 2: "write_each io h (hls_writes bs) w1 = Some (Ok (), w2)" "outgoing w2 = outgoing w @ concat (hls_writes bs)"
    using write_each_run [of "hls_writes bs" w1] 1(5) by auto
  show ?thesis
    by (rule exI [of _ "length bs"], rule exI [of _ w2])
      (use 1 2 in \<open>auto simp: handle_hls_def io_catch_def hls_serve_def\<close>)
qed

end

section \<open>Properties\<close>

text \<open>A URL on the same server with another path.\<close>

definition on_server :: "URI \<Rightarrow> string \<Rightarrow> URI" where
  "on_server u p = u\<lparr>uri_username := [], uri_password := [], uri_path := p, uri_query := [], uri_fragment := []\<rparr>"

lemma on_server_wf:
  assumes "wf_uri u" "ascii (get_url u)" "hd p = CHR ''/''" "list_all (in_class (NotIn ''?#'')) p" "ascii p"
  shows "wf_uri (on_server u p)" "ascii (get_url (on_server u p))"
proof -
  show "wf_uri (on_server u p)"
    using assms(1,3,4) by (simp add: wf_uri_def on_server_def)
  show "ascii (get_url (on_server u p))"
    using assms(2,5) by (auto simp: get_url_parts url_tail_def on_server_def split: if_splits)
qed

lemma resolve_on_server:
  assumes "regex_engine rx" "wf_uri u" "ascii (get_url u)" "get_uri rx base = Ok u"
    and "ascii r" "list_all (in_class (NotIn ''?#'')) r" "\<not> starts_with ''http://'' r" "\<not> starts_with ''https://'' r"
  shows "\<exists>s. resolve_relative rx base r = Ok s \<and> get_uri rx s = Ok (on_server u (join_path (uri_path u) r))"
proof -
  have "get_uri rx (get_url u) = Ok u"
    using regex_engine.get_uri_eq [OF assms(1,3)] scan_uri_get_url [OF assms(2)] by simp
  then have "resolve_relative rx base r = resolve_relative rx (get_url u) r"
    by (simp add: resolve_relative_def assms(4))
  then show ?thesis using resolve_relative_spec_fact [OF assms(1,2,3,5-8)] by (simp add: on_server_def)
qed

lemma plan_get_served:
  assumes "get_uri rx url = Ok u" and "to_ascii_lowercase (uri_scheme u) = ''http''"
    and "list_all graphic (uri_path u)" "uri_path u \<noteq> []" "list_all graphic (uri_domain u)" "uri_domain u \<noteq> []"
    and "length (uri_path u) + length (uri_domain u) \<le> 700" and "rng = None \<or> rng = Some ''bytes=0-0''"
  shows "plan_get rx bad hls_serve url rng =
    (case hls_body (uri_path u) of
       None \<Rightarrow> err_other ''unexpected HTTP status: HTTP/1.1 404 Not Found''
     | Some body \<Rightarrow> Ok (bytes_of (if rng = None then body else take 1 body)))"
proof -
  let ?port = "if 0 < uri_port u then as_u16 (uri_port u) else 80"
  let ?ep = "uri_domain u @ '':'' @ dec (unat ?port)"
  have "list_all graphic (dec (unat ?port))"
    by (rule list.pred_mono_strong [OF dec_digits]) (auto simp: is_digit_def graphic_def)
  then have g: "list_all graphic ?ep" using assms(5) by (simp add: graphic_def)
  have "length (dec n) \<le> 5" if "n < 65536" for n
    using that by (simp add: dec.simps)
  then have "length ?ep \<le> length (uri_domain u) + 6" using unat_u16 [of ?port] by simp
  then have "length (uri_path u) + length ?ep \<le> 800" using assms(7) by simp
  from hls_serve_body [OF assms(3,4) g assms(8) this]
  show ?thesis using assms(2,6) by (simp add: plan_get_def assms(1) hls_endpoint_for_def Let_def)
qed

lemma bodies: "hls_body ''/playlist.m3u8'' = Some hls_playlist" "hls_body ''/master.m3u8'' = Some hls_master"
    "hls_body ''/segment0.ts'' = Some ''FAKE_TS_SEGMENT_PAYLOAD''"
  by (simp_all add: hls_body_def)

lemma joins: "join_path ''/playlist.m3u8'' ''segment0.ts'' = ''/segment0.ts''"
    "join_path ''/master.m3u8'' ''playlist.m3u8'' = ''/playlist.m3u8''"
  by code_simp+

lemma paths_ok: "list_all graphic ''/segment0.ts''" "list_all graphic ''/playlist.m3u8''" "list_all graphic ''/master.m3u8''"
    "ascii ''/playlist.m3u8''" "list_all (in_class (NotIn ''?#'')) ''/playlist.m3u8''"
    "ascii ''segment0.ts''" "list_all (in_class (NotIn ''?#'')) ''segment0.ts''"
    "ascii ''playlist.m3u8''" "list_all (in_class (NotIn ''?#'')) ''playlist.m3u8''"
  by (simp_all add: graphic_def ascii_def in_class.simps)

lemma on_server_simps [simp]: "uri_path (on_server u p) = p" "uri_domain (on_server u p) = uri_domain u"
    "uri_scheme (on_server u p) = uri_scheme u"
  by (simp_all add: on_server_def)

text \<open>The part of the plan from the media playlist on.\<close>

lemma media_served:
  assumes "regex_engine rx" "wf_uri u" "ascii (get_url u)" "get_uri rx url = Ok u" "uri_path u = ''/playlist.m3u8''"
    and "to_ascii_lowercase (uri_scheme u) = ''http''" "list_all graphic (uri_domain u)" "length (uri_domain u) \<le> 500"
  shows "\<exists>s. resolve_relative rx url ''segment0.ts'' = Ok s \<and>
    plan_get rx bad hls_serve s (Some ''bytes=0-0'') = Ok (bytes_of ''F'')"
proof -
  obtain s where s: "resolve_relative rx url ''segment0.ts'' = Ok s" "get_uri rx s = Ok (on_server u ''/segment0.ts'')"
    using resolve_on_server [OF assms(1-4) paths_ok(6,7)] unfolding assms(5) joins by auto
  have "uri_domain u \<noteq> []" using assms(2) by (simp add: wf_uri_def)
  then have "plan_get rx bad hls_serve s (Some ''bytes=0-0'') = Ok (bytes_of (take 1 ''FAKE_TS_SEGMENT_PAYLOAD''))"
    using plan_get_served [OF s(2), of "Some ''bytes=0-0''" bad] assms(6-8) paths_ok(1) by (simp add: bodies)
  with s(1) show ?thesis by simp
qed

text \<open>
  C22. HLS ping against the HLS server. Over any connections to the test server, the ping of a well-formed
  http URL succeeds when its path is the media playlist or the master playlist (which leads to the
  other requests, the last for one byte of the segment), and is the 404 error when the server
  does not know the path.
\<close>

theorem hls_ping_meets_server:
  assumes "request_server net hls_serve incoming" and "prompt net" and "regex_engine (net_regex net)"
    and "wf_uri u" and "ascii (get_url u)" and "to_ascii_lowercase (uri_scheme u) = ''http''"
    and "list_all graphic (uri_domain u)" and "length (uri_domain u) \<le> 500"
    and "list_all graphic (uri_path u)" and "length (uri_path u) \<le> 200" and "uri_path u \<noteq> []"
    and "uri_path u = ''/playlist.m3u8'' \<or> uri_path u = ''/master.m3u8'' \<or> hls_body (uri_path u) = None"
    and "hls_url p = get_url u"
  shows "\<exists>w'. hls_ping net p w = Some (if hls_body (uri_path u) = None
      then err_other ''unexpected HTTP status: HTTP/1.1 404 Not Found'' else Ok (), w')"
proof -
  let ?rx = "net_regex net" and ?get = "plan_get (net_regex net) (server_name_error net) hls_serve"
  have dom: "uri_domain u \<noteq> []" using assms(4) by (simp add: wf_uri_def)
  have u: "get_uri ?rx (get_url u) = Ok u"
    using regex_engine.get_uri_eq [OF assms(3,5)] scan_uri_get_url [OF assms(4)] by simp
  have get: "?get (get_url u) None = (case hls_body (uri_path u) of
       None \<Rightarrow> err_other ''unexpected HTTP status: HTTP/1.1 404 Not Found'' | Some body \<Rightarrow> Ok (bytes_of body))"
    using plan_get_served [OF u assms(6,9,11,7) dom, of None] assms(8,10) by (cases "hls_body (uri_path u)") simp_all
  have "plan_ping ?rx ?get (get_url u) =
      (if hls_body (uri_path u) = None then err_other ''unexpected HTTP status: HTTP/1.1 404 Not Found'' else Ok ())"
    using assms(12)
  proof (elim disjE)
    assume path: "uri_path u = ''/playlist.m3u8''"
    show ?thesis
      using get media_served [OF assms(3,4,5) u path assms(6-8), of "server_name_error net"]
      by (auto simp: plan_ping_def plan_media_def path bodies playlist_utf8 lines_playlist playlist_urls)
  next
    assume path: "uri_path u = ''/master.m3u8''"
    let ?v = "on_server u ''/playlist.m3u8''"
    obtain s where s: "resolve_relative ?rx (get_url u) ''playlist.m3u8'' = Ok s" "get_uri ?rx s = Ok ?v"
      using resolve_on_server [OF assms(3,4,5) u paths_ok(8,9)] unfolding path joins by auto
    have v: "wf_uri ?v" "ascii (get_url ?v)"
      using on_server_wf [OF assms(4,5) _ paths_ok(5,4)] by simp_all
    have "?get s None = Ok (bytes_of hls_playlist)"
      using plan_get_served [OF s(2), of None "server_name_error net"] assms(6-8) dom paths_ok(2) by (simp add: bodies)
    moreover obtain s2 where "resolve_relative ?rx s ''segment0.ts'' = Ok s2" "?get s2 (Some ''bytes=0-0'') = Ok (bytes_of ''F'')"
      using media_served [OF assms(3) v s(2), of "server_name_error net"] assms(6-8) by auto
    ultimately show ?thesis
      using get s(1) by (simp add: plan_ping_def plan_media_def path bodies playlist_utf8 lines_master playlist_urls)
  next
    assume "hls_body (uri_path u) = None"
    then show ?thesis using get by (simp add: plan_ping_def)
  qed
  then show ?thesis
    using hls_ping_refines_plan_fact [OF assms(1,2), of p w] assms(13) by simp
qed

definition master_uri :: URI where
  "master_uri = default_uri\<lparr>uri_scheme := ''http'', uri_host := ''srv'', uri_domain := ''srv'', uri_path := ''/master.m3u8''\<rparr>"

lemma hls_ping_meets_server_witness:
  "\<exists>w'. hls_ping (serving hls_serve) (HlsPinger_new (get_url master_uri)) (lab_start []) = Some (Ok (), w')"
proof -
  have 1: "wf_uri master_uri" "ascii (get_url master_uri)" "to_ascii_lowercase (uri_scheme master_uri) = ''http''"
    by code_simp+
  have 2: "list_all graphic (uri_domain master_uri)" "length (uri_domain master_uri) \<le> 500" "list_all graphic (uri_path master_uri)"
      "length (uri_path master_uri) \<le> 200" "uri_path master_uri \<noteq> []" "uri_path master_uri = ''/master.m3u8''"
    by (simp_all add: master_uri_def graphic_def)
  have rx: "regex_engine (net_regex (serving hls_serve))" using reference_engine.regex_engine_axioms by simp
  show ?thesis
    using hls_ping_meets_server [OF serving_lab.request_server_axioms serving_simps(2) rx 1 2(1-5), of "HlsPinger_new (get_url master_uri)" "lab_start []"]
    by (simp add: 2(6) bodies HlsPinger_new_def)
qed

end
