(* ===== verification/WebSocket.thy ===== *)
theory WebSocket
  imports Lab
begin

text \<open>
  \<open>zpinger/src/websocket.rs\<close>: the WebSocket ping. The RFC 6455 implementation is the tungstenite
  crate, a parameter; the loop that waits for the pong, and answers the server's own pings meanwhile,
  is the pinger's.
\<close>

section \<open>tungstenite\<close>

record close_frame =
  close_code :: u16
  close_reason :: string

datatype message =
    Message_Text string
  | Message_Binary bytes
  | Message_Ping bytes
  | Message_Pong bytes
  | Message_Close "close_frame option"
  | Message_Frame bytes

text \<open>\<open>tungstenite::Error\<close>: an IO error, or anything else with its \<open>Display\<close> text.\<close>

datatype ws_error = E_Io io_error | E_Other string

type_synonym ('w, 'a) ws_call = "'w \<Rightarrow> ((ws_error + 'a) \<times> 'w) option"

text \<open>\<open>'s\<close> is an upgraded \<open>WebSocketStream\<close>.\<close>

record ('w, 'h, 's) tungstenite =
  client_async :: "string \<Rightarrow> 'h \<Rightarrow> ('w, 's) ws_call"
  ws_send :: "'s \<Rightarrow> message \<Rightarrow> ('w, unit) ws_call"
  ws_next :: "'s \<Rightarrow> 'w \<Rightarrow> ((ws_error + message) option \<times> 'w) option"
  ws_close :: "'s \<Rightarrow> close_frame option \<Rightarrow> ('w, unit) ws_call"
  close_debug :: "close_frame option \<Rightarrow> string"

section \<open>Definitions\<close>

record 'c WebSocketPinger =
  ws_target :: string
  ws_timeout :: duration
  ws_tls_config :: "'c option"

definition WebSocketPinger_new :: "string \<Rightarrow> 'c WebSocketPinger" where
  "WebSocketPinger_new target = \<lparr>ws_target = target, ws_timeout = from_secs 5, ws_tls_config = None\<rparr>"

definition WebSocketPinger_with_timeout :: "'c WebSocketPinger \<Rightarrow> duration \<Rightarrow> 'c WebSocketPinger" where
  "WebSocketPinger_with_timeout self t = self\<lparr>ws_timeout := t\<rparr>"

definition WebSocketPinger_with_tls_config :: "'c WebSocketPinger \<Rightarrow> 'c \<Rightarrow> 'c WebSocketPinger" where
  "WebSocketPinger_with_tls_config self config = self\<lparr>ws_tls_config := Some config\<rparr>"

fun tungstenite_err :: "ws_error \<Rightarrow> io_error" where
  "tungstenite_err (E_Io e) = e"
| "tungstenite_err (E_Other s) = IoError Other s"

text \<open>\<open>.await.map_err(tungstenite_err)\<close>.\<close>

definition ws_io :: "('w, 'a) ws_call \<Rightarrow> ('w, 'a) io" where
  "ws_io call w = Option.bind (call w) (\<lambda>(r, w'). case r of
       Inl e \<Rightarrow> Some (Err (tungstenite_err e), w')
     | Inr x \<Rightarrow> Some (Ok x, w'))"

partial_function (option) await_pong :: "('w, 'h, 's) tungstenite \<Rightarrow> 's \<Rightarrow> ('w, unit) io" where
  "await_pong t ws w =
     Option.bind (ws_next t ws w) (\<lambda>(item, w').
       case item of
         None \<Rightarrow> Some (err_other ''stream ended before pong'', w')
       | Some (Inl e) \<Rightarrow> Some (Err (tungstenite_err e), w')
       | Some (Inr m) \<Rightarrow>
           (case m of
              Message_Pong _ \<Rightarrow> Some (Ok (), w')
            | Message_Ping payload \<Rightarrow>
                io_bind (ws_io (ws_send t ws (Message_Pong payload))) (\<lambda>_. await_pong t ws) w'
            | Message_Text _ \<Rightarrow> await_pong t ws w'
            | Message_Binary _ \<Rightarrow> await_pong t ws w'
            | Message_Frame _ \<Rightarrow> await_pong t ws w'
            | Message_Close frame \<Rightarrow>
                Some (err_other (''server closed before pong: '' @ close_debug t frame), w')))"

text \<open>The result of the closing handshake is dropped.\<close>

definition run_handshake_and_ping :: "('w, 'h, 's) tungstenite \<Rightarrow> string \<Rightarrow> 'h \<Rightarrow> ('w, unit) io" where
  "run_handshake_and_ping t target stream =
     io_bind (ws_io (client_async t target stream)) (\<lambda>ws.
     io_bind (ws_io (ws_send t ws (Message_Ping []))) (\<lambda>_.
     io_bind (await_pong t ws) (\<lambda>_ w.
     Option.bind (ws_close t ws None w) (\<lambda>(_, w'). Some (Ok (), w')))))"

definition ws_endpoint_for :: "URI \<Rightarrow> u16 \<Rightarrow> string result" where
  "ws_endpoint_for uri default_port =
     (if uri_domain uri = [] then err_invalid ''missing host in target URL''
      else
        (let port = (if 0 < uri_port uri then as_u16 (uri_port uri) else default_port)
         in Ok (uri_domain uri @ '':'' @ dec (unat port))))"

definition ws_ping_plain :: "('w, 'h, 'c) net \<Rightarrow> ('w, 'h, 's) tungstenite \<Rightarrow> 'c WebSocketPinger \<Rightarrow> URI \<Rightarrow> ('w, unit) io" where
  "ws_ping_plain net t self uri =
     io_bind (io_lift (ws_endpoint_for uri 80)) (\<lambda>endpoint.
       with_timeout net (ws_timeout self)
         (io_bind (tcp_connect net endpoint) (\<lambda>tcp.
          run_handshake_and_ping t (ws_target self) tcp)))"

definition ws_ping_tls :: "('w, 'h, 'c) net \<Rightarrow> ('w, 'h, 's) tungstenite \<Rightarrow> 'c WebSocketPinger \<Rightarrow> URI \<Rightarrow> ('w, unit) io" where
  "ws_ping_tls net t self uri =
     io_bind (io_lift (ws_endpoint_for uri 443)) (\<lambda>endpoint.
       case server_name_error net (uri_domain uri) of
         Some e \<Rightarrow> io_err (IoError InvalidInput e)
       | None \<Rightarrow>
           (let config = (case ws_tls_config self of Some c \<Rightarrow> c | None \<Rightarrow> default_client_config net)
            in with_timeout net (ws_timeout self)
                 (io_bind (tcp_connect net endpoint) (\<lambda>tcp.
                  io_bind (tls_connect net config (uri_domain uri) tcp) (\<lambda>stream.
                  run_handshake_and_ping t (ws_target self) stream)))))"

definition ws_ping :: "('w, 'h, 'c) net \<Rightarrow> ('w, 'h, 's) tungstenite \<Rightarrow> 'c WebSocketPinger \<Rightarrow> ('w, unit) io" where
  "ws_ping net t self =
     io_bind (io_lift (get_uri (net_regex net) (ws_target self))) (\<lambda>uri.
       let scheme = to_ascii_lowercase (uri_scheme uri)
       in if scheme = ''ws'' then ws_ping_plain net t self uri
          else if scheme = ''wss'' then ws_ping_tls net t self uri
          else io_err (IoError Other (''scheme '' @ [CHR 0x27] @ scheme @ [CHR 0x27]
                 @ '' is not supported by WebSocketPinger (use ws:// or wss://)'')))"

interpretation ws_addr: dial_address "\<lambda>rx s. bind_r (get_uri rx s) (\<lambda>uri. ws_endpoint_for uri default_port)"
    "\<lambda>_. default_port" for default_port
  by unfold_locales (auto simp: ws_endpoint_for_def Let_def)

section \<open>The peer\<close>

text \<open>
  A WebSocket peer: any connection upgrades, the items it delivers are \<open>events\<close> and then the end of
  the stream, and \<open>log\<close> holds the messages the client sent. Closing may fail.
\<close>

locale ws_peer =
  fixes net :: "('w, 'h, 'c) net" and t :: "('w, 'h, 's) tungstenite"
    and events :: "'w \<Rightarrow> (ws_error + message) list" and log :: "'w \<Rightarrow> message list"
  assumes tcp_ok: "\<exists>h w'. tcp_connect net a w = Some (Ok h, w') \<and> events w' = events w \<and> log w' = log w"
    and tls_ok: "\<exists>h' w'. tls_connect net c n h w = Some (Ok h', w') \<and> events w' = events w \<and> log w' = log w"
    and upgrade_ok: "\<exists>s w'. client_async t target h w = Some (Inr s, w') \<and> events w' = events w \<and> log w' = log w"
    and next_event: "events w = e # es \<Longrightarrow> \<exists>w'. ws_next t s w = Some (Some e, w') \<and> events w' = es \<and> log w' = log w"
    and next_end: "events w = [] \<Longrightarrow> \<exists>w'. ws_next t s w = Some (None, w') \<and> log w' = log w"
    and send_ok: "\<exists>w'. ws_send t s m w = Some (Inr (), w') \<and> events w' = events w \<and> log w' = log w @ [m]"
    and close_ok: "\<exists>r w'. ws_close t s f w = Some (r, w') \<and> log w' = log w @ [Message_Close f]"

text \<open>What the loop passes over, what it answers meanwhile, and what the first other item means.\<close>

fun passed_over :: "ws_error + message \<Rightarrow> bool" where
  "passed_over (Inr (Message_Pong _)) = False"
| "passed_over (Inr (Message_Close _)) = False"
| "passed_over (Inr _) = True"
| "passed_over (Inl _) = False"

definition pongs :: "(ws_error + message) list \<Rightarrow> message list" where
  "pongs es = [Message_Pong p. Inr (Message_Ping p) \<leftarrow> es]"

fun decided :: "(close_frame option \<Rightarrow> string) \<Rightarrow> (ws_error + message) list \<Rightarrow> unit result" where
  "decided dbg [] = err_other ''stream ended before pong''"
| "decided dbg (Inl e # _) = Err (tungstenite_err e)"
| "decided dbg (Inr (Message_Close f) # _) = err_other (''server closed before pong: '' @ dbg f)"
| "decided dbg (Inr _ # _) = Ok ()"

definition await_spec :: "(close_frame option \<Rightarrow> string) \<Rightarrow> (ws_error + message) list \<Rightarrow> unit result \<times> message list" where
  "await_spec dbg es = (decided dbg (dropWhile passed_over es), pongs (takeWhile passed_over es))"

lemma await_spec_pass: "passed_over e \<Longrightarrow>
    await_spec dbg (e # es) = (fst (await_spec dbg es), pongs [e] @ snd (await_spec dbg es))"
  by (simp add: await_spec_def pongs_def)

context ws_peer
begin

lemma ws_io_send: "\<exists>w'. ws_io (ws_send t s m) w = Some (Ok (), w') \<and> events w' = events w \<and> log w' = log w @ [m]"
  using send_ok [of s m w] by (auto simp: ws_io_def)

lemma ws_io_upgrade:
  "\<exists>s w'. ws_io (client_async t target h) w = Some (Ok s, w') \<and> events w' = events w \<and> log w' = log w"
proof -
  obtain s w' where "client_async t target h w = Some (Inr s, w')" "events w' = events w" "log w' = log w"
    using upgrade_ok [of target h w] by blast
  then show ?thesis by (simp add: ws_io_def)
qed

text \<open>The loop ends on every finite run of items.\<close>

lemma await_outcome:
  "events w = es \<Longrightarrow> \<exists>w'. await_pong t s w = Some (fst (await_spec (close_debug t) es), w') \<and>
     log w' = log w @ snd (await_spec (close_debug t) es)"
proof (induction es arbitrary: w)
  case Nil
  then obtain w1 where "ws_next t s w = Some (None, w1)" "log w1 = log w" using next_end [of w s] by auto
  then show ?case by (simp add: await_pong.simps await_spec_def pongs_def)
next
  case (Cons e es)
  obtain w1 where 1: "ws_next t s w = Some (Some e, w1)" "events w1 = es" "log w1 = log w"
    using next_event [OF Cons.prems, of s] by blast
  show ?case
  proof (cases "passed_over e")
    case False
    then show ?thesis using 1 by (cases e rule: passed_over.cases) (simp_all add: await_pong.simps await_spec_def pongs_def)
  next
    case True
    show ?thesis
    proof (cases "\<exists>p. e = Inr (Message_Ping p)")
      case False
      with True have "await_pong t s w = await_pong t s w1" "pongs [e] = []"
        using 1 by (cases e rule: passed_over.cases; simp add: await_pong.simps [of t s w] pongs_def)+
      then show ?thesis using Cons.IH [OF 1(2)] 1(3) by (simp add: await_spec_pass [OF True])
    next
      case ping: True
      then obtain p where p: "e = Inr (Message_Ping p)" by blast
      obtain w2 where 2: "ws_io (ws_send t s (Message_Pong p)) w1 = Some (Ok (), w2)" "events w2 = es"
          "log w2 = log w @ [Message_Pong p]"
        using ws_io_send [of s "Message_Pong p" w1] 1 by auto
      have "await_pong t s w = await_pong t s w2" using 1 2 by (simp add: await_pong.simps [of t s w] p io_bind_Ok)
      moreover have "pongs [e] = [Message_Pong p]" by (simp add: p pongs_def)
      ultimately show ?thesis using Cons.IH [OF 2(2)] 2(3) by (simp add: await_spec_pass [OF True])
    qed
  qed
qed

definition session_log :: "(ws_error + message) list \<Rightarrow> message list" where
  "session_log es = Message_Ping [] # snd (await_spec (close_debug t) es) @
     (if is_ok (fst (await_spec (close_debug t) es)) then [Message_Close None] else [])"

lemma handshake_outcome:
  "\<exists>w'. run_handshake_and_ping t target h w = Some (fst (await_spec (close_debug t) (events w)), w') \<and>
     log w' = log w @ session_log (events w)"
proof -
  let ?spec = "await_spec (close_debug t) (events w)"
  obtain s w1 where 1: "ws_io (client_async t target h) w = Some (Ok s, w1)" "events w1 = events w" "log w1 = log w"
    using ws_io_upgrade by blast
  obtain w2 where 2: "ws_io (ws_send t s (Message_Ping [])) w1 = Some (Ok (), w2)" "events w2 = events w"
      "log w2 = log w @ [Message_Ping []]"
    using ws_io_send [of s "Message_Ping []" w1] 1 by auto
  obtain w3 where 3: "await_pong t s w2 = Some (fst ?spec, w3)" "log w3 = log w @ Message_Ping [] # snd ?spec"
    using await_outcome [OF 2(2), of s] 2(3) by auto
  obtain r w4 where 4: "ws_close t s None w3 = Some (r, w4)" "log w4 = log w3 @ [Message_Close None]"
    using close_ok [of s None w3] by blast
  show ?thesis
    using 1 2 3 4 by (cases "fst ?spec") (auto simp: run_handshake_and_ping_def io_bind_def session_log_def)
qed

end

section \<open>A concrete peer\<close>

record ws_world =
  ws_events :: "(ws_error + message) list"
  ws_log :: "message list"

definition ws_net :: "(ws_world, unit, unit) net" where
  "ws_net = \<lparr>
     st_read = (\<lambda>_ _. io_ok []), st_read_exact = (\<lambda>_ _. io_ok []), st_write_all = (\<lambda>_ _. io_ok ()),
     net_regex = first_match,
     udp_bind = (\<lambda>_. io_ok ()), udp_connect = (\<lambda>_ _. io_ok ()),
     udp_send = (\<lambda>_ d. io_ok (length d)), udp_recv = (\<lambda>_ _ _. None),
     tcp_connect = (\<lambda>_. io_ok ()),
     server_name_error = (\<lambda>s. if s = [] then Some ''invalid dns name'' else None),
     default_client_config = (), tls_connect = (\<lambda>_ _ h. io_ok h),
     tokio_timeout = (\<lambda>d fut w. case fut w of Some (r, w') \<Rightarrow> (Some r, w') | None \<Rightarrow> (None, w)),
     lookup_host = (\<lambda>_. io_ok []), system_time = (\<lambda>_. Some (1700000000, 5)), instant_now = (\<lambda>_. 0),
     str_debug = (\<lambda>s. CHR 0x22 # s @ [CHR 0x22])\<rparr>"

definition ws_script :: "(ws_world, unit, unit) tungstenite" where
  "ws_script = \<lparr>
     client_async = (\<lambda>_ _ w. Some (Inr (), w)),
     ws_send = (\<lambda>_ m w. Some (Inr (), w\<lparr>ws_log := ws_log w @ [m]\<rparr>)),
     ws_next = (\<lambda>_ w. case ws_events w of [] \<Rightarrow> Some (None, w) | e # es \<Rightarrow> Some (Some e, w\<lparr>ws_events := es\<rparr>)),
     ws_close = (\<lambda>_ f w. Some (Inr (), w\<lparr>ws_log := ws_log w @ [Message_Close f]\<rparr>)),
     close_debug = (\<lambda>f. case f of None \<Rightarrow> ''None'' | Some _ \<Rightarrow> ''Some(..)'')\<rparr>"

interpretation ws_scripted: ws_peer ws_net ws_script ws_events ws_log
  by unfold_locales (auto simp: ws_net_def ws_script_def)

lemma ws_ping_outcome_fact:
  assumes "ws_peer net t events log" and "prompt net"
    and "get_uri (net_regex net) (ws_target p) = Ok uri" and "uri_domain uri \<noteq> []"
    and "to_ascii_lowercase (uri_scheme uri) = (if tls then ''wss'' else ''ws'')"
    and "tls \<Longrightarrow> server_name_error net (uri_domain uri) = None"
  shows "\<exists>w'. ws_ping net t p w = Some (decided (close_debug t) (dropWhile passed_over (events w)), w') \<and>
    log w' = log w @ [Message_Ping []] @ pongs (takeWhile passed_over (events w)) @
      (if is_ok (decided (close_debug t) (dropWhile passed_over (events w))) then [Message_Close None] else [])"
proof -
  let ?spec = "await_spec (close_debug t) (events w)"
  let ?done = "\<lambda>w'. log w' = log w @ ws_peer.session_log t (events w)"
  obtain ep where ep: "ws_endpoint_for uri (if tls then 443 else 80) = Ok ep"
    using assms(4) by (simp add: ws_endpoint_for_def Let_def)
  obtain h w1 where 1: "tcp_connect net ep w = Some (Ok h, w1)" "events w1 = events w" "log w1 = log w"
    using ws_peer.tcp_ok [OF assms(1), of ep w] by blast
  have "\<exists>w'. ws_ping net t p w = Some (fst ?spec, w') \<and> ?done w'"
  proof (cases tls)
    case False
    obtain w2 where 2: "run_handshake_and_ping t (ws_target p) h w1 = Some (fst ?spec, w2)" "?done w2"
      using ws_peer.handshake_outcome [OF assms(1), of "ws_target p" h w1] 1 by auto
    let ?fut = "io_bind (tcp_connect net ep) (\<lambda>tcp. run_handshake_and_ping t (ws_target p) tcp)"
    have "?fut w = Some (fst ?spec, w2)" using 1 2 by (simp add: io_bind_Ok)
    then show ?thesis
      using 2 ep False assms(3,5) with_timeout_prompt [OF assms(2), of ?fut w]
      by (simp add: ws_ping_def ws_ping_plain_def)
  next
    case True
    let ?c = "case ws_tls_config p of Some c \<Rightarrow> c | None \<Rightarrow> default_client_config net"
    obtain h' w2 where 2: "tls_connect net ?c (uri_domain uri) h w1 = Some (Ok h', w2)" "events w2 = events w" "log w2 = log w"
      using ws_peer.tls_ok [OF assms(1), of ?c "uri_domain uri" h w1] 1 by auto
    obtain w3 where 3: "run_handshake_and_ping t (ws_target p) h' w2 = Some (fst ?spec, w3)" "?done w3"
      using ws_peer.handshake_outcome [OF assms(1), of "ws_target p" h' w2] 2 by auto
    let ?fut = "io_bind (tcp_connect net ep) (\<lambda>tcp. io_bind (tls_connect net ?c (uri_domain uri) tcp)
        (\<lambda>stream. run_handshake_and_ping t (ws_target p) stream))"
    have "?fut w = Some (fst ?spec, w3)" using 1 2 3 by (simp add: io_bind_Ok)
    then show ?thesis
      using 3 ep True assms(3,5,6) with_timeout_prompt [OF assms(2), of ?fut w]
      by (simp add: ws_ping_def ws_ping_tls_def)
  qed
  then show ?thesis
    by (simp add: ws_peer.session_log_def [OF assms(1)] await_spec_def)
qed

section \<open>Properties\<close>

text \<open>
  C37. WebSocket ping. For a ws or wss target with a host, whatever the peer sends, the ping resolves:
  it sends one empty ping, answers every ping that arrives with a pong of the same payload, passes
  over text, binary and raw frames, and the first pong, close, error or end of the stream decides;
  only after a pong does it close the connection.
\<close>

theorem ws_ping_outcome:
  assumes "ws_peer net t events log" and "prompt net"
    and "get_uri (net_regex net) (ws_target p) = Ok uri" and "uri_domain uri \<noteq> []"
    and "to_ascii_lowercase (uri_scheme uri) = (if tls then ''wss'' else ''ws'')"
    and "tls \<Longrightarrow> server_name_error net (uri_domain uri) = None"
  shows "\<exists>w'. ws_ping net t p w = Some (decided (close_debug t) (dropWhile passed_over (events w)), w') \<and>
    log w' = log w @ [Message_Ping []] @ pongs (takeWhile passed_over (events w)) @
      (if is_ok (decided (close_debug t) (dropWhile passed_over (events w))) then [Message_Close None] else [])"
  using assms by (rule ws_ping_outcome_fact)

lemma ws_target_lab: "get_uri first_match ''ws://srv'' =
    Ok (default_uri\<lparr>uri_scheme := ''ws'', uri_host := ''srv'', uri_domain := ''srv'', uri_path := []\<rparr>)"
proof -
  have a: "ascii ''ws://srv''" by code_simp
  show ?thesis unfolding get_uri_lab [OF a] by code_simp
qed

lemma ws_ping_outcome_witness:
  "\<exists>w'. ws_ping ws_net ws_script (WebSocketPinger_new ''ws://srv'')
     \<lparr>ws_events = [Inr (Message_Text ''hi''), Inr (Message_Ping [7]), Inr (Message_Pong [])], ws_log = []\<rparr> = Some (Ok (), w') \<and>
   ws_log w' = [Message_Ping [], Message_Pong [7], Message_Close None]"
proof -
  let ?w = "\<lparr>ws_events = [Inr (Message_Text ''hi''), Inr (Message_Ping [7]), Inr (Message_Pong [])], ws_log = []\<rparr>"
  have pr: "prompt ws_net" by (simp add: prompt_def ws_net_def split: option.split)
  have u: "get_uri (net_regex ws_net) (ws_target (WebSocketPinger_new ''ws://srv'')) =
      Ok (default_uri\<lparr>uri_scheme := ''ws'', uri_host := ''srv'', uri_domain := ''srv'', uri_path := []\<rparr>)"
    by (simp add: ws_net_def WebSocketPinger_new_def ws_target_lab)
  show ?thesis
    using ws_ping_outcome [OF ws_scripted.ws_peer_axioms pr u, of False ?w]
    by (simp add: pongs_def to_ascii_lowercase_def to_lower_def)
qed

end
