(* ===== verification/Mqtt.thy ===== *)
theory Mqtt
  imports Lab
begin

text \<open>
  \<open>zpinger/src/mqtt.rs\<close>: the variable-length integers, CONNECT, the packet reader, the validators,
  the session and the ping; the session's outcome as a function of the bytes the broker sends.
\<close>

section \<open>Definitions\<close>

abbreviation DEFAULT_PORT_PLAIN :: u16 where "DEFAULT_PORT_PLAIN \<equiv> 1883"
abbreviation DEFAULT_PORT_TLS :: u16 where "DEFAULT_PORT_TLS \<equiv> 8883"
abbreviation DEFAULT_KEEPALIVE :: u16 where "DEFAULT_KEEPALIVE \<equiv> 60"
abbreviation TYPE_CONNECT :: u8 where "TYPE_CONNECT \<equiv> 0x10"
abbreviation TYPE_CONNACK :: u8 where "TYPE_CONNACK \<equiv> 0x20"
abbreviation TYPE_PINGREQ :: u8 where "TYPE_PINGREQ \<equiv> 0xC0"
abbreviation TYPE_PINGRESP :: u8 where "TYPE_PINGRESP \<equiv> 0xD0"
abbreviation TYPE_DISCONNECT :: u8 where "TYPE_DISCONNECT \<equiv> 0xE0"
abbreviation CONNECT_FLAGS_CLEAN_SESSION :: u8 where "CONNECT_FLAGS_CLEAN_SESSION \<equiv> 0x02"

datatype MqttVersion = V3_1_1 | V5

fun protocol_level :: "MqttVersion \<Rightarrow> u8" where
  "protocol_level V3_1_1 = 4"
| "protocol_level V5 = 5"

record 'c MqttPinger =
  mqtt_server :: string
  mqtt_client_id :: "string option"
  mqtt_keepalive :: u16
  mqtt_timeout :: duration
  mqtt_version :: MqttVersion
  mqtt_tls_config :: "'c option"

definition MqttPinger_new :: "string \<Rightarrow> 'c MqttPinger" where
  "MqttPinger_new server =
     \<lparr>mqtt_server = server, mqtt_client_id = None, mqtt_keepalive = DEFAULT_KEEPALIVE,
      mqtt_timeout = from_secs 5, mqtt_version = V3_1_1, mqtt_tls_config = None\<rparr>"

definition MqttPinger_with_client_id :: "'c MqttPinger \<Rightarrow> string \<Rightarrow> 'c MqttPinger" where
  "MqttPinger_with_client_id self client_id = self\<lparr>mqtt_client_id := Some client_id\<rparr>"

definition MqttPinger_with_keepalive :: "'c MqttPinger \<Rightarrow> u16 \<Rightarrow> 'c MqttPinger" where
  "MqttPinger_with_keepalive self keepalive = self\<lparr>mqtt_keepalive := keepalive\<rparr>"

definition MqttPinger_with_timeout :: "'c MqttPinger \<Rightarrow> duration \<Rightarrow> 'c MqttPinger" where
  "MqttPinger_with_timeout self t = self\<lparr>mqtt_timeout := t\<rparr>"

definition MqttPinger_with_version :: "'c MqttPinger \<Rightarrow> MqttVersion \<Rightarrow> 'c MqttPinger" where
  "MqttPinger_with_version self version = self\<lparr>mqtt_version := version\<rparr>"

definition MqttPinger_with_tls_config :: "'c MqttPinger \<Rightarrow> 'c \<Rightarrow> 'c MqttPinger" where
  "MqttPinger_with_tls_config self config = self\<lparr>mqtt_tls_config := Some config\<rparr>"

definition mqtt_endpoint_for :: "URI \<Rightarrow> u16 \<Rightarrow> string result" where
  "mqtt_endpoint_for uri default_port =
     (if uri_domain uri = [] then err_invalid ''missing host in MQTT broker URL''
      else
        (let port = (if 0 < uri_port uri then as_u16 (uri_port uri) else default_port)
         in Ok (uri_domain uri @ '':'' @ dec (unat port))))"

definition default_client_id :: "(nat \<times> nat) option \<Rightarrow> string" where
  "default_client_id now =
     (let nanos = (case now of Some (s, ns) \<Rightarrow> of_nat ns | None \<Rightarrow> 0)
      in ''knockknock-'' @ pad0 8 (hex (unat (nanos :: u32))))"

record MqttPacket =
  packet_type :: u8
  packet_body :: bytes

function encode_varint :: "nat \<Rightarrow> bytes" where
  "encode_varint value =
     (let byte = of_nat (value AND 0x7F) :: u8;
          rest = drop_bit 7 value
      in if rest > 0 then (byte OR 0x80) # encode_varint rest else [byte])"
  by pat_completeness auto
termination
  by (relation "measure id") (auto simp: drop_bit_eq_div Let_def)

declare encode_varint.simps [simp del]

definition build_connect :: "string \<Rightarrow> u16 \<Rightarrow> MqttVersion \<Rightarrow> bytes" where
  "build_connect client_id keepalive version =
     (let cid_bytes = bytes_of client_id;
          variable_header = be16 (of_nat (length ''MQTT'')) @ bytes_of ''MQTT''
            @ [protocol_level version, CONNECT_FLAGS_CLEAN_SESSION] @ be16 keepalive
            @ (if version = V5 then [0] else []);
          payload = be16 (of_nat (length cid_bytes)) @ cid_bytes;
          body_len = length variable_header + length payload;
          remaining = encode_varint body_len
      in [TYPE_CONNECT] @ remaining @ variable_header @ payload)"

definition saturating_mul :: "nat \<Rightarrow> nat \<Rightarrow> nat" where
  "saturating_mul a b = min (2 ^ 64 - 1) (a * b)"

text \<open>The loop \<open>for _ in 0..4\<close>, with the iterations left.\<close>

fun read_packet_loop :: "('w, 'h, 'z) stream_io_scheme \<Rightarrow> 'h \<Rightarrow> u8 \<Rightarrow> nat \<Rightarrow> nat \<Rightarrow> nat \<Rightarrow> ('w, MqttPacket) io" where
  "read_packet_loop io h ty 0 multiplier remaining =
     io_err (IoError Other ''MQTT remaining-length varint exceeds 4 bytes'')"
| "read_packet_loop io h ty (Suc k) multiplier remaining =
     io_bind (st_read_exact io h 1) (\<lambda>byte.
       let b = byte ! 0;
           remaining = remaining + unat (b AND 0x7F) * multiplier
       in if b AND 0x80 = 0
          then
            (if remaining > 0
             then io_bind (st_read_exact io h remaining) (\<lambda>body. io_ok \<lparr>packet_type = ty, packet_body = body\<rparr>)
             else io_ok \<lparr>packet_type = ty, packet_body = []\<rparr>)
          else read_packet_loop io h ty k (saturating_mul multiplier 128) remaining)"

definition read_packet :: "('w, 'h, 'z) stream_io_scheme \<Rightarrow> 'h \<Rightarrow> ('w, MqttPacket) io" where
  "read_packet io h =
     io_bind (st_read_exact io h 1) (\<lambda>header. read_packet_loop io h (header ! 0) 4 1 0)"

definition validate_connack :: "MqttPacket \<Rightarrow> unit result" where
  "validate_connack packet =
     (if packet_type packet AND 0xF0 \<noteq> TYPE_CONNACK
      then err_other (''expected CONNACK (0x20), got packet type '' @ hex_alt 0 (unat (packet_type packet)))
      else if length (packet_body packet) < 2
      then err_other ''CONNACK body shorter than 2 bytes (flags + return code)''
      else
        (let return_code = packet_body packet ! 1
         in if return_code \<noteq> 0
            then err_other (''broker rejected CONNECT with return code '' @ dec (unat return_code))
            else Ok ()))"

definition validate_pingresp :: "MqttPacket \<Rightarrow> unit result" where
  "validate_pingresp packet =
     (if packet_type packet AND 0xF0 \<noteq> TYPE_PINGRESP
      then err_other (''expected PINGRESP (0xD0), got packet type '' @ hex_alt 0 (unat (packet_type packet)))
      else if packet_body packet \<noteq> [] then err_other ''PINGRESP must carry no payload''
      else Ok ())"

definition run_session ::
  "('w, 'h, 'c) net \<Rightarrow> 'h \<Rightarrow> string option \<Rightarrow> u16 \<Rightarrow> MqttVersion \<Rightarrow> ('w, unit) io" where
  "run_session net stream client_id keepalive version w =
     (let cid = (case client_id of Some c \<Rightarrow> c | None \<Rightarrow> default_client_id (system_time net w));
          connect = build_connect cid keepalive version
      in io_bind (st_write_all net stream connect) (\<lambda>_.
         io_bind (read_packet net stream) (\<lambda>connack.
         io_bind (io_lift (validate_connack connack)) (\<lambda>_.
         io_bind (st_write_all net stream [TYPE_PINGREQ, 0x00]) (\<lambda>_.
         io_bind (read_packet net stream) (\<lambda>pingresp.
         io_bind (io_lift (validate_pingresp pingresp)) (\<lambda>_.
         io_catch (st_write_all net stream [TYPE_DISCONNECT, 0x00])
           (\<lambda>_. io_ok ()) (\<lambda>_. io_ok ()))))))) w)"

definition mqtt_ping_plain :: "('w, 'h, 'c) net \<Rightarrow> 'c MqttPinger \<Rightarrow> URI \<Rightarrow> ('w, unit) io" where
  "mqtt_ping_plain net self uri =
     io_bind (io_lift (mqtt_endpoint_for uri DEFAULT_PORT_PLAIN)) (\<lambda>endpoint.
       with_timeout net (mqtt_timeout self)
         (io_bind (tcp_connect net endpoint) (\<lambda>stream.
          run_session net stream (mqtt_client_id self) (mqtt_keepalive self) (mqtt_version self))))"

definition mqtt_ping_tls :: "('w, 'h, 'c) net \<Rightarrow> 'c MqttPinger \<Rightarrow> URI \<Rightarrow> ('w, unit) io" where
  "mqtt_ping_tls net self uri =
     io_bind (io_lift (mqtt_endpoint_for uri DEFAULT_PORT_TLS)) (\<lambda>endpoint.
       case server_name_error net (uri_domain uri) of
         Some e \<Rightarrow> io_err (IoError InvalidInput e)
       | None \<Rightarrow>
           (let config = (case mqtt_tls_config self of Some c \<Rightarrow> c | None \<Rightarrow> default_client_config net)
            in with_timeout net (mqtt_timeout self)
                 (io_bind (tcp_connect net endpoint) (\<lambda>tcp.
                  io_bind (tls_connect net config (uri_domain uri) tcp) (\<lambda>stream.
                  run_session net stream (mqtt_client_id self) (mqtt_keepalive self) (mqtt_version self))))))"

definition mqtt_ping :: "('w, 'h, 'c) net \<Rightarrow> 'c MqttPinger \<Rightarrow> ('w, unit) io" where
  "mqtt_ping net self =
     io_bind (io_lift (get_uri (net_regex net) (mqtt_server self))) (\<lambda>uri.
       let scheme = to_ascii_lowercase (uri_scheme uri)
       in if scheme = '''' \<or> scheme = ''mqtt'' then mqtt_ping_plain net self uri
          else if scheme = ''mqtts'' then mqtt_ping_tls net self uri
          else io_err (IoError Other (''scheme '' @ [CHR 0x27] @ scheme @ [CHR 0x27]
                 @ '' is not supported by MqttPinger (use mqtt:// or mqtts://)'')))"

section \<open>Variable-length integers\<close>

interpretation mqtt_addr: dial_address "\<lambda>rx s. bind_r (get_uri rx s) (\<lambda>uri. mqtt_endpoint_for uri default_port)"
    "\<lambda>_. default_port" for default_port
  by unfold_locales (auto simp: mqtt_endpoint_for_def Let_def)

lemma encode_varint_eq:
  "encode_varint n = (if n < 128 then [of_nat n] else (of_nat (n mod 128) OR 0x80) # encode_varint (n div 128))"
proof -
  have "n AND 0x7F = n mod 128"
    using take_bit_eq_mask [of 7 n] by (simp add: mask_eq_exp_minus_1 take_bit_eq_mod)
  moreover have "drop_bit 7 n = n div 128" by (simp add: drop_bit_eq_div)
  ultimately show ?thesis
    by (subst encode_varint.simps) (auto simp: Let_def div_greater_zero_iff)
qed

text \<open>The reader's view of a length: at most \<open>k\<close> more bytes.\<close>

fun parse_len :: "nat \<Rightarrow> nat \<Rightarrow> nat \<Rightarrow> bytes \<Rightarrow> (nat \<times> bytes) option" where
  "parse_len 0 m r s = None"
| "parse_len (Suc k) m r [] = None"
| "parse_len (Suc k) m r (b # s) =
     (let r = r + unat b mod 128 * m
      in if unat b < 128 then Some (r, s) else parse_len k (m * 128) r s)"

lemma parse_len_varint:
  "parse_len k m r (encode_varint n @ s) = (if k \<noteq> 0 \<and> n < 128 ^ k then Some (r + n * m, s) else None)"
proof (induction k arbitrary: m r n)
  case 0
  then show ?case by simp
next
  case (Suc k)
  show ?case
  proof (cases "n < 128")
    case True
    then have "n < 128 ^ Suc k" by (rule less_le_trans) simp
    with True show ?thesis by (subst encode_varint_eq) (simp add: unat_of_nat)
  next
    case False
    have top: "unat (of_nat (n mod 128) OR 0x80 :: u8) = n mod 128 + 128" by (rule set_top) simp
    have "n div 128 < 128 ^ k \<longleftrightarrow> n < 128 ^ Suc k" by (simp add: div_less_iff_less_mult mult.commute)
    moreover have "k \<noteq> 0" if "n < 128 ^ Suc k" using that False by (cases k) auto
    moreover have "r + n mod 128 * m + n div 128 * (m * 128) = r + n * m"
    proof -
      have "n * m = n div 128 * 128 * m + n mod 128 * m" by (metis div_mult_mod_eq distrib_right)
      then show ?thesis by (simp only: mult.assoc mult.commute [of m] add.commute)
    qed
    moreover have "encode_varint n @ s = (of_nat (n mod 128) OR 0x80) # (encode_varint (n div 128) @ s)"
      using False by (subst encode_varint_eq) simp
    moreover have "parse_len (Suc k) m r ((of_nat (n mod 128) OR 0x80) # (encode_varint (n div 128) @ s)) =
        parse_len k (m * 128) (r + n mod 128 * m) (encode_varint (n div 128) @ s)"
      by (simp add: top)
    ultimately show ?thesis
      unfolding Suc.IH by auto
  qed
qed

section \<open>Packets\<close>

definition parse_packet :: "bytes \<Rightarrow> (MqttPacket \<times> bytes) option" where
  "parse_packet s =
     (case s of [] \<Rightarrow> None
      | ty # s1 \<Rightarrow> (case parse_len 4 1 0 s1 of
          None \<Rightarrow> None
        | Some (n, s2) \<Rightarrow>
            if length s2 < n then None
            else Some (\<lparr>packet_type = ty, packet_body = take n s2\<rparr>, drop n s2)))"

definition packet_bytes :: "MqttPacket \<Rightarrow> bytes" where
  "packet_bytes p = packet_type p # encode_varint (length (packet_body p)) @ packet_body p"

lemma parse_packet_bytes:
  "parse_packet (packet_bytes p @ rest) = (if length (packet_body p) < 2 ^ 28 then Some (p, rest) else None)"
  by (simp add: parse_packet_def packet_bytes_def parse_len_varint)

context byte_stream
begin

lemma read_packet_loop_run:
  assumes "m * 128 ^ k < 2 ^ 64"
  shows "case parse_len k m r (incoming w) of
     None \<Rightarrow> \<exists>e w'. read_packet_loop io h ty k m r w = Some (Err e, w') \<and> outgoing w' = outgoing w
   | Some (n, s) \<Rightarrow>
       if length s < n then \<exists>e w'. read_packet_loop io h ty k m r w = Some (Err e, w') \<and> outgoing w' = outgoing w
       else \<exists>w'. read_packet_loop io h ty k m r w = Some (Ok \<lparr>packet_type = ty, packet_body = take n s\<rparr>, w') \<and>
              incoming w' = drop n s \<and> outgoing w' = outgoing w"
  using assms
proof (induction k arbitrary: m r w)
  case 0
  then show ?case by simp
next
  case (Suc k)
  show ?case
  proof (cases "incoming w")
    case Nil
    then show ?thesis
      using read_exact_eof [of w 1] by (auto simp: io_bind_def)
  next
    case (Cons b s)
    obtain w1 where 1: "st_read_exact io h 1 w = Some (Ok [b], w1)" "incoming w1 = s" "outgoing w1 = outgoing w"
      using read_exact_ok [of 1 w] by (auto simp: Cons)
    have sat: "saturating_mul m 128 = m * 128" "m * 128 * 128 ^ k < 2 ^ 64"
      using Suc.prems less_le_trans [of "m * 128" "2 ^ 64" "2 ^ 64"] le_less_trans [of "m * 128" "m * 128 * 128 ^ k" "2 ^ 64"]
      by (simp_all add: saturating_mul_def mult.assoc)
    let ?r = "r + unat b mod 128 * m"
    show ?thesis
    proof (cases "unat b < 128")
      case False
      then have run: "read_packet_loop io h ty (Suc k) m r w = read_packet_loop io h ty k (m * 128) ?r w1"
        by (simp add: io_bind_def 1 Let_def low7 top_bit sat(1) del: One_nat_def)
      have pars: "parse_len (Suc k) m r (incoming w) = parse_len k (m * 128) ?r (incoming w1)"
        using False by (simp add: Cons 1(2))
      show ?thesis
        using Suc.IH [OF sat(2), of ?r w1] unfolding run pars 1(3) .
    next
      case True
      have run: "read_packet_loop io h ty (Suc k) m r w = (if ?r > 0
             then io_bind (st_read_exact io h ?r) (\<lambda>body. io_ok \<lparr>packet_type = ty, packet_body = body\<rparr>)
             else io_ok \<lparr>packet_type = ty, packet_body = []\<rparr>) w1"
        using True by (simp add: io_bind_def 1 Let_def low7 top_bit del: One_nat_def)
      show ?thesis
        using True read_exact_eof [of w1 ?r] read_exact_ok [of ?r w1]
        unfolding run Cons by (auto simp: 1 io_bind_def Let_def)
    qed
  qed
qed

lemma read_packet_run:
  "case parse_packet (incoming w) of
     None \<Rightarrow> \<exists>e w'. read_packet io h w = Some (Err e, w') \<and> outgoing w' = outgoing w
   | Some (p, s) \<Rightarrow> \<exists>w'. read_packet io h w = Some (Ok p, w') \<and> incoming w' = s \<and> outgoing w' = outgoing w"
proof (cases "incoming w")
  case Nil
  then show ?thesis
    using read_exact_eof [of w 1] by (auto simp: parse_packet_def read_packet_def io_bind_def)
next
  case (Cons ty s)
  obtain w1 where 1: "st_read_exact io h 1 w = Some (Ok [ty], w1)" "incoming w1 = s" "outgoing w1 = outgoing w"
    using read_exact_ok [of 1 w] by (auto simp: Cons)
  have "read_packet io h w = read_packet_loop io h ty 4 1 0 w1"
    by (simp add: read_packet_def io_bind_def 1 del: One_nat_def)
  then show ?thesis
    using read_packet_loop_run [where m = 1 and k = 4 and r = 0 and w = w1 and ty = ty]
    by (auto simp: parse_packet_def Cons 1 split: option.splits prod.splits if_splits)
qed

end

section \<open>CONNECT\<close>

text \<open>
  A reader of CONNECT bodies (MQTT 3.1.1 and 5, 3.1): version, keep-alive, client identifier, and
  what is left after the fields.
\<close>

definition parse_connect :: "bytes \<Rightarrow> (MqttVersion \<times> u16 \<times> string \<times> bytes) option" where
  "parse_connect body =
     (case body of
        n1 # n2 # a # b # c # d # level # flags # k1 # k2 # s \<Rightarrow>
          if u16_of_be n1 n2 \<noteq> 4 \<or> chars_of [a, b, c, d] \<noteq> ''MQTT'' \<or> flags \<noteq> 2 then None
          else
            (case (if level = 4 then Some (V3_1_1, s)
                   else if level = 5 \<and> s \<noteq> [] \<and> hd s = 0 then Some (V5, tl s) else None) of
               Some (v, l1 # l2 # t) \<Rightarrow>
                 (let n = unat (u16_of_be l1 l2)
                  in Some (v, u16_of_be k1 k2, chars_of (take n t), drop n t))
             | _ \<Rightarrow> None)
      | _ \<Rightarrow> None)"

definition connect_body :: "string \<Rightarrow> u16 \<Rightarrow> MqttVersion \<Rightarrow> bytes" where
  "connect_body cid ka v =
     [0, 4] @ bytes_of ''MQTT'' @ [protocol_level v, 2] @ be16 ka @ (if v = V5 then [0] else []) @
     be16 (of_nat (length cid)) @ bytes_of cid"

lemma build_connect_eq:
  "build_connect cid ka v = packet_bytes \<lparr>packet_type = TYPE_CONNECT, packet_body = connect_body cid ka v\<rparr>"
  by (simp add: build_connect_def packet_bytes_def connect_body_def Let_def be16_def)

lemma length_connect_body: "length (connect_body cid ka v) = length cid + (if v = V5 then 13 else 12)"
  by (simp add: connect_body_def)

lemma parse_connect_body:
  "parse_connect (connect_body cid ka v) =
     Some (v, ka, take (length cid mod 65536) cid, bytes_of (drop (length cid mod 65536) cid))"
proof -
  have len: "unat (of_nat (length cid) :: u16) = length cid mod 65536" by (simp add: unat_of_nat)
  have tk: "chars_of (take n (bytes_of cid)) = take n cid" "drop n (bytes_of cid) = bytes_of (drop n cid)" for n
    by (simp_all add: bytes_of_def chars_of_def take_map drop_map o_def)
  have name: "chars_of (bytes_of ''MQTT'') = ''MQTT''" by (rule chars_of_bytes_of)
  then show ?thesis
    by (cases v) (simp_all add: connect_body_def parse_connect_def be16_def len tk Let_def u16_of_be_eq_iff)
qed

section \<open>The session\<close>

text \<open>CONNACK with return code 0, and PINGRESP, on the bytes.\<close>

definition connack_ok :: "MqttPacket \<Rightarrow> bool" where
  "connack_ok p \<longleftrightarrow> unat (packet_type p) div 16 = 2 \<and> 2 \<le> length (packet_body p) \<and> packet_body p ! 1 = 0"

definition pingresp_ok :: "MqttPacket \<Rightarrow> bool" where
  "pingresp_ok p \<longleftrightarrow> unat (packet_type p) div 16 = 13 \<and> packet_body p = []"

lemma validate_connack_iff: "validate_connack p = Ok () \<longleftrightarrow> connack_ok p"
  using high_nibble [of 2 "packet_type p"] by (auto simp: validate_connack_def connack_ok_def Let_def)

lemma validate_pingresp_iff: "validate_pingresp p = Ok () \<longleftrightarrow> pingresp_ok p"
  using high_nibble [of 13 "packet_type p"] by (auto simp: validate_pingresp_def pingresp_ok_def)

lemma validate_no_panic: "\<not> is_panic (validate_connack p)" "\<not> is_panic (validate_pingresp p)"
  by (auto simp: validate_connack_def validate_pingresp_def Let_def)

text \<open>
  What the session writes and whether it succeeds, as a function of the bytes the broker sends:
  the PINGREQ only follows a good CONNACK, the DISCONNECT only a good PINGRESP.
\<close>

definition broker_ok :: "bytes \<Rightarrow> nat" where
  "broker_ok s =
     (case parse_packet s of None \<Rightarrow> 0
      | Some (p, s1) \<Rightarrow> if \<not> connack_ok p then 0 else
          (case parse_packet s1 of None \<Rightarrow> 1
           | Some (q, s2) \<Rightarrow> if pingresp_ok q then 2 else 1))"

lemma broker_ok_2:
  assumes "connack_ok p" "pingresp_ok q" "length (packet_body p) < 2 ^ 28"
  shows "broker_ok (packet_bytes p @ packet_bytes q @ s) = 2"
  using assms by (simp add: broker_ok_def parse_packet_bytes pingresp_ok_def)

definition client_script :: "bytes \<Rightarrow> nat \<Rightarrow> bytes" where
  "client_script connect n =
     connect @ (if 1 \<le> n then [TYPE_PINGREQ, 0] else []) @ (if 2 \<le> n then [TYPE_DISCONNECT, 0] else [])"

definition session_spec :: "string option \<Rightarrow> u16 \<Rightarrow> MqttVersion \<Rightarrow> bytes \<Rightarrow> unit result \<Rightarrow> bytes \<Rightarrow> bool" where
  "session_spec cid ka v inp res out \<longleftrightarrow> \<not> is_panic res \<and> (res = Ok () \<longleftrightarrow> broker_ok inp = 2) \<and>
     (\<exists>c. (case cid of Some x \<Rightarrow> c = x | None \<Rightarrow> \<exists>now. c = default_client_id now) \<and>
          out = client_script (build_connect c ka v) (broker_ok inp))"

lemma not_Ok_unit: "\<not> is_panic r \<Longrightarrow> r \<noteq> Ok () \<Longrightarrow> \<exists>e. r = Err e"
  by (cases r) auto

context byte_stream
begin

lemma read_packet_none:
  "parse_packet (incoming w) = None \<Longrightarrow> \<exists>e w'. read_packet io h w = Some (Err e, w') \<and> outgoing w' = outgoing w"
  using read_packet_run [of w] by simp

lemma read_packet_some:
  "parse_packet (incoming w) = Some (p, s) \<Longrightarrow>
    \<exists>w'. read_packet io h w = Some (Ok p, w') \<and> incoming w' = s \<and> outgoing w' = outgoing w"
  using read_packet_run [of w] by simp

text \<open>The second half of the session, from the PINGREQ on.\<close>

lemma ping_half:
  "\<exists>res w'. io_bind (st_write_all io h [TYPE_PINGREQ, 0x00]) (\<lambda>_.
         io_bind (read_packet io h) (\<lambda>pingresp.
         io_bind (io_lift (validate_pingresp pingresp)) (\<lambda>_.
         io_catch (st_write_all io h [TYPE_DISCONNECT, 0x00]) (\<lambda>_. io_ok ()) (\<lambda>_. io_ok ())))) w = Some (res, w') \<and>
     \<not> is_panic res \<and>
     (if \<exists>q s. parse_packet (incoming w) = Some (q, s) \<and> pingresp_ok q
      then res = Ok () \<and> outgoing w' = outgoing w @ [TYPE_PINGREQ, 0] @ [TYPE_DISCONNECT, 0]
      else res \<noteq> Ok () \<and> outgoing w' = outgoing w @ [TYPE_PINGREQ, 0])" (is "\<exists>res w'. ?run w = _ \<and> _")
proof -
  obtain w1 where 1: "st_write_all io h [TYPE_PINGREQ, 0] w = Some (Ok (), w1)" "incoming w1 = incoming w"
      "outgoing w1 = outgoing w @ [TYPE_PINGREQ, 0]"
    using write_ok [of "[TYPE_PINGREQ, 0]" w] by blast
  have fin: ?thesis if "?run w = Some (res, w')" "\<not> is_panic res"
      "if \<exists>q s. parse_packet (incoming w) = Some (q, s) \<and> pingresp_ok q
       then res = Ok () \<and> outgoing w' = outgoing w @ [TYPE_PINGREQ, 0] @ [TYPE_DISCONNECT, 0]
       else res \<noteq> Ok () \<and> outgoing w' = outgoing w @ [TYPE_PINGREQ, 0]" for res w'
    using that by blast
  show ?thesis
  proof (cases "parse_packet (incoming w)")
    case None
    then obtain e w2 where "read_packet io h w1 = Some (Err e, w2)" "outgoing w2 = outgoing w1"
      using read_packet_none [of w1] 1 by auto
    then show ?thesis by (intro exI [of _ "Err e"] exI [of _ w2]) (simp add: io_bind_def 1 None)
  next
    case (Some qs)
    obtain q s where qs: "qs = (q, s)" by (cases qs)
    obtain w2 where 2: "read_packet io h w1 = Some (Ok q, w2)" "outgoing w2 = outgoing w1"
      using read_packet_some [of w1 q s] 1 Some qs by auto
    obtain w3 where 3: "st_write_all io h [TYPE_DISCONNECT, 0] w2 = Some (Ok (), w3)"
        "outgoing w3 = outgoing w2 @ [TYPE_DISCONNECT, 0]"
      using write_ok [of "[TYPE_DISCONNECT, 0]" w2] by blast
    show ?thesis
    proof (cases "pingresp_ok q")
      case True
      then have "validate_pingresp q = Ok ()" by (simp add: validate_pingresp_iff)
      then have "?run w = Some (Ok (), w3)" by (simp add: io_bind_def io_catch_def 1 2 3)
      moreover have "outgoing w3 = outgoing w @ [TYPE_PINGREQ, 0] @ [TYPE_DISCONNECT, 0]" by (simp add: 1 2 3)
      ultimately show ?thesis using True Some qs by (intro fin [of "Ok ()" w3]) simp_all
    next
      case False
      then obtain e where "validate_pingresp q = Err e"
        using not_Ok_unit [OF validate_no_panic(2) [of q]] by (auto simp: validate_pingresp_iff)
      then have "?run w = Some (Err e, w2)" by (simp add: io_bind_def 1 2)
      moreover have "outgoing w2 = outgoing w @ [TYPE_PINGREQ, 0]" by (simp add: 1 2)
      ultimately show ?thesis using False Some qs by (intro fin [of "Err e" w2]) simp_all
    qed
  qed
qed

end

context stream_peer
begin

lemma run_session_relay: "relay (\<lambda>stream. run_session net stream cid ka v) (session_spec cid ka v)"
  unfolding relay_def
proof (intro allI)
  fix h w
  define c where "c = (case cid of Some c \<Rightarrow> c | None \<Rightarrow> default_client_id (system_time net w))"
  have c: "case cid of Some x \<Rightarrow> c = x | None \<Rightarrow> \<exists>now. c = default_client_id now"
    by (auto simp: c_def split: option.split)
  define half where "half = io_bind (st_write_all net h [TYPE_PINGREQ, 0x00]) (\<lambda>_.
         io_bind (read_packet net h) (\<lambda>pingresp.
         io_bind (io_lift (validate_pingresp pingresp)) (\<lambda>_.
         io_catch (st_write_all net h [TYPE_DISCONNECT, 0x00]) (\<lambda>_. io_ok ()) (\<lambda>_. io_ok ()))))"
  have run: "run_session net h cid ka v w =
      io_bind (st_write_all net h (build_connect c ka v)) (\<lambda>_.
         io_bind (read_packet net h) (\<lambda>connack.
         io_bind (io_lift (validate_connack connack)) (\<lambda>_. half))) w"
    by (simp add: run_session_def c_def half_def Let_def)
  obtain w1 where 1: "st_write_all net h (build_connect c ka v) w = Some (Ok (), w1)" "incoming w1 = incoming w"
      "outgoing w1 = outgoing w @ build_connect c ka v"
    using peer_write [of h "build_connect c ka v" w] by blast
  have fin: "\<exists>res w'. run_session net h cid ka v w = Some (res, w') \<and>
      (\<exists>out. outgoing w' = outgoing w @ out \<and> session_spec cid ka v (incoming w) res out)"
    if "run_session net h cid ka v w = Some (res, w')" "outgoing w' = outgoing w @ client_script (build_connect c ka v) (broker_ok (incoming w))"
      "\<not> is_panic res" "res = Ok () \<longleftrightarrow> broker_ok (incoming w) = 2" for res w'
    using that c unfolding session_spec_def by blast
  show "\<exists>res w'. run_session net h cid ka v w = Some (res, w') \<and>
      (\<exists>out. outgoing w' = outgoing w @ out \<and> session_spec cid ka v (incoming w) res out)"
  proof (cases "parse_packet (incoming w)")
    case None
    then obtain e w2 where "read_packet net h w1 = Some (Err e, w2)" "outgoing w2 = outgoing w1"
      using byte_stream.read_packet_none [OF stream, where w = w1 and h = h] 1 by auto
    then show ?thesis
      using None 1 by (intro fin [of "Err e" w2]) (simp_all add: run io_bind_def broker_ok_def client_script_def)
  next
    case (Some ps)
    obtain p s where ps: "ps = (p, s)" by (cases ps)
    obtain w2 where 2: "read_packet net h w1 = Some (Ok p, w2)" "incoming w2 = s" "outgoing w2 = outgoing w1"
      using byte_stream.read_packet_some [OF stream, where w = w1 and h = h and p = p and s = s] 1 Some ps by auto
    show ?thesis
    proof (cases "connack_ok p")
      case False
      then obtain e where "validate_connack p = Err e"
        using not_Ok_unit [OF validate_no_panic(1) [of p]] by (auto simp: validate_connack_iff)
      then show ?thesis
        using Some ps False 1 2 by (intro fin [of "Err e" w2]) (simp_all add: run io_bind_def broker_ok_def client_script_def)
    next
      case True
      then have "validate_connack p = Ok ()" by (simp add: validate_connack_iff)
      then have run2: "run_session net h cid ka v w = half w2" by (simp add: run io_bind_def 1 2)
      obtain res w' where half: "half w2 = Some (res, w')" "\<not> is_panic res"
        "if \<exists>q s'. parse_packet s = Some (q, s') \<and> pingresp_ok q
         then res = Ok () \<and> outgoing w' = outgoing w2 @ [TYPE_PINGREQ, 0] @ [TYPE_DISCONNECT, 0]
         else res \<noteq> Ok () \<and> outgoing w' = outgoing w2 @ [TYPE_PINGREQ, 0]"
        using byte_stream.ping_half [OF stream, of h w2] unfolding half_def 2(2) by blast
      show ?thesis
        using half Some ps True 1 2
        by (intro fin [of res w']) (auto simp: run2 broker_ok_def client_script_def split: option.splits if_splits)
    qed
  qed
qed

end

section \<open>Properties\<close>

text \<open>
  C5. MQTT packets. Over any stream, however the network cuts it, the reader takes exactly one packet
  off the bytes the encoder's varint makes and leaves the rest, for every body shorter than
  \<open>2 ^ 28\<close> bytes; from there on the varint needs a fifth byte and the reader refuses.
\<close>

theorem read_packet_roundtrip:
  assumes "byte_stream io h incoming outgoing"
    and "incoming w = packet_type p # encode_varint (length (packet_body p)) @ packet_body p @ rest"
  shows "(\<exists>w'. read_packet io h w = Some (Ok p, w') \<and> incoming w' = rest) \<longleftrightarrow> length (packet_body p) < 2 ^ 28"
proof -
  have s: "parse_packet (incoming w) = (if length (packet_body p) < 2 ^ 28 then Some (p, rest) else None)"
    using parse_packet_bytes [of p rest] by (simp add: assms(2) packet_bytes_def)
  show ?thesis
  proof (cases "length (packet_body p) < 2 ^ 28")
    case True
    then show ?thesis
      using byte_stream.read_packet_some [OF assms(1), where w = w and p = p and s = rest] s by auto
  next
    case False
    then show ?thesis
      using byte_stream.read_packet_none [OF assms(1), where w = w] s by auto
  qed
qed

lemma read_packet_roundtrip_witness:
  "\<exists>w'. read_packet script_io () \<lparr>chunks = [[0xD0], [0], [7]], sent = []\<rparr> = Some (Ok \<lparr>packet_type = 0xD0, packet_body = []\<rparr>, w') \<and>
     concat (chunks w') = [7]"
proof -
  have "encode_varint 0 = [0]" by (subst encode_varint_eq) simp
  then show ?thesis
    using read_packet_roundtrip [OF scripted.byte_stream_axioms, of "\<lparr>chunks = [[0xD0], [0], [7]], sent = []\<rparr>"
        "\<lparr>packet_type = 0xD0, packet_body = []\<rparr>" "[7]"] by simp
qed

text \<open>
  C17. MQTT CONNECT. The packet reads back as one CONNECT packet whose body carries the version, the
  keep-alive and the client identifier; an identifier of 65536 bytes or more wraps the 16-bit length
  field, so that a reader sees a shorter identifier followed by stray bytes.
\<close>

theorem build_connect_roundtrip:
  assumes "length cid < 2 ^ 28 - 13"
  shows "\<exists>body. parse_packet (build_connect cid keepalive version @ rest) =
      Some (\<lparr>packet_type = 0x10, packet_body = body\<rparr>, rest) \<and>
    parse_connect body = Some (version, keepalive, take (length cid mod 65536) cid, bytes_of (drop (length cid mod 65536) cid))"
  using assms parse_connect_body [of cid keepalive version]
  by (intro exI [of _ "connect_body cid keepalive version"])
    (simp add: build_connect_eq parse_packet_bytes length_connect_body)

lemma build_connect_roundtrip_witness:
  "\<exists>body. parse_packet (build_connect ''ab'' 60 V5) = Some (\<lparr>packet_type = 0x10, packet_body = body\<rparr>, []) \<and>
    parse_connect body = Some (V5, 60, ''ab'', [])"
  using build_connect_roundtrip [of "''ab''" 60 V5 "[]"] by simp

lemma mqtt_endpoint_ok: "uri_domain uri \<noteq> [] \<Longrightarrow> \<exists>ep. mqtt_endpoint_for uri dp = Ok ep"
  by (simp add: mqtt_endpoint_for_def Let_def)

lemma mqtt_ping_outcome_fact:
  assumes "stream_peer net incoming outgoing" and "prompt net"
    and "get_uri (net_regex net) (mqtt_server p) = Ok uri" and "uri_domain uri \<noteq> []"
    and "to_ascii_lowercase (uri_scheme uri) \<in> {[], ''mqtt''} \<or>
      to_ascii_lowercase (uri_scheme uri) = ''mqtts'' \<and> server_name_error net (uri_domain uri) = None"
  shows "\<exists>res w' out. mqtt_ping net p w = Some (res, w') \<and> outgoing w' = outgoing w @ out \<and>
    session_spec (mqtt_client_id p) (mqtt_keepalive p) (mqtt_version p) (incoming w) res out"
proof -
  note session = stream_peer.run_session_relay [OF assms(1)]
  obtain ep eps where ep: "mqtt_endpoint_for uri DEFAULT_PORT_PLAIN = Ok ep" "mqtt_endpoint_for uri DEFAULT_PORT_TLS = Ok eps"
    using mqtt_endpoint_ok [OF assms(4)] by blast
  show ?thesis
  proof (cases "to_ascii_lowercase (uri_scheme uri) \<in> {[], ''mqtt''}")
    case True
    then show ?thesis
      using stream_peer.relay_timeout [OF assms(1,2) session, where d = "mqtt_timeout p" and a = ep and w = w]
      by (auto simp: mqtt_ping_def mqtt_ping_plain_def assms(3) ep(1) Let_def)
  next
    case False
    then show ?thesis
      using assms(5) stream_peer.relay_timeout [OF assms(1,2) stream_peer.relay_tls [OF assms(1) session], where d = "mqtt_timeout p" and a = eps and w = w]
      by (auto simp: mqtt_ping_def mqtt_ping_tls_def assms(3) ep(2) Let_def)
  qed
qed

text \<open>
  C4. MQTT ping. For a target with a host and a supported scheme, against any broker and however its
  bytes are cut, the ping finishes without a panic; it succeeds exactly when the broker's bytes
  start with a CONNACK with return code 0 and a PINGRESP; and what it wrote is CONNECT, then PINGREQ
  only after the CONNACK, then DISCONNECT only after the PINGRESP.
\<close>

theorem mqtt_ping_outcome:
  assumes "stream_peer net incoming outgoing" and "prompt net"
    and "get_uri (net_regex net) (mqtt_server p) = Ok uri" and "uri_domain uri \<noteq> []"
    and "to_ascii_lowercase (uri_scheme uri) \<in> {[], ''mqtt''} \<or>
      to_ascii_lowercase (uri_scheme uri) = ''mqtts'' \<and> server_name_error net (uri_domain uri) = None"
  shows "\<exists>res w' out. mqtt_ping net p w = Some (res, w') \<and> outgoing w' = outgoing w @ out \<and>
    session_spec (mqtt_client_id p) (mqtt_keepalive p) (mqtt_version p) (incoming w) res out"
  by (rule mqtt_ping_outcome_fact [OF assms])

lemma mqtt_ping_outcome_witness:
  "\<exists>w'. mqtt_ping (lab (\<lambda>_. None)) (MqttPinger_with_client_id (MqttPinger_new ''srv:5300'') ''k'')
      (lab_start [[0x20, 2, 0], [0, 0xD0], [0]]) = Some (Ok (), w')"
proof -
  let ?p = "MqttPinger_with_client_id (MqttPinger_new ''srv:5300'') ''k''" and ?s = "[[0x20, 2, 0], [0, 0xD0], [0]] :: bytes list"
  let ?u = "default_uri\<lparr>uri_host := ''srv:5300'', uri_domain := ''srv'', uri_port := 5300, uri_path := []\<rparr>"
  have u: "get_uri (net_regex (lab (\<lambda>_. None))) (mqtt_server ?p) = Ok ?u"
    by (simp add: MqttPinger_with_client_id_def MqttPinger_new_def)
  have s: "to_ascii_lowercase (uri_scheme ?u) \<in> {[], ''mqtt''}"
    by (simp add: default_uri_def to_ascii_lowercase_def)
  have varint: "encode_varint 0 = [0]" "encode_varint (Suc (Suc 0)) = [2]"
    by (subst encode_varint_eq, simp)+
  have "concat ?s = [0x20, 2, 0, 0] @ [0xD0, 0] @ []" by simp
  then have "broker_ok (concat ?s) = 2"
    using broker_ok_2 [of "\<lparr>packet_type = 0x20, packet_body = [0, 0]\<rparr>" "\<lparr>packet_type = 0xD0, packet_body = []\<rparr>" "[]"]
    by (simp add: packet_bytes_def varint connack_ok_def pingresp_ok_def)
  then show ?thesis
    using mqtt_ping_outcome [OF lab_tcp.stream_peer_axioms lab_prompt u, of "lab_start ?s"] s
    unfolding session_spec_def by auto
qed

end
