(* ===== verification/Rtmp.thy ===== *)
theory Rtmp
  imports Lab
begin

text \<open>
  \<open>zpinger/src/rtmp.rs\<close>: the C1 block, the handshake and the ping; the handshake's outcome and
  transcript as a function of the server's bytes.
\<close>

section \<open>Definitions\<close>

abbreviation RTMP_PORT_PLAIN :: u16 where "RTMP_PORT_PLAIN \<equiv> 1935"
abbreviation RTMP_PORT_TLS :: u16 where "RTMP_PORT_TLS \<equiv> 443"
abbreviation RTMP_VERSION :: u8 where "RTMP_VERSION \<equiv> 3"
abbreviation HANDSHAKE_PAYLOAD_LEN :: nat where "HANDSHAKE_PAYLOAD_LEN \<equiv> 1536"

record 'c RtmpPinger =
  rtmp_target :: string
  rtmp_timeout :: duration
  rtmp_tls_config :: "'c option"

definition RtmpPinger_new :: "string \<Rightarrow> 'c RtmpPinger" where
  "RtmpPinger_new target = \<lparr>rtmp_target = target, rtmp_timeout = from_secs 5, rtmp_tls_config = None\<rparr>"

definition RtmpPinger_with_timeout :: "'c RtmpPinger \<Rightarrow> duration \<Rightarrow> 'c RtmpPinger" where
  "RtmpPinger_with_timeout self t = self\<lparr>rtmp_timeout := t\<rparr>"

definition RtmpPinger_with_tls_config :: "'c RtmpPinger \<Rightarrow> 'c \<Rightarrow> 'c RtmpPinger" where
  "RtmpPinger_with_tls_config self config = self\<lparr>rtmp_tls_config := Some config\<rparr>"

definition rtmp_endpoint_for :: "URI \<Rightarrow> u16 \<Rightarrow> string result" where
  "rtmp_endpoint_for uri default_port =
     (let port = (if 0 < uri_port uri then as_u16 (uri_port uri) else default_port)
      in Ok (uri_domain uri @ '':'' @ dec (unat port)))"

text \<open>One round of the fill, and the fill of a number of 4-byte chunks.\<close>

definition xorshift :: "u32 \<Rightarrow> u32" where
  "xorshift acc =
     (let acc = acc XOR push_bit 13 acc;
          acc = acc XOR drop_bit 17 acc
      in acc XOR push_bit 5 acc)"

fun c1_fill :: "nat \<Rightarrow> u32 \<Rightarrow> bytes" where
  "c1_fill 0 acc = []"
| "c1_fill (Suc k) acc = (let acc = xorshift acc in be32 acc @ c1_fill k acc)"

definition build_c1 :: "(nat \<times> nat) option \<Rightarrow> bytes" where
  "build_c1 now =
     (let buf = replicate HANDSHAKE_PAYLOAD_LEN 0;
          nanos = (case now of Some (s, ns) \<Rightarrow> of_nat ns | None \<Rightarrow> 0) :: u32;
          buf = copy_at 0 (be32 nanos) buf;
          buf = copy_at 4 (replicate 4 0) buf
      in copy_at 8 (c1_fill ((length buf - 8) div 4) nanos) buf)"

definition run_handshake :: "('w, 'h, 'c) net \<Rightarrow> 'h \<Rightarrow> ('w, unit) io" where
  "run_handshake net stream w =
     (let c1 = build_c1 (system_time net w);
          c0_c1 = [RTMP_VERSION] @ c1
      in io_bind (st_write_all net stream c0_c1) (\<lambda>_.
         io_bind (st_read_exact net stream 1) (\<lambda>s0.
           if s0 ! 0 \<noteq> RTMP_VERSION
           then io_err (IoError Other (''RTMP S0 returned version '' @ dec (unat (s0 ! 0))
                  @ '' (expected '' @ dec (unat RTMP_VERSION) @ '')''))
           else
             io_bind (st_read_exact net stream HANDSHAKE_PAYLOAD_LEN) (\<lambda>s1.
             io_bind (st_read_exact net stream HANDSHAKE_PAYLOAD_LEN) (\<lambda>s2.
             io_bind (st_write_all net stream s1) (\<lambda>_.
             io_ok ()))))) w)"

definition rtmp_ping_plain :: "('w, 'h, 'c) net \<Rightarrow> 'c RtmpPinger \<Rightarrow> URI \<Rightarrow> ('w, unit) io" where
  "rtmp_ping_plain net self uri =
     io_bind (io_lift (rtmp_endpoint_for uri RTMP_PORT_PLAIN)) (\<lambda>endpoint.
       with_timeout net (rtmp_timeout self)
         (io_bind (tcp_connect net endpoint) (\<lambda>stream. run_handshake net stream)))"

definition rtmp_ping_tls :: "('w, 'h, 'c) net \<Rightarrow> 'c RtmpPinger \<Rightarrow> URI \<Rightarrow> ('w, unit) io" where
  "rtmp_ping_tls net self uri =
     io_bind (io_lift (rtmp_endpoint_for uri RTMP_PORT_TLS)) (\<lambda>endpoint.
       case server_name_error net (uri_domain uri) of
         Some e \<Rightarrow> io_err (IoError InvalidInput e)
       | None \<Rightarrow>
           (let config = (case rtmp_tls_config self of Some c \<Rightarrow> c | None \<Rightarrow> default_client_config net)
            in with_timeout net (rtmp_timeout self)
                 (io_bind (tcp_connect net endpoint) (\<lambda>tcp.
                  io_bind (tls_connect net config (uri_domain uri) tcp) (\<lambda>stream.
                  run_handshake net stream)))))"

definition rtmp_ping :: "('w, 'h, 'c) net \<Rightarrow> 'c RtmpPinger \<Rightarrow> ('w, unit) io" where
  "rtmp_ping net self =
     io_bind (io_lift (get_uri (net_regex net) (rtmp_target self))) (\<lambda>uri.
       if uri_domain uri = [] then io_err (IoError InvalidInput ''RTMP target is missing a host'')
       else
         (let scheme = to_ascii_lowercase (uri_scheme uri)
          in if scheme = '''' \<or> scheme = ''rtmp'' then rtmp_ping_plain net self uri
             else if scheme = ''rtmps'' then rtmp_ping_tls net self uri
             else io_err (IoError Other (''scheme '' @ [CHR 0x27] @ scheme @ [CHR 0x27]
                    @ '' is not supported by RtmpPinger (use rtmp:// or rtmps://)''))))"

section \<open>C1\<close>

lemma length_c1_fill [simp]: "length (c1_fill k acc) = 4 * k"
  by (induction k arbitrary: acc) (simp_all add: Let_def)

definition nanos_of :: "(nat \<times> nat) option \<Rightarrow> u32" where
  "nanos_of now = (case now of Some (s, ns) \<Rightarrow> of_nat ns | None \<Rightarrow> 0)"

lemma build_c1_eq: "build_c1 now = be32 (nanos_of now) @ replicate 4 0 @ c1_fill 382 (nanos_of now)"
proof -
  have 1: "copy_at 0 (be32 n) (replicate 1536 0) = be32 n @ replicate 1532 0" for n
    by (simp add: copy_at_0)
  have 2: "copy_at 4 (replicate 4 0) (be32 n @ replicate 1532 0) = (be32 n @ replicate 4 0) @ replicate 1528 0" for n
    by (subst copy_at_end) simp_all
  have 3: "copy_at 8 (c1_fill 382 n) ((be32 n @ replicate 4 0) @ replicate 1528 0) = (be32 n @ replicate 4 0) @ c1_fill 382 n" for n
    by (subst copy_at_end) simp_all
  show ?thesis
    unfolding build_c1_def Let_def 1 2 nanos_of_def [symmetric] using 3 by simp
qed

lemma length_c1 [simp]: "length (build_c1 now) = 1536"
  by (simp add: build_c1_eq)

lemma xor_shl_zero:
  assumes "x XOR push_bit k x = (0 :: u32)" and "0 < k"
  shows "x = 0"
proof (rule bit_word_eqI)
  fix n assume "n < LENGTH(32)"
  then show "bit x n = bit 0 n"
  proof (induction n rule: less_induct)
    case (less n)
    have "bit x n = bit (push_bit k x) n"
      using arg_cong [OF assms(1), of "\<lambda>y. bit y n"] by (simp add: bit_xor_iff)
    also have "\<dots> = bit 0 n" using less assms(2) by (auto simp: bit_push_bit_iff)
    finally show ?case .
  qed
qed

lemma xor_shr_zero:
  assumes "x XOR drop_bit k x = (0 :: u32)" and "0 < k"
  shows "x = 0"
proof (rule bit_word_eqI)
  fix n assume "n < LENGTH(32)"
  then show "bit x n = bit 0 n"
  proof (induction "32 - n" arbitrary: n rule: less_induct)
    case less
    have "bit x n = bit x (k + n)"
      using arg_cong [OF assms(1), of "\<lambda>y. bit y n"] by (simp add: bit_xor_iff bit_drop_bit_eq)
    also have "\<dots> = False"
    proof (cases "k + n < 32")
      case True
      then show ?thesis using less.hyps [of "k + n"] less.prems assms(2) by simp
    next
      case False
      then show ?thesis using bit_imp_le_length [of x "k + n"] by auto
    qed
    finally show ?case by simp
  qed
qed

lemma xorshift_zero_iff: "xorshift x = 0 \<longleftrightarrow> x = 0"
proof
  assume "xorshift x = 0"
  then show "x = 0"
    unfolding xorshift_def Let_def
    by (metis xor_shl_zero xor_shr_zero zero_less_numeral)
qed (simp add: xorshift_def)

text \<open>Every word of the fill is non-zero unless the clock gave zero nanoseconds.\<close>

lemma c1_fill_words:
  "acc \<noteq> 0 \<Longrightarrow> \<exists>ws. c1_fill k acc = concat (map be32 ws) \<and> length ws = k \<and> 0 \<notin> set ws"
proof (induction k arbitrary: acc)
  case 0
  then show ?case by simp
next
  case (Suc k)
  have nz: "xorshift acc \<noteq> 0" using Suc.prems by (simp add: xorshift_zero_iff)
  obtain ws where "c1_fill k (xorshift acc) = concat (map be32 ws)" "length ws = k" "0 \<notin> set ws"
    using Suc.IH [OF nz] by blast
  then show ?case using nz by (intro exI [of _ "xorshift acc # ws"]) (simp add: Let_def)
qed

section \<open>The handshake\<close>

definition handshake_ok :: "bytes \<Rightarrow> bool" where
  "handshake_ok inp \<longleftrightarrow> 3073 \<le> length inp \<and> hd inp = RTMP_VERSION"

definition handshake_spec :: "bytes \<Rightarrow> unit result \<Rightarrow> bytes \<Rightarrow> bool" where
  "handshake_spec inp res out \<longleftrightarrow> \<not> is_panic res \<and> (res = Ok () \<longleftrightarrow> handshake_ok inp) \<and>
     (\<exists>now. out = RTMP_VERSION # build_c1 now @ (if handshake_ok inp then slice 1 1537 inp else []))"

context stream_peer
begin

lemma run_handshake_relay: "relay (run_handshake net) handshake_spec"
  unfolding relay_def
proof (intro allI)
  fix h w
  let ?c = "RTMP_VERSION # build_c1 (system_time net w)"
  obtain w1 where 1: "st_write_all net h ?c w = Some (Ok (), w1)" "incoming w1 = incoming w" "outgoing w1 = outgoing w @ ?c"
    using peer_write [of h ?c w] by blast
  have fin: "\<exists>res w'. run_handshake net h w = Some (res, w') \<and> (\<exists>out. outgoing w' = outgoing w @ out \<and> handshake_spec (incoming w) res out)"
    if "run_handshake net h w = Some (res, w')" "\<not> is_panic res" "res = Ok () \<longleftrightarrow> handshake_ok (incoming w)"
      "outgoing w' = outgoing w @ ?c @ (if handshake_ok (incoming w) then slice 1 1537 (incoming w) else [])" for res w'
    using that unfolding handshake_spec_def append_Cons by blast
  show "\<exists>res w'. run_handshake net h w = Some (res, w') \<and> (\<exists>out. outgoing w' = outgoing w @ out \<and> handshake_spec (incoming w) res out)"
  proof (cases "incoming w")
    case Nil
    then obtain m w2 where "st_read_exact net h 1 w1 = Some (Err (IoError UnexpectedEof m), w2)" "outgoing w2 = outgoing w1"
      using peer_read_eof [of w1 1 h] 1 by auto
    then show ?thesis
      using Nil 1 by (intro fin [of "Err (IoError UnexpectedEof m)" w2])
        (simp_all add: run_handshake_def io_bind_def handshake_ok_def Let_def)
  next
    case (Cons b s)
    obtain w2 where 2: "st_read_exact net h 1 w1 = Some (Ok [b], w2)" "incoming w2 = s" "outgoing w2 = outgoing w1"
      using peer_read_exact [of 1 w1 h] 1 Cons by auto
    show ?thesis
    proof (cases "b = RTMP_VERSION")
      case False
      then have run: "\<exists>m. run_handshake net h w = Some (Err (IoError Other m), w2)"
        by (simp add: run_handshake_def io_bind_def Let_def 1 2 del: One_nat_def)
      then obtain m where "run_handshake net h w = Some (Err (IoError Other m), w2)" by blast
      then show ?thesis
        using False Cons 1 2 by (intro fin [of "Err (IoError Other m)" w2]) (simp_all add: handshake_ok_def)
    next
      case True
      have step: "run_handshake net h w = io_bind (st_read_exact net h HANDSHAKE_PAYLOAD_LEN) (\<lambda>s1.
             io_bind (st_read_exact net h HANDSHAKE_PAYLOAD_LEN) (\<lambda>s2.
             io_bind (st_write_all net h s1) (\<lambda>_. io_ok ()))) w2"
        by (simp add: run_handshake_def io_bind_def Let_def 1 2 True del: One_nat_def)
      show ?thesis
      proof (cases "1536 \<le> length s")
        case False
        then obtain m w3 where "st_read_exact net h 1536 w2 = Some (Err (IoError UnexpectedEof m), w3)" "outgoing w3 = outgoing w2"
          using peer_read_eof [of w2 1536 h] 2 by auto
        then show ?thesis
          using False Cons 1 2 by (intro fin [of "Err (IoError UnexpectedEof m)" w3]) (simp_all add: step io_bind_def handshake_ok_def)
      next
        case len: True
        obtain w3 where 3: "st_read_exact net h 1536 w2 = Some (Ok (take 1536 s), w3)" "incoming w3 = drop 1536 s"
            "outgoing w3 = outgoing w2"
          using peer_read_exact [of 1536 w2 h] 2 len by auto
        show ?thesis
        proof (cases "3072 \<le> length s")
          case False
          then have "length (incoming w3) < 1536" using 3 len by simp
          then obtain m w4 where "st_read_exact net h 1536 w3 = Some (Err (IoError UnexpectedEof m), w4)" "outgoing w4 = outgoing w3"
            using peer_read_eof by blast
          then show ?thesis
            using False Cons 1 2 3
            by (intro fin [of "Err (IoError UnexpectedEof m)" w4]) (simp_all add: step io_bind_def handshake_ok_def)
        next
          case len2: True
          then have "1536 \<le> length (incoming w3)" using 3 by simp
          then obtain w4 where 4: "st_read_exact net h 1536 w3 = Some (Ok (take 1536 (drop 1536 s)), w4)" "outgoing w4 = outgoing w3"
            using peer_read_exact 3(2) by metis
          obtain w5 where 5: "st_write_all net h (take 1536 s) w4 = Some (Ok (), w5)" "outgoing w5 = outgoing w4 @ take 1536 s"
            using peer_write [of h "take 1536 s" w4] by blast
          show ?thesis
            using len2 Cons 1 2 3 4 5 True
            by (intro fin [of "Ok ()" w5]) (simp_all add: step io_bind_def handshake_ok_def slice_def)
        qed
      qed
    qed
  qed
qed

end

section \<open>Properties\<close>

lemma four: "replicate 4 x = [x, x, x, x]"
  by (simp add: numeral_eq_Suc)

text \<open>
  RTMP C1. The block has 1536 bytes: the clock's nanoseconds, four zero bytes, and 382 words that
  are all non-zero unless the nanoseconds are zero, the one seed the xorshift maps to itself.
\<close>

theorem build_c1_shape:
  "\<exists>nanos ws. build_c1 now = be32 nanos @ [0, 0, 0, 0] @ concat (map be32 ws) \<and> length ws = 382 \<and>
     length (build_c1 now) = 1536 \<and> (0 \<in> set ws \<longleftrightarrow> nanos = 0)"
proof (cases "nanos_of now = 0")
  case False
  then obtain ws where "c1_fill 382 (nanos_of now) = concat (map be32 ws)" "length ws = 382" "0 \<notin> set ws"
    using c1_fill_words by blast
  moreover from this have "build_c1 now = be32 (nanos_of now) @ [0, 0, 0, 0] @ concat (map be32 ws)"
    by (simp add: build_c1_eq four)
  ultimately show ?thesis using length_c1 [of now] False by blast
next
  case True
  have "c1_fill k 0 = concat (map be32 (replicate k 0))" for k
    by (induction k) (simp_all add: Let_def xorshift_zero_iff [THEN iffD2])
  then have "build_c1 now = be32 0 @ [0, 0, 0, 0] @ concat (map be32 (replicate 382 0))"
    using True by (simp add: build_c1_eq four)
  then show ?thesis using length_c1 [of now]
    by (intro exI [of _ 0] exI [of _ "replicate 382 0"]) simp
qed

lemma rtmp_ping_outcome_fact:
  assumes "stream_peer net incoming outgoing" and "prompt net"
    and "get_uri (net_regex net) (rtmp_target p) = Ok uri" and "uri_domain uri \<noteq> []"
    and "to_ascii_lowercase (uri_scheme uri) \<in> {[], ''rtmp''} \<or>
      to_ascii_lowercase (uri_scheme uri) = ''rtmps'' \<and> server_name_error net (uri_domain uri) = None"
  shows "\<exists>res w' out. rtmp_ping net p w = Some (res, w') \<and> outgoing w' = outgoing w @ out \<and>
    handshake_spec (incoming w) res out"
proof -
  note session = stream_peer.run_handshake_relay [OF assms(1)]
  obtain ep eps where ep: "rtmp_endpoint_for uri RTMP_PORT_PLAIN = Ok ep" "rtmp_endpoint_for uri RTMP_PORT_TLS = Ok eps"
    by (simp add: rtmp_endpoint_for_def Let_def)
  show ?thesis
  proof (cases "to_ascii_lowercase (uri_scheme uri) \<in> {[], ''rtmp''}")
    case True
    then show ?thesis
      using stream_peer.relay_timeout [OF assms(1,2) session, where d = "rtmp_timeout p" and a = ep and w = w]
      by (auto simp: rtmp_ping_def rtmp_ping_plain_def assms(3,4) ep(1) Let_def)
  next
    case False
    then show ?thesis
      using assms(5) stream_peer.relay_timeout [OF assms(1,2) stream_peer.relay_tls [OF assms(1) session],
          where d = "rtmp_timeout p" and a = eps and w = w]
      by (auto simp: rtmp_ping_def rtmp_ping_tls_def assms(3,4) ep(2) Let_def)
  qed
qed

text \<open>
  C25. RTMP ping. For a target with a host and a supported scheme, against any server and however its
  bytes are cut, the ping finishes without a panic; it succeeds exactly when the server sends at
  least 3073 bytes of which the first is 3; it writes C0 and C1, and on success C2, the echo of S1.
\<close>

theorem rtmp_ping_outcome:
  assumes "stream_peer net incoming outgoing" and "prompt net"
    and "get_uri (net_regex net) (rtmp_target p) = Ok uri" and "uri_domain uri \<noteq> []"
    and "to_ascii_lowercase (uri_scheme uri) \<in> {[], ''rtmp''} \<or>
      to_ascii_lowercase (uri_scheme uri) = ''rtmps'' \<and> server_name_error net (uri_domain uri) = None"
  shows "\<exists>res w' out. rtmp_ping net p w = Some (res, w') \<and> outgoing w' = outgoing w @ out \<and>
    handshake_spec (incoming w) res out"
  by (rule rtmp_ping_outcome_fact [OF assms])

lemma rtmp_ping_outcome_witness:
  "\<exists>w'. rtmp_ping (lab (\<lambda>_. None)) (RtmpPinger_new ''srv:5300'')
      (lab_start [[3], replicate 2000 7, replicate 2000 8]) = Some (Ok (), w')"
proof -
  let ?p = "RtmpPinger_new ''srv:5300''" and ?s = "[[3], replicate 2000 7, replicate 2000 8] :: bytes list"
  let ?u = "default_uri\<lparr>uri_host := ''srv:5300'', uri_domain := ''srv'', uri_port := 5300, uri_path := []\<rparr>"
  have u: "get_uri (net_regex (lab (\<lambda>_. None))) (rtmp_target ?p) = Ok ?u"
    by (simp add: RtmpPinger_new_def)
  have s: "to_ascii_lowercase (uri_scheme ?u) \<in> {[], ''rtmp''}"
    by (simp add: default_uri_def to_ascii_lowercase_def)
  have "handshake_ok (concat ?s)" by (simp add: handshake_ok_def)
  then show ?thesis
    using rtmp_ping_outcome [OF lab_tcp.stream_peer_axioms lab_prompt u, of "lab_start ?s"] s
    unfolding handshake_spec_def by auto
qed

end
