(* ===== verification/Rtsp.thy ===== *)
theory Rtsp
  imports Lab
begin

text \<open>
  \<open>zpinger/src/rtsp.rs\<close>: the OPTIONS request, the loop that reads the response headers, and the
  ping. The loop is a \<open>partial_function\<close>: on an endless trickle of empty progress it would not end;
  on every stream it does, and the verdict does not depend on how the network cuts the bytes.
\<close>

section \<open>Definitions\<close>

abbreviation RTSP_PORT_PLAIN :: u16 where "RTSP_PORT_PLAIN \<equiv> 554"
abbreviation RTSP_PORT_TLS :: u16 where "RTSP_PORT_TLS \<equiv> 322"
abbreviation MAX_RESPONSE_BYTES :: nat where "MAX_RESPONSE_BYTES \<equiv> 4096"
abbreviation HEADER_TERMINATOR :: bytes where "HEADER_TERMINATOR \<equiv> bytes_of (crlf @ crlf)"
abbreviation STATUS_LINE_PREFIX :: bytes where "STATUS_LINE_PREFIX \<equiv> bytes_of ''RTSP/1.0 200''"

record 'c RtspPinger =
  rtsp_target :: string
  rtsp_timeout :: duration
  rtsp_tls_config :: "'c option"

definition RtspPinger_new :: "string \<Rightarrow> 'c RtspPinger" where
  "RtspPinger_new target = \<lparr>rtsp_target = target, rtsp_timeout = from_secs 5, rtsp_tls_config = None\<rparr>"

definition RtspPinger_with_timeout :: "'c RtspPinger \<Rightarrow> duration \<Rightarrow> 'c RtspPinger" where
  "RtspPinger_with_timeout self t = self\<lparr>rtsp_timeout := t\<rparr>"

definition RtspPinger_with_tls_config :: "'c RtspPinger \<Rightarrow> 'c \<Rightarrow> 'c RtspPinger" where
  "RtspPinger_with_tls_config self config = self\<lparr>rtsp_tls_config := Some config\<rparr>"

definition rtsp_port_or :: "URI \<Rightarrow> u16 \<Rightarrow> u16" where
  "rtsp_port_or uri dflt = (if 0 < uri_port uri then as_u16 (uri_port uri) else dflt)"

definition rtsp_endpoint_for :: "URI \<Rightarrow> u16 \<Rightarrow> string result" where
  "rtsp_endpoint_for uri default_port = Ok (uri_domain uri @ '':'' @ dec (unat (rtsp_port_or uri default_port)))"

text \<open>\<open>CARGO_PKG_VERSION\<close> is the version in \<open>zpinger/Cargo.toml\<close>.\<close>

definition build_options_request :: "string \<Rightarrow> u16 \<Rightarrow> bytes" where
  "build_options_request domain port =
     (let request_uri = ''rtsp://'' @ domain @ '':'' @ dec (unat port) @ ''/'';
          user_agent = ''zpinger/0.7.0''
      in bytes_of (''OPTIONS '' @ request_uri @ '' RTSP/1.0'' @ crlf @
           ''CSeq: 1'' @ crlf @
           ''User-Agent: '' @ user_agent @ crlf @
           crlf))"

definition find_header_terminator :: "bytes \<Rightarrow> nat option" where
  "find_header_terminator buf = find_sub HEADER_TERMINATOR buf"

partial_function (option) rtsp_read_loop :: "('w, 'h, 'z) stream_io_scheme \<Rightarrow> 'h \<Rightarrow> bytes \<Rightarrow> ('w, bytes) io" where
  "rtsp_read_loop io h buf w =
     io_bind (st_read io h 256) (\<lambda>chunk w.
       if length chunk = 0 then io_ok buf w
       else if find_header_terminator (buf @ chunk) \<noteq> None \<or> length (buf @ chunk) \<ge> MAX_RESPONSE_BYTES
       then io_ok (buf @ chunk) w
       else rtsp_read_loop io h (buf @ chunk) w) w"

definition rtsp_validate_response :: "('w, 'h, 'c) net \<Rightarrow> 'h \<Rightarrow> ('w, unit) io" where
  "rtsp_validate_response net stream =
     io_bind (rtsp_read_loop net stream []) (\<lambda>buf.
       if \<not> starts_with STATUS_LINE_PREFIX buf
       then
         (let preview = lossy (take (min (length buf) 64) buf)
          in io_err (IoError Other (''RTSP response did not start with `RTSP/1.0 200`: '' @ str_debug net preview)))
       else io_ok ())"

definition rtsp_ping_plain :: "('w, 'h, 'c) net \<Rightarrow> 'c RtspPinger \<Rightarrow> URI \<Rightarrow> ('w, unit) io" where
  "rtsp_ping_plain net self uri =
     io_bind (io_lift (rtsp_endpoint_for uri RTSP_PORT_PLAIN)) (\<lambda>endpoint.
       let request = build_options_request (uri_domain uri) (rtsp_port_or uri RTSP_PORT_PLAIN)
       in with_timeout net (rtsp_timeout self)
            (io_bind (tcp_connect net endpoint) (\<lambda>stream.
             io_bind (st_write_all net stream request) (\<lambda>_.
             rtsp_validate_response net stream))))"

definition rtsp_ping_tls :: "('w, 'h, 'c) net \<Rightarrow> 'c RtspPinger \<Rightarrow> URI \<Rightarrow> ('w, unit) io" where
  "rtsp_ping_tls net self uri =
     io_bind (io_lift (rtsp_endpoint_for uri RTSP_PORT_TLS)) (\<lambda>endpoint.
       case server_name_error net (uri_domain uri) of
         Some e \<Rightarrow> io_err (IoError InvalidInput e)
       | None \<Rightarrow>
           (let config = (case rtsp_tls_config self of Some c \<Rightarrow> c | None \<Rightarrow> default_client_config net);
                request = build_options_request (uri_domain uri) (rtsp_port_or uri RTSP_PORT_TLS)
            in with_timeout net (rtsp_timeout self)
                 (io_bind (tcp_connect net endpoint) (\<lambda>tcp.
                  io_bind (tls_connect net config (uri_domain uri) tcp) (\<lambda>stream.
                  io_bind (st_write_all net stream request) (\<lambda>_.
                  rtsp_validate_response net stream))))))"

definition rtsp_ping :: "('w, 'h, 'c) net \<Rightarrow> 'c RtspPinger \<Rightarrow> ('w, unit) io" where
  "rtsp_ping net self =
     io_bind (io_lift (get_uri (net_regex net) (rtsp_target self))) (\<lambda>uri.
       if uri_domain uri = [] then io_err (IoError InvalidInput ''RTSP target is missing a host'')
       else
         (let scheme = to_ascii_lowercase (uri_scheme uri)
          in if scheme = '''' \<or> scheme = ''rtsp'' then rtsp_ping_plain net self uri
             else if scheme = ''rtsps'' then rtsp_ping_tls net self uri
             else io_err (IoError Other (''scheme '' @ [CHR 0x27] @ scheme @ [CHR 0x27]
                    @ '' is not supported by RtspPinger (use rtsp:// or rtsps://)''))))"

section \<open>The read loop\<close>

text \<open>
  The loop ends on every stream; what it returns is a prefix of the incoming bytes that is the whole
  of them, or contains the terminator, or has 4096 bytes.
\<close>

lemma rtsp_read_loop_run:
  assumes "byte_stream io h incoming outgoing"
  shows "\<exists>p w'. rtsp_read_loop io h buf w = Some (Ok (buf @ p), w') \<and> incoming w = p @ incoming w' \<and>
    outgoing w' = outgoing w \<and>
    (incoming w' = [] \<or> find_header_terminator (buf @ p) \<noteq> None \<or> MAX_RESPONSE_BYTES \<le> length (buf @ p))"
proof (induction "length (incoming w)" arbitrary: w buf rule: less_induct)
  case less
  obtain bs w1 where 1: "st_read io h 256 w = Some (Ok bs, w1)" "incoming w = bs @ incoming w1"
      "bs = [] \<Longrightarrow> incoming w = []" "outgoing w1 = outgoing w"
    using byte_stream.read_some [OF assms, of 256 w] by auto
  consider "bs = []" | "bs \<noteq> []" "find_header_terminator (buf @ bs) \<noteq> None \<or> MAX_RESPONSE_BYTES \<le> length (buf @ bs)"
    | "bs \<noteq> []" "find_header_terminator (buf @ bs) = None" "\<not> MAX_RESPONSE_BYTES \<le> length (buf @ bs)" by blast
  then show ?case
  proof cases
    case 1
    with 1 \<open>st_read io h 256 w = _\<close> show ?thesis
      using less \<open>incoming w = _\<close> \<open>bs = [] \<Longrightarrow> _\<close> \<open>outgoing w1 = _\<close>
      by (intro exI [of _ "[]"] exI [of _ w1]) (subst rtsp_read_loop.simps, simp add: io_bind_def)
  next
    case 2
    then show ?thesis
      using 1 by (intro exI [of _ bs] exI [of _ w1]) (subst rtsp_read_loop.simps, auto simp: io_bind_def)
  next
    case 3
    then have "length (incoming w1) < length (incoming w)" using 1(2) by simp
    then obtain p w' where p: "rtsp_read_loop io h (buf @ bs) w1 = Some (Ok ((buf @ bs) @ p), w')" "incoming w1 = p @ incoming w'"
        "outgoing w' = outgoing w1"
        "incoming w' = [] \<or> find_header_terminator ((buf @ bs) @ p) \<noteq> None \<or> MAX_RESPONSE_BYTES \<le> length ((buf @ bs) @ p)"
      using less by blast
    have "rtsp_read_loop io h buf w = rtsp_read_loop io h (buf @ bs) w1"
      using 3 1(1) by (subst rtsp_read_loop.simps) (simp add: io_bind_def)
    then show ?thesis
      using p 1(2,4) by (intro exI [of _ "bs @ p"] exI [of _ w']) simp
  qed
qed

text \<open>A buffer that contains the terminator and starts like the prefix is longer than the prefix.\<close>

lemma starts_with_cut:
  assumes "inp = p @ rest" and "rest = [] \<or> n \<le> length p" and "length pre \<le> n"
  shows "starts_with pre p \<longleftrightarrow> starts_with pre inp"
  using assms by (auto simp: starts_with_def)

lemma starts_with_short: "starts_with pre (p @ rest) \<Longrightarrow> length p \<le> length pre \<Longrightarrow> p = take (length p) pre"
  by (auto simp: starts_with_iff dest: arg_cong [of _ _ "take (length p)"])

text \<open>The verdict on what the loop returns is the verdict on the whole stream.\<close>

lemma rtsp_verdict:
  assumes "inp = p @ rest"
    and "rest = [] \<or> find_header_terminator p \<noteq> None \<or> MAX_RESPONSE_BYTES \<le> length p"
  shows "starts_with STATUS_LINE_PREFIX p \<longleftrightarrow> starts_with STATUS_LINE_PREFIX inp"
proof (cases "length STATUS_LINE_PREFIX \<le> length p \<or> rest = []")
  case True
  then show ?thesis using starts_with_cut [OF assms(1), of "length STATUS_LINE_PREFIX" STATUS_LINE_PREFIX] by auto
next
  case False
  then have cr: "0x0D \<in> set p"
    using assms(2) find_sub_set [of HEADER_TERMINATOR p] by (auto simp: find_header_terminator_def)
  have "\<not> starts_with STATUS_LINE_PREFIX inp"
  proof
    assume "starts_with STATUS_LINE_PREFIX inp"
    then have "p = take (length p) STATUS_LINE_PREFIX"
      using starts_with_short [of STATUS_LINE_PREFIX p rest] False assms(1) by simp
    then have "set p \<subseteq> set STATUS_LINE_PREFIX" by (metis set_take_subset)
    with cr show False by auto
  qed
  moreover have "\<not> starts_with STATUS_LINE_PREFIX p"
    using False by (auto simp: starts_with_def dest: arg_cong [of _ _ length])
  ultimately show ?thesis by simp
qed

definition rtsp_spec :: "bytes \<Rightarrow> bytes \<Rightarrow> unit result \<Rightarrow> bytes \<Rightarrow> bool" where
  "rtsp_spec request inp res out \<longleftrightarrow>
     \<not> is_panic res \<and> (res = Ok () \<longleftrightarrow> starts_with STATUS_LINE_PREFIX inp) \<and> out = request"

context stream_peer
begin

lemma rtsp_relay:
  "relay (\<lambda>h. io_bind (st_write_all net h request) (\<lambda>_. rtsp_validate_response net h)) (rtsp_spec request)"
  unfolding relay_def
proof (intro allI)
  fix h w
  obtain w1 where 1: "st_write_all net h request w = Some (Ok (), w1)" "incoming w1 = incoming w" "outgoing w1 = outgoing w @ request"
    using peer_write [of h request w] by blast
  obtain p w2 where 2: "rtsp_read_loop net h [] w1 = Some (Ok p, w2)" "incoming w1 = p @ incoming w2" "outgoing w2 = outgoing w1"
      "incoming w2 = [] \<or> find_header_terminator p \<noteq> None \<or> MAX_RESPONSE_BYTES \<le> length p"
    using rtsp_read_loop_run [OF stream, of h "[]" w1] by auto
  have v: "starts_with STATUS_LINE_PREFIX p \<longleftrightarrow> starts_with STATUS_LINE_PREFIX (incoming w)"
    using rtsp_verdict [OF 2(2,4)] 1(2) by simp
  let ?res = "if starts_with STATUS_LINE_PREFIX p then Ok ()
    else err_other (''RTSP response did not start with `RTSP/1.0 200`: '' @ str_debug net (lossy (take (min (length p) 64) p)))"
  have "io_bind (st_write_all net h request) (\<lambda>_. rtsp_validate_response net h) w = Some (?res, w2)"
    unfolding rtsp_validate_response_def by (simp add: io_bind_def 1(1) 2(1) Let_def)
  moreover have "outgoing w2 = outgoing w @ request" using 1 2 by simp
  moreover have "rtsp_spec request (incoming w) ?res request" using v by (simp add: rtsp_spec_def)
  ultimately show "\<exists>res w'. io_bind (st_write_all net h request) (\<lambda>_. rtsp_validate_response net h) w = Some (res, w') \<and>
      (\<exists>out. outgoing w' = outgoing w @ out \<and> rtsp_spec request (incoming w) res out)" by blast
qed

end

section \<open>Properties\<close>

text \<open>
  C33. RTSP read loop. On every stream the loop ends: it returns a prefix of the incoming bytes, which
  is all of them, or contains the header terminator, or has at least 4096 bytes, and it never holds
  more than 4096 + 255 bytes.
\<close>

theorem rtsp_read_loop_ends:
  assumes "byte_stream io h incoming outgoing"
  shows "\<exists>p w'. rtsp_read_loop io h [] w = Some (Ok p, w') \<and> incoming w = p @ incoming w' \<and> length p < 4096 + 256 \<and>
    (incoming w' = [] \<or> find_header_terminator p \<noteq> None \<or> 4096 \<le> length p)"
proof -
  have "\<exists>p w'. rtsp_read_loop io h buf w = Some (Ok (buf @ p), w') \<and> length (buf @ p) < 4096 + 256"
    if "length buf < 4096" for buf
    using that
  proof (induction "length (incoming w)" arbitrary: w buf rule: less_induct)
    case less
    obtain bs w1 where 1: "st_read io h 256 w = Some (Ok bs, w1)" "incoming w = bs @ incoming w1" "length bs \<le> 256"
      using byte_stream.read_some [OF assms, of 256 w] by auto
    show ?case
    proof (cases "bs \<noteq> [] \<and> find_header_terminator (buf @ bs) = None \<and> length (buf @ bs) < 4096")
      case True
      then have "length (incoming w1) < length (incoming w)" using 1(2) by simp
      then obtain p w' where "rtsp_read_loop io h (buf @ bs) w1 = Some (Ok ((buf @ bs) @ p), w')" "length ((buf @ bs) @ p) < 4096 + 256"
        using less.hyps [of w1 "buf @ bs"] True by blast
      moreover have "rtsp_read_loop io h buf w = rtsp_read_loop io h (buf @ bs) w1"
        using True 1(1) by (subst rtsp_read_loop.simps) (simp add: io_bind_def)
      ultimately show ?thesis by (metis append_assoc)
    next
      case False
      then have "rtsp_read_loop io h buf w = Some (Ok (buf @ bs), w1)"
        using 1(1) by (subst rtsp_read_loop.simps) (auto simp: io_bind_def)
      with 1(3) less.prems show ?thesis by auto
    qed
  qed
  from this [of "[]"] show ?thesis
    using rtsp_read_loop_run [OF assms, of "[]" w] by auto
qed

lemma rtsp_read_loop_ends_witness:
  "\<exists>p w'. rtsp_read_loop script_io () [] \<lparr>chunks = [[1], [2, 3]], sent = []\<rparr> = Some (Ok p, w') \<and> [1, 2, 3] = p @ concat (chunks w')"
  using rtsp_read_loop_ends [OF scripted.byte_stream_axioms, of "\<lparr>chunks = [[1], [2, 3]], sent = []\<rparr>"] by auto

lemma rtsp_ping_outcome_fact:
  assumes "stream_peer net incoming outgoing" and "prompt net"
    and "get_uri (net_regex net) (rtsp_target p) = Ok uri" and "uri_domain uri \<noteq> []"
    and "to_ascii_lowercase (uri_scheme uri) \<in> {[], ''rtsp''} \<and> dp = RTSP_PORT_PLAIN \<or>
      to_ascii_lowercase (uri_scheme uri) = ''rtsps'' \<and> server_name_error net (uri_domain uri) = None \<and> dp = RTSP_PORT_TLS"
  shows "\<exists>res w'. rtsp_ping net p w = Some (res, w') \<and> \<not> is_panic res \<and>
    (res = Ok () \<longleftrightarrow> starts_with STATUS_LINE_PREFIX (incoming w)) \<and>
    outgoing w' = outgoing w @ build_options_request (uri_domain uri) (rtsp_port_or uri dp)"
proof -
  let ?req = "build_options_request (uri_domain uri) (rtsp_port_or uri dp)"
  note session = stream_peer.rtsp_relay [OF assms(1), of ?req]
  obtain ep where ep: "rtsp_endpoint_for uri dp = Ok ep" by (simp add: rtsp_endpoint_for_def)
  have "\<exists>res w' out. rtsp_ping net p w = Some (res, w') \<and> outgoing w' = outgoing w @ out \<and> rtsp_spec ?req (incoming w) res out"
  proof (cases "to_ascii_lowercase (uri_scheme uri) \<in> {[], ''rtsp''}")
    case True
    then have "dp = RTSP_PORT_PLAIN" using assms(5) by auto
    then show ?thesis
      using True ep stream_peer.relay_timeout [OF assms(1,2) session, where d = "rtsp_timeout p" and a = ep and w = w]
      by (auto simp: rtsp_ping_def rtsp_ping_plain_def assms(3,4) Let_def)
  next
    case False
    then have tls: "dp = RTSP_PORT_TLS" "to_ascii_lowercase (uri_scheme uri) = ''rtsps''" "server_name_error net (uri_domain uri) = None"
      using assms(5) by auto
    then show ?thesis
      using ep stream_peer.relay_timeout [OF assms(1,2) stream_peer.relay_tls [OF assms(1) session],
          where d = "rtsp_timeout p" and a = ep and w = w]
      by (auto simp: rtsp_ping_def rtsp_ping_tls_def assms(3,4) Let_def)
  qed
  then show ?thesis unfolding rtsp_spec_def by blast
qed

text \<open>
  C26. RTSP ping. For a target with a host and a supported scheme, against any server and however its
  bytes are cut, the ping finishes without a panic, writes exactly the OPTIONS request for the
  target's domain and port, and succeeds exactly when the server's bytes start with
  \<open>RTSP/1.0 200\<close>.
\<close>

theorem rtsp_ping_outcome:
  assumes "stream_peer net incoming outgoing" and "prompt net"
    and "get_uri (net_regex net) (rtsp_target p) = Ok uri" and "uri_domain uri \<noteq> []"
    and "to_ascii_lowercase (uri_scheme uri) \<in> {[], ''rtsp''} \<and> dp = RTSP_PORT_PLAIN \<or>
      to_ascii_lowercase (uri_scheme uri) = ''rtsps'' \<and> server_name_error net (uri_domain uri) = None \<and> dp = RTSP_PORT_TLS"
  shows "\<exists>res w'. rtsp_ping net p w = Some (res, w') \<and> \<not> is_panic res \<and>
    (res = Ok () \<longleftrightarrow> starts_with STATUS_LINE_PREFIX (incoming w)) \<and>
    outgoing w' = outgoing w @ build_options_request (uri_domain uri) (rtsp_port_or uri dp)"
  by (rule rtsp_ping_outcome_fact [OF assms])

lemma rtsp_ping_outcome_witness:
  "\<exists>w'. rtsp_ping (lab (\<lambda>_. None)) (RtspPinger_new ''srv:5300'')
      (lab_start [bytes_of ''RTSP/1.'', bytes_of ''0 200 OK'']) = Some (Ok (), w')"
proof -
  let ?p = "RtspPinger_new ''srv:5300''" and ?s = "[bytes_of ''RTSP/1.'', bytes_of ''0 200 OK'']"
  let ?u = "default_uri\<lparr>uri_host := ''srv:5300'', uri_domain := ''srv'', uri_port := 5300, uri_path := []\<rparr>"
  have u: "get_uri (net_regex (lab (\<lambda>_. None))) (rtsp_target ?p) = Ok ?u"
    by (simp add: RtspPinger_new_def)
  have s: "to_ascii_lowercase (uri_scheme ?u) \<in> {[], ''rtsp''}"
    by (simp add: default_uri_def to_ascii_lowercase_def)
  have "starts_with STATUS_LINE_PREFIX (concat ?s)" by simp
  then show ?thesis
    using rtsp_ping_outcome [OF lab_tcp.stream_peer_axioms lab_prompt u, of RTSP_PORT_PLAIN "lab_start ?s"] s by auto
qed

end
