(* ===== verification/Http.thy ===== *)
theory Http
  imports Lab
begin

text \<open>
  \<open>zpinger/src/http.rs\<close>: the request text, the exchange and the ping. The verdict is a function of
  the bytes of one \<open>read\<close>.
\<close>

section \<open>Definitions\<close>

abbreviation HTTP_BUF_SIZE :: nat where "HTTP_BUF_SIZE \<equiv> 255"
abbreviation HTTP_UNCONNECT_STATUS_CODE :: "string list" where
  "HTTP_UNCONNECT_STATUS_CODE \<equiv> [''404'', ''501'']"

datatype HttpMethod = Connect | Get | Post | Put | Delete | Patch

fun HttpMethod_as_str :: "HttpMethod \<Rightarrow> string" where
  "HttpMethod_as_str Connect = ''CONNECT''"
| "HttpMethod_as_str Get = ''GET''"
| "HttpMethod_as_str Post = ''POST''"
| "HttpMethod_as_str Put = ''PUT''"
| "HttpMethod_as_str Delete = ''DELETE''"
| "HttpMethod_as_str Patch = ''PATCH''"

definition has_body :: "HttpMethod \<Rightarrow> bool" where
  "has_body m = (m = Post \<or> m = Put \<or> m = Patch)"

record 'c HttpPinger =
  http_method :: HttpMethod
  http_target :: string
  http_timeout :: duration
  http_tls_config :: "'c option"

definition HttpPinger_new :: "HttpMethod \<Rightarrow> string \<Rightarrow> 'c HttpPinger" where
  "HttpPinger_new meth target =
     \<lparr>http_method = meth, http_target = target, http_timeout = from_secs 5, http_tls_config = None\<rparr>"

definition HttpPinger_with_timeout :: "'c HttpPinger \<Rightarrow> duration \<Rightarrow> 'c HttpPinger" where
  "HttpPinger_with_timeout self t = self\<lparr>http_timeout := t\<rparr>"

definition HttpPinger_with_tls_config :: "'c HttpPinger \<Rightarrow> 'c \<Rightarrow> 'c HttpPinger" where
  "HttpPinger_with_tls_config self config = self\<lparr>http_tls_config := Some config\<rparr>"

definition http_build_request :: "HttpMethod \<Rightarrow> URI \<Rightarrow> string \<Rightarrow> string" where
  "http_build_request meth uri host_header =
     (let method = HttpMethod_as_str meth;
          path = (if uri_path uri = [] then ''/'' else uri_path uri)
      in if has_body meth
         then method @ '' '' @ path @ '' HTTP/1.1'' @ crlf @
              ''Host: '' @ host_header @ crlf @
              ''User-Agent: Knock Knock'' @ crlf @
              ''Content-Type: application/json'' @ crlf @
              ''Content-Length: 2'' @ crlf @
              crlf @
              ''{}'' @ crlf @
              crlf
         else method @ '' '' @ path @ '' HTTP/1.1'' @ crlf @
              ''Host: '' @ host_header @ crlf @
              ''User-Agent: Knock Knock'' @ crlf @
              crlf)"

definition http_endpoint_for :: "URI \<Rightarrow> u16 \<Rightarrow> string result" where
  "http_endpoint_for uri default_port =
     (if uri_domain uri = [] then err_invalid ''missing host in target URL''
      else
        (let port = (if 0 < uri_port uri then as_u16 (uri_port uri) else default_port)
         in Ok (uri_domain uri @ '':'' @ dec (unat port))))"

text \<open>The status check: \<open>read_bytes\<close> is what \<open>read\<close> put at the front of the zeroed buffer.\<close>

definition http_verdict :: "bytes \<Rightarrow> unit result" where
  "http_verdict read_bytes =
     (let buffer = copy_at 0 read_bytes (replicate HTTP_BUF_SIZE 0);
          buffer_str = lossy buffer;
          status_line = split_first crlf buffer_str
      in if \<not> starts_with ''HTTP/'' status_line
         then err_other ''response is not HTTP/1.x (wrong port? wrong protocol?)''
         else (case filter (\<lambda>code. contains code status_line) HTTP_UNCONNECT_STATUS_CODE of
                 code # _ \<Rightarrow> Err (IoError NotFound code)
               | [] \<Rightarrow> Ok ()))"

definition run_exchange :: "('w, 'h, 'z) stream_io_scheme \<Rightarrow> 'h \<Rightarrow> string \<Rightarrow> ('w, unit) io" where
  "run_exchange io stream request =
     io_bind (st_write_all io stream (bytes_of request)) (\<lambda>_.
     io_bind (st_read io stream HTTP_BUF_SIZE) (\<lambda>read_bytes.
     io_lift (http_verdict read_bytes)))"

definition http_ping_plain :: "('w, 'h, 'c) net \<Rightarrow> 'c HttpPinger \<Rightarrow> URI \<Rightarrow> ('w, unit) io" where
  "http_ping_plain net self uri =
     io_bind (io_lift (http_endpoint_for uri 80)) (\<lambda>endpoint.
       let request = http_build_request (http_method self) uri endpoint
       in with_timeout net (http_timeout self)
            (io_bind (tcp_connect net endpoint) (\<lambda>stream. run_exchange net stream request)))"

definition http_ping_tls :: "('w, 'h, 'c) net \<Rightarrow> 'c HttpPinger \<Rightarrow> URI \<Rightarrow> ('w, unit) io" where
  "http_ping_tls net self uri =
     io_bind (io_lift (http_endpoint_for uri 443)) (\<lambda>endpoint.
       case server_name_error net (uri_domain uri) of
         Some e \<Rightarrow> io_err (IoError InvalidInput e)
       | None \<Rightarrow>
           (let config = (case http_tls_config self of Some c \<Rightarrow> c | None \<Rightarrow> default_client_config net);
                request = http_build_request (http_method self) uri endpoint
            in with_timeout net (http_timeout self)
                 (io_bind (tcp_connect net endpoint) (\<lambda>tcp.
                  io_bind (tls_connect net config (uri_domain uri) tcp) (\<lambda>stream.
                  run_exchange net stream request)))))"

definition http_ping :: "('w, 'h, 'c) net \<Rightarrow> 'c HttpPinger \<Rightarrow> ('w, unit) io" where
  "http_ping net self =
     io_bind (io_lift (get_uri (net_regex net) (http_target self))) (\<lambda>uri.
       let scheme = to_ascii_lowercase (uri_scheme uri)
       in if scheme = '''' \<or> scheme = ''http'' then http_ping_plain net self uri
          else if scheme = ''https'' then http_ping_tls net self uri
          else io_err (IoError Other (''scheme '' @ [CHR 0x27] @ scheme @ [CHR 0x27]
                 @ '' is not supported by HttpPinger (use http:// or https://)'')))"

section \<open>Requests\<close>

interpretation http_addr: dial_address "\<lambda>rx s. bind_r (get_uri rx s) (\<lambda>uri. http_endpoint_for uri default_port)"
    "\<lambda>_. default_port" for default_port
  by unfold_locales (auto simp: http_endpoint_for_def Let_def)

lemma http_endpoint_ok: "uri_domain uri \<noteq> [] \<Longrightarrow>
    http_endpoint_for uri dp = Ok (uri_domain uri @ '':'' @ dec (unat (http_addr.port_of dp uri)))"
  by (simp add: http_endpoint_for_def http_addr.port_of_def Let_def)

text \<open>
  HTTP request. A request with a body announces a Content-Length of 2 right before the blank
  line and then carries six bytes, the four after the announced two being a stray blank line; any
  other request ends with its blank line; the query of the target is in no request.
\<close>

theorem http_request_shape:
  "(\<exists>head. http_build_request meth uri host =
      (if has_body meth then head @ ''Content-Length: 2'' @ crlf @ crlf @ ''{}'' @ crlf @ crlf else head @ crlf @ crlf)) \<and>
   length (''{}'' @ crlf @ crlf) = 6 \<and>
   http_build_request meth (uri\<lparr>uri_query := q\<rparr>) host = http_build_request meth uri host"
proof (intro conjI)
  let ?path = "if uri_path uri = [] then ''/'' else uri_path uri"
  let ?common = "HttpMethod_as_str meth @ '' '' @ ?path @ '' HTTP/1.1'' @ crlf @ ''Host: '' @ host @ crlf @
    ''User-Agent: Knock Knock''"
  show "\<exists>head. http_build_request meth uri host =
      (if has_body meth then head @ ''Content-Length: 2'' @ crlf @ crlf @ ''{}'' @ crlf @ crlf else head @ crlf @ crlf)"
    by (rule exI [of _ "if has_body meth then ?common @ crlf @ ''Content-Type: application/json'' @ crlf else ?common"])
      (simp add: http_build_request_def Let_def)
qed (simp_all add: http_build_request_def Let_def)

section \<open>The verdict\<close>

definition line_verdict :: "string \<Rightarrow> unit result" where
  "line_verdict line =
     (if \<not> starts_with ''HTTP/'' line then err_other ''response is not HTTP/1.x (wrong port? wrong protocol?)''
      else if contains ''404'' line then Err (IoError NotFound ''404'')
      else if contains ''501'' line then Err (IoError NotFound ''501'')
      else Ok ())"

lemma http_verdict_line:
  "http_verdict bs = line_verdict (split_first crlf (lossy (bs @ drop (length bs) (replicate 255 0))))"
  by (simp add: http_verdict_def line_verdict_def Let_def copy_at_0)

lemma http_verdict_no_panic: "\<not> is_panic (http_verdict bs)"
  by (simp add: http_verdict_line line_verdict_def)

text \<open>A complete status line decides, whatever follows it in the same read.\<close>

lemma http_verdict_complete:
  assumes "ascii line" and "CHR 0x0D \<notin> set line" and "length line + 2 + length rest \<le> 255"
  shows "http_verdict (bytes_of (line @ crlf) @ rest) = line_verdict line"
proof -
  have "ascii (line @ crlf)" using assms(1) by (simp add: ascii_def)
  then have l: "lossy (bytes_of (line @ crlf) @ x) = (line @ crlf) @ lossy x" for x
    by (subst lossy_ascii_append [OF ascii_bytes_of]) (simp_all only: chars_of_bytes_of)
  show ?thesis
    using split_first_first [OF assms(2), of "[CHR 0x0A]"] l unfolding http_verdict_line
    by (simp only: append_assoc) simp
qed

text \<open>A read without a line end is judged as if the line ended there.\<close>

lemma http_verdict_partial:
  assumes "ascii line" and "CHR 0x0D \<notin> set line" and "5 \<le> length line" "length line \<le> 255"
  shows "http_verdict (bytes_of line) = line_verdict line"
proof -
  let ?pad = "replicate (255 - length line) (CHR 0x00)"
  have "bytes_of line @ drop (length (bytes_of line)) (replicate 255 0) = bytes_of (line @ ?pad)"
    using assms(4) by (simp add: bytes_of_def)
  moreover have "ascii (line @ ?pad)" using assms(1) by (auto simp: ascii_def list_all_iff)
  ultimately have "lossy (bytes_of line @ drop (length (bytes_of line)) (replicate 255 0)) = line @ ?pad"
    by (simp only: lossy_ascii ascii_bytes_of chars_of_bytes_of)
  moreover have "split_first crlf (line @ ?pad) = line @ ?pad"
    using assms(2) by (intro split_first_none [of "CHR 0x0D"]) auto
  moreover have "starts_with ''HTTP/'' (line @ ?pad) \<longleftrightarrow> starts_with ''HTTP/'' line"
    using assms(3) by (simp add: starts_with_def)
  ultimately show ?thesis
    unfolding http_verdict_line line_verdict_def by (simp add: contains_pad)
qed

text \<open>
  The verdict on the bytes read: it is passed on the bytes before the first CR LF, which the lossy
  conversion and the zeros after the read do not change as far as the three texts looked for go.
\<close>

lemma first_line_pad:
  assumes "c \<notin> set p" and "p \<noteq> []"
  shows "split_first p (s @ replicate n c) = (if contains p s then split_first p s else s @ replicate n c)"
proof (cases "contains p s")
  case True
  then obtain i where i: "find_sub p s = Some i" by (auto simp: contains_def)
  have "find_sub p (s @ t) = Some i" for t
    using i
  proof (induction s arbitrary: i)
    case (Cons x xs)
    have "starts_with p (x # xs @ t) \<longleftrightarrow> starts_with p (x # xs)" if "find_sub p (x # xs) = Some j" for j
    proof -
      have "length p \<le> length (x # xs)" using find_sub_split [OF that] by (metis le_add1 le_add2 le_trans length_append)
      then show ?thesis by (simp add: starts_with_def take_Cons' diff_le_mono)
    qed
    then show ?case using Cons by (auto split: if_splits)
  qed (use assms(2) in simp)
  then show ?thesis using True i find_sub_split [OF i] by (simp add: split_first_def)
next
  case False
  then have "find_sub p (s @ replicate n c) = None" using contains_pad [OF assms, of s n] by (simp add: contains_def)
  then show ?thesis using False by (simp add: split_first_def)
qed

lemma split_first_whole: "\<not> contains p s \<Longrightarrow> split_first p s = s"
  by (simp add: split_first_def contains_def split: option.split)

lemma starts_with_pad:
  assumes "c \<notin> set p"
  shows "starts_with p (s @ replicate n c) \<longleftrightarrow> starts_with p s"
proof
  assume "starts_with p (s @ replicate n c)"
  then have t: "take (length p) (s @ replicate n c) = p" by (simp add: starts_with_def)
  have "length p \<le> length s"
  proof (rule ccontr)
    assume "\<not> length p \<le> length s"
    then have "take (length p) (s @ replicate n c) = s @ replicate (min (length p - length s) n) c" "length s < length p" by simp_all
    moreover from this t have "min (length p - length s) n \<noteq> 0"
      by (metis append_Nil2 less_irrefl replicate_0)
    ultimately have "c \<in> set p" using t by (metis Un_iff in_set_replicate set_append)
    then show False using assms by simp
  qed
  then show "starts_with p s" using t by (simp add: starts_with_def)
qed (auto simp: starts_with_iff)

lemma first_line_pad_starts:
  assumes "c \<notin> set p" and "p \<noteq> []" and "c \<notin> set q" and "q \<noteq> []"
  shows "starts_with q (split_first p (s @ replicate n c)) \<longleftrightarrow> starts_with q (split_first p s)"
    and "contains q (split_first p (s @ replicate n c)) \<longleftrightarrow> contains q (split_first p s)"
  using first_line_pad [OF assms(1,2)] split_first_whole [of p s] starts_with_pad [OF assms(3)] contains_pad [OF assms(3,4)] by auto

lemma http_verdict_bytes:
  "http_verdict got = (let line = split_first (bytes_of crlf) got
     in if \<not> starts_with (bytes_of ''HTTP/'') line then err_other ''response is not HTTP/1.x (wrong port? wrong protocol?)''
        else if contains (bytes_of ''404'') line then Err (IoError NotFound ''404'')
        else if contains (bytes_of ''501'') line then Err (IoError NotFound ''501'')
        else Ok ())"
proof -
  have texts: "ascii crlf" "ascii ''HTTP/''" "ascii ''404''" "ascii ''501''" by (simp_all add: ascii_def)
  have zero: "0 \<notin> set (bytes_of crlf)" "0 \<notin> set (bytes_of ''HTTP/'')" "0 \<notin> set (bytes_of ''404'')" "0 \<notin> set (bytes_of ''501'')"
    by simp_all
  have pad: "drop (length got) (replicate 255 (0 :: u8)) = replicate (255 - length got) 0" by simp
  show ?thesis
    unfolding http_verdict_line line_verdict_def lossy_first [OF texts(1)] Let_def pad
    by (simp add: lossy_first texts lossy_starts lossy_contains first_line_pad_starts zero del: bytes_of_Cons)
qed

lemma http_verdict_Ok_iff:
  "http_verdict got = Ok () \<longleftrightarrow> (let line = split_first (bytes_of crlf) got
     in starts_with (bytes_of ''HTTP/'') line \<and> \<not> contains (bytes_of ''404'') line \<and> \<not> contains (bytes_of ''501'') line)"
  by (simp only: http_verdict_bytes Let_def) (auto simp del: bytes_of_Cons)

section \<open>The exchange\<close>

text \<open>One read: what it got is what the stream then lacks.\<close>

context stream_peer
begin

lemma http_exchange:
  "\<exists>got w'. run_exchange net h request w = Some (http_verdict got, w') \<and> incoming w = got @ incoming w' \<and> length got \<le> 255 \<and>
    (got = [] \<longrightarrow> incoming w = []) \<and> outgoing w' = outgoing w @ bytes_of request"
proof -
  obtain w1 where 1: "st_write_all net h (bytes_of request) w = Some (Ok (), w1)" "incoming w1 = incoming w"
      "outgoing w1 = outgoing w @ bytes_of request"
    using peer_write [of h "bytes_of request" w] by blast
  obtain got w2 where 2: "st_read net h 255 w1 = Some (Ok got, w2)" "length got \<le> 255" "incoming w1 = got @ incoming w2"
      "got = [] \<longrightarrow> incoming w1 = []" "outgoing w2 = outgoing w1"
    using peer_read [of 255 h w1] by auto
  have "run_exchange net h request w = Some (http_verdict got, w2)"
    by (simp add: run_exchange_def io_bind_def 1 2(1))
  then show ?thesis using 1 2 by metis
qed

lemma http_connected:
  "\<exists>got w'. io_bind (tcp_connect net a) (\<lambda>s. run_exchange net s request) w = Some (http_verdict got, w') \<and>
    incoming w = got @ incoming w' \<and> length got \<le> 255 \<and> (got = [] \<longrightarrow> incoming w = []) \<and> outgoing w' = outgoing w @ bytes_of request"
  "\<exists>got w'. io_bind (tcp_connect net a) (\<lambda>t. io_bind (tls_connect net c n t) (\<lambda>s. run_exchange net s request)) w = Some (http_verdict got, w') \<and>
    incoming w = got @ incoming w' \<and> length got \<le> 255 \<and> (got = [] \<longrightarrow> incoming w = []) \<and> outgoing w' = outgoing w @ bytes_of request"
proof -
  obtain h w1 where 1: "tcp_connect net a w = Some (Ok h, w1)" "incoming w1 = incoming w" "outgoing w1 = outgoing w"
    using tcp_ok [of a w] by blast
  show "\<exists>got w'. io_bind (tcp_connect net a) (\<lambda>s. run_exchange net s request) w = Some (http_verdict got, w') \<and>
      incoming w = got @ incoming w' \<and> length got \<le> 255 \<and> (got = [] \<longrightarrow> incoming w = []) \<and> outgoing w' = outgoing w @ bytes_of request"
    using http_exchange [of h request w1] by (simp add: io_bind_def 1)
  obtain s w2 where 2: "tls_connect net c n h w1 = Some (Ok s, w2)" "incoming w2 = incoming w1" "outgoing w2 = outgoing w1"
    using tls_ok [of c n h w1] by blast
  show "\<exists>got w'. io_bind (tcp_connect net a) (\<lambda>t. io_bind (tls_connect net c n t) (\<lambda>s. run_exchange net s request)) w = Some (http_verdict got, w') \<and>
      incoming w = got @ incoming w' \<and> length got \<le> 255 \<and> (got = [] \<longrightarrow> incoming w = []) \<and> outgoing w' = outgoing w @ bytes_of request"
    using http_exchange [of s request w2] by (simp add: io_bind_def 1 2)
qed

end

section \<open>Properties\<close>

lemma http_ping_outcome_fact:
  assumes "stream_peer net incoming outgoing" and "prompt net"
    and "get_uri (net_regex net) (http_target p) = Ok uri" and "uri_domain uri \<noteq> []"
    and "to_ascii_lowercase (uri_scheme uri) \<in> {[], ''http''} \<and> dp = 80 \<or>
      to_ascii_lowercase (uri_scheme uri) = ''https'' \<and> server_name_error net (uri_domain uri) = None \<and> dp = 443"
  shows "\<exists>got w'. http_ping net p w = Some (http_verdict got, w') \<and> incoming w = got @ incoming w' \<and> length got \<le> 255 \<and>
    (got = [] \<longrightarrow> incoming w = []) \<and>
    outgoing w' = outgoing w @ bytes_of (http_build_request (http_method p) uri (uri_domain uri @ '':'' @ dec (unat (http_addr.port_of dp uri))))"
proof (cases "to_ascii_lowercase (uri_scheme uri) \<in> {[], ''http''}")
  case True
  then have "dp = 80" using assms(5) by auto
  let ?ep = "uri_domain uri @ '':'' @ dec (unat (http_addr.port_of 80 uri))"
  let ?req = "http_build_request (http_method p) uri ?ep"
  obtain got w' where r: "io_bind (tcp_connect net ?ep) (\<lambda>s. run_exchange net s ?req) w = Some (http_verdict got, w')"
      "incoming w = got @ incoming w'" "length got \<le> 255" "got = [] \<longrightarrow> incoming w = []" "outgoing w' = outgoing w @ bytes_of ?req"
    using stream_peer.http_connected(1) [OF assms(1), of ?ep ?req w] by blast
  have "with_timeout net (http_timeout p) (io_bind (tcp_connect net ?ep) (\<lambda>s. run_exchange net s ?req)) w = Some (http_verdict got, w')"
    by (rule with_timeout_prompt [OF assms(2)]) (rule r(1))
  then have "http_ping net p w = Some (http_verdict got, w')"
    using True
    by (auto simp: http_ping_def http_ping_plain_def assms(3) http_endpoint_ok [OF assms(4)] Let_def)
  with r(2-5) show ?thesis unfolding \<open>dp = 80\<close> by blast
next
  case False
  then have tls: "dp = 443" "to_ascii_lowercase (uri_scheme uri) = ''https''" "server_name_error net (uri_domain uri) = None"
    using assms(5) by auto
  let ?ep = "uri_domain uri @ '':'' @ dec (unat (http_addr.port_of 443 uri))"
  let ?req = "http_build_request (http_method p) uri ?ep"
  let ?c = "case http_tls_config p of Some c \<Rightarrow> c | None \<Rightarrow> default_client_config net"
  obtain got w' where r: "io_bind (tcp_connect net ?ep) (\<lambda>t. io_bind (tls_connect net ?c (uri_domain uri) t) (\<lambda>s. run_exchange net s ?req)) w =
        Some (http_verdict got, w')"
      "incoming w = got @ incoming w'" "length got \<le> 255" "got = [] \<longrightarrow> incoming w = []" "outgoing w' = outgoing w @ bytes_of ?req"
    using stream_peer.http_connected(2) [OF assms(1), of ?ep ?c "uri_domain uri" ?req w] by blast
  have "with_timeout net (http_timeout p)
      (io_bind (tcp_connect net ?ep) (\<lambda>t. io_bind (tls_connect net ?c (uri_domain uri) t) (\<lambda>s. run_exchange net s ?req))) w = Some (http_verdict got, w')"
    by (rule with_timeout_prompt [OF assms(2)]) (rule r(1))
  then have "http_ping net p w = Some (http_verdict got, w')"
    by (simp add: http_ping_def http_ping_tls_def assms(3) http_endpoint_ok [OF assms(4)] tls Let_def)
  with r(2-5) show ?thesis unfolding \<open>dp = 443\<close> by blast
qed

text \<open>The request, line by line.\<close>

definition request_lines :: "HttpMethod \<Rightarrow> string \<Rightarrow> string \<Rightarrow> string list" where
  "request_lines m path host =
     [(case m of Connect \<Rightarrow> ''CONNECT'' | Get \<Rightarrow> ''GET'' | Post \<Rightarrow> ''POST'' | Put \<Rightarrow> ''PUT'' | Delete \<Rightarrow> ''DELETE'' | Patch \<Rightarrow> ''PATCH'')
        @ '' '' @ path @ '' HTTP/1.1'', ''Host: '' @ host, ''User-Agent: Knock Knock''] @
     (if m \<in> {Post, Put, Patch} then [''Content-Type: application/json'', ''Content-Length: 2'', [], ''{}'', []] else [[]])"

lemma build_request_lines:
  "http_build_request m uri host = concat (map (\<lambda>l. l @ crlf) (request_lines m (if uri_path uri = [] then ''/'' else uri_path uri) host))"
  by (cases m) (simp_all add: http_build_request_def request_lines_def has_body_def Let_def)

text \<open>
  C27. HTTP ping. For a target with a host and a supported scheme, against any server, the ping writes
  the request line with the method's name and the target's path, the Host, User-Agent and, for a
  method with a body, content headers and the body; it takes at most 255 bytes off the stream, none only
  when the server sends none, and the bytes before the first CR LF of what it took decide: success exactly when
  they begin with HTTP/ and contain neither 404 nor 501, \<open>NotFound\<close> with that code when they contain one, and
  another error when they do not begin with HTTP/. So a 500 response is a success.
\<close>

theorem http_ping_outcome:
  assumes "stream_peer net incoming outgoing" and "prompt net"
    and "get_uri (net_regex net) (http_target p) = Ok uri" and "uri_domain uri \<noteq> []"
    and "to_ascii_lowercase (uri_scheme uri) \<in> {[], ''http''} \<and> dp = 80 \<or>
      to_ascii_lowercase (uri_scheme uri) = ''https'' \<and> server_name_error net (uri_domain uri) = None \<and> dp = 443"
  shows "\<exists>got res w'. http_ping net p w = Some (res, w') \<and> incoming w = got @ incoming w' \<and> length got \<le> 255 \<and>
    (got = [] \<longrightarrow> incoming w = []) \<and>
    outgoing w' = outgoing w @ bytes_of (concat (map (\<lambda>l. l @ crlf)
      (request_lines (http_method p) (if uri_path uri = [] then ''/'' else uri_path uri)
        (uri_domain uri @ '':'' @ dec (unat (if 0 < uri_port uri then as_u16 (uri_port uri) else dp)))))) \<and>
    (let line = split_first (bytes_of crlf) got; is_http = starts_with (bytes_of ''HTTP/'') line;
         says = (\<lambda>code. contains (bytes_of code) line)
     in (res = Ok () \<longleftrightarrow> is_http \<and> \<not> says ''404'' \<and> \<not> says ''501'') \<and>
        (is_http \<and> says ''404'' \<longrightarrow> res = Err (IoError NotFound ''404'')) \<and>
        (is_http \<and> \<not> says ''404'' \<and> says ''501'' \<longrightarrow> res = Err (IoError NotFound ''501'')) \<and>
        (\<not> is_http \<longrightarrow> (\<exists>m. res = Err (IoError Other m))))"
proof -
  obtain got w' where r: "http_ping net p w = Some (http_verdict got, w')" "incoming w = got @ incoming w'" "length got \<le> 255"
      "got = [] \<longrightarrow> incoming w = []"
      "outgoing w' = outgoing w @ bytes_of (http_build_request (http_method p) uri (uri_domain uri @ '':'' @ dec (unat (http_addr.port_of dp uri))))"
    using http_ping_outcome_fact [OF assms, of w] by blast
  show ?thesis
    by (rule exI [of _ got], rule exI [of _ "http_verdict got"], rule exI [of _ w'])
      (use r(2-4) in \<open>simp add: r(1) r(5) build_request_lines http_addr.port_of_def, simp add: http_verdict_bytes Let_def\<close>)
qed

lemma http_ping_outcome_witness:
  "\<exists>got res w'. http_ping (lab (\<lambda>_. None)) (HttpPinger_new Get ''srv:5300'') (lab_start [bytes_of ''HTTP/1.1 500 Oops'']) = Some (res, w') \<and>
     bytes_of ''HTTP/1.1 500 Oops'' = got @ concat (chunks w') \<and> got \<noteq> [] \<and>
     (res = Ok () \<longleftrightarrow> starts_with (bytes_of ''HTTP/'') (split_first (bytes_of crlf) got) \<and>
        \<not> contains (bytes_of ''404'') (split_first (bytes_of crlf) got) \<and> \<not> contains (bytes_of ''501'') (split_first (bytes_of crlf) got)) \<and>
     sent w' = bytes_of (''GET / HTTP/1.1'' @ crlf @ ''Host: srv:5300'' @ crlf @ ''User-Agent: Knock Knock'' @ crlf @ crlf)"
proof -
  let ?p = "HttpPinger_new Get ''srv:5300''" and ?w = "lab_start [bytes_of ''HTTP/1.1 500 Oops'']"
  let ?u = "default_uri\<lparr>uri_host := ''srv:5300'', uri_domain := ''srv'', uri_port := 5300, uri_path := []\<rparr>"
  have u: "get_uri (net_regex (lab (\<lambda>_. None))) (http_target ?p) = Ok ?u"
    by (simp add: HttpPinger_new_def)
  have d: "uri_domain ?u \<noteq> []" and sc: "to_ascii_lowercase (uri_scheme ?u) \<in> {[], ''http''} \<and> (80 :: u16) = 80 \<or>
      to_ascii_lowercase (uri_scheme ?u) = ''https'' \<and> server_name_error (lab (\<lambda>_. None)) (uri_domain ?u) = None \<and> (80 :: u16) = 443"
    by simp_all
  have m: "request_lines (http_method ?p) (if uri_path ?u = [] then ''/'' else uri_path ?u)
      (uri_domain ?u @ '':'' @ dec (unat (if 0 < uri_port ?u then as_u16 (uri_port ?u) else 80))) =
      [''GET / HTTP/1.1'', ''Host: srv:5300'', ''User-Agent: Knock Knock'', []]"
    by (simp add: HttpPinger_new_def request_lines_def)
  have all: "concat (chunks ?w) = bytes_of ''HTTP/1.1 500 Oops''" by (simp del: bytes_of_Cons)
  obtain got res w' where *: "http_ping (lab (\<lambda>_. None)) ?p ?w = Some (res, w')"
      "bytes_of ''HTTP/1.1 500 Oops'' = got @ concat (chunks w')" "got = [] \<longrightarrow> bytes_of ''HTTP/1.1 500 Oops'' = []"
      "sent w' = sent ?w @ bytes_of (concat (map (\<lambda>l. l @ crlf) [''GET / HTTP/1.1'', ''Host: srv:5300'', ''User-Agent: Knock Knock'', []]))"
      "res = Ok () \<longleftrightarrow> starts_with (bytes_of ''HTTP/'') (split_first (bytes_of crlf) got) \<and>
        \<not> contains (bytes_of ''404'') (split_first (bytes_of crlf) got) \<and> \<not> contains (bytes_of ''501'') (split_first (bytes_of crlf) got)"
    using http_ping_outcome [OF lab_tcp.stream_peer_axioms lab_prompt u d sc, of ?w] unfolding m all Let_def by blast
  have "got \<noteq> []" using *(3) by auto
  moreover have "sent w' = bytes_of (''GET / HTTP/1.1'' @ crlf @ ''Host: srv:5300'' @ crlf @ ''User-Agent: Knock Knock'' @ crlf @ crlf)"
    using *(4) by simp
  ultimately show ?thesis using *(1,2,5) by blast
qed

lemma take_past: "length a \<le> n \<Longrightarrow> take n (a @ b) = a @ take (n - length a) b"
  by simp

text \<open>
  HTTP status. A read that holds a complete ASCII status line is judged on that line alone,
  whatever follows it and however long the response is: not HTTP, NotFound for a line that contains
  404 or 501, success otherwise.
\<close>

theorem http_status_line:
  assumes "ascii line" and "CHR 0x0D \<notin> set line" and "length line + 2 \<le> n" and "n \<le> 255"
  shows "http_verdict (take n (bytes_of (line @ crlf) @ body)) =
    (if \<not> starts_with ''HTTP/'' line then err_other ''response is not HTTP/1.x (wrong port? wrong protocol?)''
     else if contains ''404'' line then Err (IoError NotFound ''404'')
     else if contains ''501'' line then Err (IoError NotFound ''501'')
     else Ok ())"
proof -
  have "take n (bytes_of (line @ crlf) @ body) = bytes_of (line @ crlf) @ take (n - length line - 2) body"
    using assms(3) take_past [of "bytes_of (line @ crlf)" n body] by simp
  moreover have "length line + 2 + length (take (n - length line - 2) body) \<le> 255"
    using assms(3,4) by simp
  ultimately show ?thesis
    using http_verdict_complete [OF assms(1,2)] by (simp add: line_verdict_def)
qed

lemma http_status_line_witness:
  "http_verdict (take 20 (bytes_of (''HTTP/1.1 200 OK'' @ crlf) @ [1, 2, 3, 4])) = Ok ()"
proof -
  have "ascii ''HTTP/1.1 200 OK''" by (simp add: ascii_def)
  then show ?thesis
    by (subst http_status_line) (simp_all add: contains_def)
qed

text \<open>
  HTTP status, cut. The verdict depends on how the network cuts the response: the same bytes of a
  404 response are NotFound in one piece and a success when the first piece ends inside the code.
\<close>

theorem http_split_status:
  "(\<exists>w'. run_exchange script_io () request \<lparr>chunks = [bytes_of (''HTTP/1.1 4'' @ ''04 Not Found'' @ crlf)], sent = []\<rparr> =
       Some (Err (IoError NotFound ''404''), w')) \<and>
   (\<exists>w'. run_exchange script_io () request \<lparr>chunks = [bytes_of ''HTTP/1.1 4'', bytes_of (''04 Not Found'' @ crlf)], sent = []\<rparr> =
       Some (Ok (), w'))"
proof -
  have run: "\<exists>w'. run_exchange script_io () request \<lparr>chunks = bytes_of s # cs, sent = []\<rparr> = Some (http_verdict (bytes_of s), w')"
    if "s \<noteq> []" "length s \<le> 255" for s cs
    using that by (simp add: run_exchange_def io_bind_def script_io_def script_write_all_def script_read_def)
  have "http_verdict (bytes_of (''HTTP/1.1 404 Not Found'' @ crlf)) = Err (IoError NotFound ''404'')"
    using http_verdict_complete [of "''HTTP/1.1 404 Not Found''" "[]"] by (simp add: ascii_def line_verdict_def contains_def)
  moreover have "http_verdict (bytes_of ''HTTP/1.1 4'') = Ok ()"
    using http_verdict_partial [of "''HTTP/1.1 4''"] by (simp add: ascii_def line_verdict_def contains_def)
  ultimately show ?thesis
    using run [of "''HTTP/1.1 4'' @ ''04 Not Found'' @ crlf" "[]"]
      run [of "''HTTP/1.1 4''" "[bytes_of (''04 Not Found'' @ crlf)]"] by simp
qed

end
