(* ===== verification/StreamServers.thy ===== *)
theory StreamServers
  imports Mqtt Rtmp Rtsp Http Hls WebSocket Level4
begin

text \<open>
  \<open>testserver/src/lib.rs\<close>, the TCP servers: what each does with one accepted connection (echo, HTTP,
  HLS, MQTT, RTSP, RTMP, WebSocket, and the TLS variants of HTTP, MQTT and WebSocket). A connection
  is handled on its own thread and shares no state with others. The blocking \<open>Read\<close>/\<open>Write\<close> calls are the
  operations of \<open>stream_io\<close>; rustls and tungstenite are parameters.
\<close>

section \<open>Definitions\<close>

abbreviation STREAM_BUF_SIZE :: nat where "STREAM_BUF_SIZE \<equiv> 1024"

text \<open>\<open>let _ = ...\<close>: a result that is dropped.\<close>

definition ignore :: "('w, 'a) io \<Rightarrow> ('w, unit) io" where
  "ignore m = io_catch m (\<lambda>_. io_ok ()) (\<lambda>_. io_ok ())"

definition tcp_echo_conn :: "('w, 'h, 'z) stream_io_scheme \<Rightarrow> 'h \<Rightarrow> ('w, unit) io" where
  "tcp_echo_conn io s =
     io_catch (st_read io s STREAM_BUF_SIZE) (\<lambda>buf. ignore (st_write_all io s buf)) (\<lambda>_. io_ok ())"

definition http_ok_response :: string where
  "http_ok_response = ''HTTP/1.1 200 OK'' @ crlf @ ''Content-Length: 0'' @ crlf @ ''Connection: close'' @ crlf @ crlf"

definition http_ok_conn :: "('w, 'h, 'z) stream_io_scheme \<Rightarrow> 'h \<Rightarrow> ('w, unit) io" where
  "http_ok_conn io s =
     io_bind (ignore (st_read io s STREAM_BUF_SIZE)) (\<lambda>_.
     ignore (st_write_all io s (bytes_of http_ok_response)))"

text \<open>\<open>ServerConnection::new\<close> and \<open>StreamOwned::new\<close> as one parameter.\<close>

definition https_ok_conn :: "('h \<Rightarrow> string + 'h) \<Rightarrow> ('w, 'h, 'z) stream_io_scheme \<Rightarrow> 'h \<Rightarrow> ('w, unit) io" where
  "https_ok_conn server_connection io s =
     (case server_connection s of Inl _ \<Rightarrow> io_ok () | Inr tls \<Rightarrow> http_ok_conn io tls)"

subsection \<open>MQTT\<close>

fun read_mqtt_loop :: "('w, 'h, 'z) stream_io_scheme \<Rightarrow> 'h \<Rightarrow> u8 \<Rightarrow> nat \<Rightarrow> nat \<Rightarrow> nat \<Rightarrow> ('w, u8 \<times> bytes) io" where
  "read_mqtt_loop io s ty 0 multiplier remaining =
     io_err (IoError Other ''MQTT remaining-length varint exceeds 4 bytes'')"
| "read_mqtt_loop io s ty (Suc k) multiplier remaining =
     io_bind (st_read_exact io s 1) (\<lambda>byte.
       let b = byte ! 0;
           remaining = remaining + unat (b AND 0x7F) * multiplier
       in if b AND 0x80 = 0
          then
            (if remaining > 0
             then io_bind (st_read_exact io s remaining) (\<lambda>body. io_ok (ty, body))
             else io_ok (ty, []))
          else read_mqtt_loop io s ty k (saturating_mul multiplier 128) remaining)"

definition read_mqtt_packet :: "('w, 'h, 'z) stream_io_scheme \<Rightarrow> 'h \<Rightarrow> ('w, u8 \<times> bytes) io" where
  "read_mqtt_packet io s =
     io_bind (st_read_exact io s 1) (\<lambda>header. read_mqtt_loop io s (header ! 0) 4 1 0)"

partial_function (option) mqtt_session_loop :: "('w, 'h, 'z) stream_io_scheme \<Rightarrow> 'h \<Rightarrow> ('w, unit) io" where
  "mqtt_session_loop io s w =
     io_catch (read_mqtt_packet io s) (\<lambda>(packet_type, _) w.
       if packet_type AND 0xF0 = 0xC0
       then io_catch (st_write_all io s [0xD0, 0x00]) (\<lambda>_. mqtt_session_loop io s) (\<lambda>_. io_ok ()) w
       else if packet_type AND 0xF0 = 0xE0 then io_ok () w
       else io_ok () w) (\<lambda>_. io_ok ()) w"

definition handle_mqtt_session :: "('w, 'h, 'z) stream_io_scheme \<Rightarrow> 'h \<Rightarrow> ('w, unit) io" where
  "handle_mqtt_session io s =
     io_catch (read_mqtt_packet io s) (\<lambda>(first_type, _).
       if first_type AND 0xF0 \<noteq> 0x10 then io_ok ()
       else io_catch (st_write_all io s [0x20, 0x02, 0x00, 0x00]) (\<lambda>_. mqtt_session_loop io s) (\<lambda>_. io_ok ()))
       (\<lambda>_. io_ok ())"

definition mqtts_conn :: "('h \<Rightarrow> string + 'h) \<Rightarrow> ('w, 'h, 'z) stream_io_scheme \<Rightarrow> 'h \<Rightarrow> ('w, unit) io" where
  "mqtts_conn server_connection io s =
     (case server_connection s of Inl _ \<Rightarrow> io_ok () | Inr tls \<Rightarrow> handle_mqtt_session io tls)"

subsection \<open>RTSP and RTMP\<close>

text \<open>The request loop: \<open>got\<close> is \<open>buf[..total]\<close>; \<open>None\<close> is an early return.\<close>

partial_function (option) rtsp_request_loop :: "('w, 'h, 'z) stream_io_scheme \<Rightarrow> 'h \<Rightarrow> bytes \<Rightarrow> ('w, bytes option) io" where
  "rtsp_request_loop io s got w =
     io_catch (st_read io s (STREAM_BUF_SIZE - length got)) (\<lambda>chunk w.
       if length chunk = 0 then io_ok None w
       else if contains (bytes_of (crlf @ crlf)) (got @ chunk) then io_ok (Some (got @ chunk)) w
       else if length (got @ chunk) \<ge> STREAM_BUF_SIZE then io_ok None w
       else rtsp_request_loop io s (got @ chunk) w) (\<lambda>_. io_ok None) w"

definition rtsp_ok_response :: string where
  "rtsp_ok_response = ''RTSP/1.0 200 OK'' @ crlf @ ''CSeq: 1'' @ crlf
     @ ''Public: OPTIONS, DESCRIBE, SETUP, PLAY, TEARDOWN'' @ crlf @ crlf"

definition rtsp_ok_conn :: "('w, 'h, 'z) stream_io_scheme \<Rightarrow> 'h \<Rightarrow> ('w, unit) io" where
  "rtsp_ok_conn io s =
     io_bind (rtsp_request_loop io s []) (\<lambda>got.
       case got of
         None \<Rightarrow> io_ok ()
       | Some req \<Rightarrow>
           if \<not> starts_with (bytes_of ''OPTIONS '') (copy_at 0 req (replicate STREAM_BUF_SIZE 0)) then io_ok ()
           else ignore (st_write_all io s (bytes_of rtsp_ok_response)))"

definition rtmp_ok_conn :: "('w, 'h, 'z) stream_io_scheme \<Rightarrow> 'h \<Rightarrow> ('w, unit) io" where
  "rtmp_ok_conn io s =
     io_catch (st_read_exact io s 1) (\<lambda>c0.
       if c0 ! 0 \<noteq> RTMP_VERSION then io_ok ()
       else
         io_catch (st_read_exact io s HANDSHAKE_PAYLOAD_LEN) (\<lambda>c1.
           let s1 = replicate HANDSHAKE_PAYLOAD_LEN 0xCD;
               out = [RTMP_VERSION] @ s1 @ c1
           in io_catch (st_write_all io s out)
                (\<lambda>_. ignore (st_read_exact io s HANDSHAKE_PAYLOAD_LEN)) (\<lambda>_. io_ok ()))
           (\<lambda>_. io_ok ()))
       (\<lambda>_. io_ok ())"

subsection \<open>WebSocket\<close>

text \<open>tungstenite's blocking server side.\<close>

record ('w, 'h, 's) ws_server =
  sv_accept :: "'h \<Rightarrow> ('w, 's) ws_call"
  sv_read :: "'s \<Rightarrow> ('w, message) ws_call"
  sv_send :: "'s \<Rightarrow> message \<Rightarrow> ('w, unit) ws_call"

partial_function (option) ws_ok_loop :: "('w, 'h, 's) ws_server \<Rightarrow> 's \<Rightarrow> ('w, unit) io" where
  "ws_ok_loop t ws w =
     Option.bind (sv_read t ws w) (\<lambda>(r, w).
       case r of
         Inl _ \<Rightarrow> Some (Ok (), w)
       | Inr msg \<Rightarrow>
           (case msg of
              Message_Ping payload \<Rightarrow>
                Option.bind (sv_send t ws (Message_Pong payload) w) (\<lambda>(_, w). ws_ok_loop t ws w)
            | Message_Close _ \<Rightarrow> Some (Ok (), w)
            | Message_Text _ \<Rightarrow> ws_ok_loop t ws w
            | Message_Binary _ \<Rightarrow> ws_ok_loop t ws w
            | Message_Pong _ \<Rightarrow> ws_ok_loop t ws w
            | Message_Frame _ \<Rightarrow> ws_ok_loop t ws w))"

definition ws_ok_conn :: "('w, 'h, 's) ws_server \<Rightarrow> 'h \<Rightarrow> ('w, unit) io" where
  "ws_ok_conn t s w =
     Option.bind (sv_accept t s w) (\<lambda>(r, w). case r of Inl _ \<Rightarrow> Some (Ok (), w) | Inr ws \<Rightarrow> ws_ok_loop t ws w)"

definition wss_ok_conn :: "('h \<Rightarrow> string + 'h) \<Rightarrow> ('w, 'h, 's) ws_server \<Rightarrow> 'h \<Rightarrow> ('w, unit) io" where
  "wss_ok_conn server_connection t s =
     (case server_connection s of Inl _ \<Rightarrow> io_ok () | Inr tls \<Rightarrow> ws_ok_conn t tls)"

section \<open>The MQTT broker\<close>

text \<open>The server's packet reader is the client's, with a pair for the packet.\<close>

lemma read_mqtt_loop_eq:
  "read_mqtt_loop io s ty k m r = io_bind (read_packet_loop io s ty k m r) (\<lambda>p. io_ok (packet_type p, packet_body p))"
proof (induction k arbitrary: m r)
  case 0
  then show ?case by (simp add: fun_eq_iff io_bind_def)
next
  case (Suc k)
  show ?case
    by (rule ext) (simp add: Suc io_bind_def fun_eq_iff Let_def split: Option.bind_split result.split)
qed

lemma read_mqtt_packet_eq:
  "read_mqtt_packet io s = io_bind (read_packet io s) (\<lambda>p. io_ok (packet_type p, packet_body p))"
  by (simp add: read_mqtt_packet_def read_packet_def io_bind_assoc read_mqtt_loop_eq)

lemma parse_len_shorter: "parse_len k m r s = Some (n, t) \<Longrightarrow> length t < length s"
  by (induction k m r s rule: parse_len.induct) (auto simp: Let_def split: if_splits)

lemma parse_packet_shorter: "parse_packet s = Some (p, t) \<Longrightarrow> length t < length s"
  using parse_len_shorter by (fastforce simp: parse_packet_def split: list.splits option.splits if_splits)

text \<open>What the broker sends, as a function of the bytes it receives: a PINGRESP for each PINGREQ.\<close>

function ping_answers :: "bytes \<Rightarrow> bytes" where
  "ping_answers s =
     (case parse_packet s of
        Some (p, t) \<Rightarrow> if unat (packet_type p) div 16 = 12 then [0xD0, 0] @ ping_answers t else []
      | None \<Rightarrow> [])"
  by pat_completeness auto
termination
  by (relation "measure length") (auto simp: parse_packet_shorter)

declare ping_answers.simps [simp del]

definition broker_answers :: "bytes \<Rightarrow> bytes" where
  "broker_answers s =
     (case parse_packet s of
        Some (p, t) \<Rightarrow> if unat (packet_type p) div 16 = 1 then [0x20, 2, 0, 0] @ ping_answers t else []
      | None \<Rightarrow> [])"

context byte_stream
begin

lemma read_mqtt_none:
  "parse_packet (incoming w) = None \<Longrightarrow> \<exists>e w'. read_mqtt_packet io h w = Some (Err e, w') \<and> outgoing w' = outgoing w"
  using read_packet_none [of w] by (auto simp: read_mqtt_packet_eq io_bind_def)

lemma read_mqtt_some:
  "parse_packet (incoming w) = Some (p, s) \<Longrightarrow>
    \<exists>w'. read_mqtt_packet io h w = Some (Ok (packet_type p, packet_body p), w') \<and> incoming w' = s \<and> outgoing w' = outgoing w"
  using read_packet_some [of w p s] by (auto simp: read_mqtt_packet_eq io_bind_def)

lemma mqtt_loop_run:
  "\<exists>w'. mqtt_session_loop io h w = Some (Ok (), w') \<and> outgoing w' = outgoing w @ ping_answers (incoming w)"
proof (induction "length (incoming w)" arbitrary: w rule: less_induct)
  case less
  show ?case
  proof (cases "parse_packet (incoming w)")
    case None
    then show ?thesis
      using read_mqtt_none [OF None]
      by (auto simp: mqtt_session_loop.simps [of io h w] ping_answers.simps [of "incoming w"] io_catch_def)
  next
    case (Some ps)
    then obtain p s where ps: "parse_packet (incoming w) = Some (p, s)" by (cases ps) auto
    obtain w1 where 1: "read_mqtt_packet io h w = Some (Ok (packet_type p, packet_body p), w1)" "incoming w1 = s" "outgoing w1 = outgoing w"
      using read_mqtt_some [OF ps] by blast
    have ping: "packet_type p AND 0xF0 = 0xC0 \<longleftrightarrow> unat (packet_type p) div 16 = 12"
      using high_nibble [of 12 "packet_type p"] by simp
    show ?thesis
    proof (cases "unat (packet_type p) div 16 = 12")
      case False
      then show ?thesis
        using 1 ps ping by (simp add: mqtt_session_loop.simps [of io h w] ping_answers.simps [of "incoming w"] io_catch_def)
    next
      case True
      obtain w2 where 2: "st_write_all io h [0xD0, 0] w1 = Some (Ok (), w2)" "incoming w2 = s" "outgoing w2 = outgoing w @ [0xD0, 0]"
        using write_ok [of "[0xD0, 0]" w1] 1 by auto
      have "mqtt_session_loop io h w = mqtt_session_loop io h w2"
        using 1 2 True ping by (simp add: mqtt_session_loop.simps [of io h w] io_catch_def)
      moreover have "ping_answers (incoming w) = [0xD0, 0] @ ping_answers (incoming w2)"
        using True 2 by (subst ping_answers.simps) (simp add: ps)
      moreover have "length (incoming w2) < length (incoming w)" using parse_packet_shorter [OF ps] 2 by simp
      ultimately show ?thesis using less [of w2] 2 by auto
    qed
  qed
qed

lemma mqtt_session_run:
  "\<exists>w'. handle_mqtt_session io h w = Some (Ok (), w') \<and> outgoing w' = outgoing w @ broker_answers (incoming w)"
proof (cases "parse_packet (incoming w)")
  case None
  then show ?thesis using read_mqtt_none [OF None] by (auto simp: handle_mqtt_session_def broker_answers_def io_catch_def)
next
  case (Some ps)
  then obtain p s where ps: "parse_packet (incoming w) = Some (p, s)" by (cases ps) auto
  obtain w1 where 1: "read_mqtt_packet io h w = Some (Ok (packet_type p, packet_body p), w1)" "incoming w1 = s" "outgoing w1 = outgoing w"
    using read_mqtt_some [OF ps] by blast
  have con: "packet_type p AND 0xF0 = 0x10 \<longleftrightarrow> unat (packet_type p) div 16 = 1"
    using high_nibble [of 1 "packet_type p"] by simp
  obtain w2 where 2: "st_write_all io h [0x20, 2, 0, 0] w1 = Some (Ok (), w2)" "incoming w2 = s" "outgoing w2 = outgoing w @ [0x20, 2, 0, 0]"
    using write_ok [of "[0x20, 2, 0, 0]" w1] 1 by auto
  obtain w3 where 3: "mqtt_session_loop io h w2 = Some (Ok (), w3)" "outgoing w3 = outgoing w2 @ ping_answers s"
    using mqtt_loop_run [of w2] 2 by auto
  show ?thesis
    using 1 2 3 ps con by (auto simp: handle_mqtt_session_def broker_answers_def io_catch_def)
qed

end

section \<open>RTSP, RTMP and HTTP servers\<close>

context byte_stream
begin

text \<open>
  The request loop ends on every stream: with a prefix that holds a header terminator, or without a
  request. It finds one whenever the stream is a request of at most 1024 bytes.
\<close>

lemma rtsp_request_run:
  assumes "length got < 1024"
  shows "\<exists>r w'. rtsp_request_loop io h got w = Some (Ok r, w') \<and> outgoing w' = outgoing w \<and>
    (case r of Some p \<Rightarrow> contains (bytes_of (crlf @ crlf)) p \<and> (\<exists>s. got @ incoming w = p @ s) \<and> length p \<le> 1024
     | None \<Rightarrow> \<not> contains (bytes_of (crlf @ crlf)) got \<longrightarrow>
         \<not> (contains (bytes_of (crlf @ crlf)) (got @ incoming w) \<and> length (got @ incoming w) \<le> 1024))"
  using assms
proof (induction "length (incoming w)" arbitrary: w got rule: less_induct)
  case less
  let ?t = "bytes_of (crlf @ crlf)"
  have "0 < 1024 - length got" using less.prems by simp
  from read_some [OF this, of w]
  obtain bs w1 where 1: "st_read io h (1024 - length got) w = Some (Ok bs, w1)" "length bs \<le> 1024 - length got"
      "incoming w = bs @ incoming w1" "bs = [] \<Longrightarrow> incoming w = []" "outgoing w1 = outgoing w"
    by blast
  have len: "length (got @ bs) \<le> 1024" using 1(2) less.prems by simp
  have run: "rtsp_request_loop io h got w = (if length bs = 0 then Some (Ok None, w1)
       else if contains ?t (got @ bs) then Some (Ok (Some (got @ bs)), w1)
       else if length (got @ bs) \<ge> 1024 then Some (Ok None, w1)
       else rtsp_request_loop io h (got @ bs) w1)"
    by (subst rtsp_request_loop.simps) (simp add: io_catch_def 1(1))
  consider (eof) "bs = []" | (hit) "bs \<noteq> []" "contains ?t (got @ bs)"
    | (full) "bs \<noteq> []" "\<not> contains ?t (got @ bs)" "1024 \<le> length (got @ bs)"
    | (more) "bs \<noteq> []" "\<not> contains ?t (got @ bs)" "length (got @ bs) < 1024"
    by linarith
  then show ?case
  proof cases
    case eof
    then show ?thesis using run 1 by simp
  next
    case hit
    then have "rtsp_request_loop io h got w = Some (Ok (Some (got @ bs)), w1)" using run by simp
    then show ?thesis using hit 1 len by auto
  next
    case full
    then have "rtsp_request_loop io h got w = Some (Ok None, w1)" using run by simp
    moreover have "\<not> (contains ?t (got @ incoming w) \<and> length (got @ incoming w) \<le> 1024)"
      using full 1(3) by (cases "incoming w1") auto
    ultimately show ?thesis using 1 by auto
  next
    case more
    then have "length (incoming w1) < length (incoming w)" using 1(3) by simp
    from less.hyps [OF this more(3)]
    obtain r w' where "rtsp_request_loop io h (got @ bs) w1 = Some (Ok r, w')" "outgoing w' = outgoing w1"
      "case r of Some p \<Rightarrow> contains ?t p \<and> (\<exists>s. (got @ bs) @ incoming w1 = p @ s) \<and> length p \<le> 1024
       | None \<Rightarrow> \<not> contains ?t (got @ bs) \<longrightarrow>
         \<not> (contains ?t ((got @ bs) @ incoming w1) \<and> length ((got @ bs) @ incoming w1) \<le> 1024)"
      by blast
    moreover have "rtsp_request_loop io h got w = rtsp_request_loop io h (got @ bs) w1" using run more by simp
    ultimately show ?thesis using more(2) 1(3,5) by (auto split: option.splits)
  qed
qed

end

lemma options_prefix:
  assumes "bytes_of (''OPTIONS '' @ x) = p @ s" and "contains (bytes_of (crlf @ crlf)) p"
  shows "starts_with (bytes_of ''OPTIONS '') (p @ t)"
proof -
  have "set (bytes_of (crlf @ crlf)) \<subseteq> set p"
    using assms(2) find_sub_set [of "bytes_of (crlf @ crlf)" p] by (simp add: contains_def)
  then have cr: "13 \<in> set p" by simp
  obtain opt where opt: "opt = bytes_of ''OPTIONS ''" and n: "length opt = 8" by simp
  have e: "opt @ bytes_of x = p @ s" using assms(1) unfolding bytes_of_append opt .
  have no: "13 \<notin> set opt" by (simp add: opt)
  have "8 \<le> length p"
  proof (rule ccontr)
    assume short: "\<not> 8 \<le> length p"
    then have "p = take (length p) opt"
      using arg_cong [OF e, of "take (length p)"] n by simp
    then have "set p \<subseteq> set opt" by (metis set_take_subset)
    with cr no show False by blast
  qed
  then have "take 8 p = opt"
    using arg_cong [OF e, of "take 8"] n by simp
  then have "p @ t = opt @ (drop 8 p @ t)"
    using append_take_drop_id [of 8 p] by (metis append_assoc)
  then show ?thesis unfolding opt [symmetric] by (metis starts_with_append)
qed

context byte_stream
begin

lemma ignore_write: "\<exists>w'. ignore (st_write_all io h bs) w = Some (Ok (), w') \<and> outgoing w' = outgoing w @ bs"
  using write_ok [of bs w] by (auto simp: ignore_def io_catch_def)

lemma rtsp_conn_run:
  assumes "incoming w = bytes_of (''OPTIONS '' @ x)" and "contains (bytes_of (crlf @ crlf)) (incoming w)" and "length (incoming w) \<le> 1024"
  shows "\<exists>w'. rtsp_ok_conn io h w = Some (Ok (), w') \<and> outgoing w' = outgoing w @ bytes_of rtsp_ok_response"
proof -
  have no: "\<not> contains (bytes_of (crlf @ crlf)) ([] :: bytes)" by (simp add: contains_def)
  obtain r w1 where 1: "rtsp_request_loop io h [] w = Some (Ok r, w1)" "outgoing w1 = outgoing w"
    "case r of Some p \<Rightarrow> contains (bytes_of (crlf @ crlf)) p \<and> (\<exists>s. [] @ incoming w = p @ s) \<and> length p \<le> 1024
     | None \<Rightarrow> \<not> contains (bytes_of (crlf @ crlf)) ([] :: bytes) \<longrightarrow>
         \<not> (contains (bytes_of (crlf @ crlf)) ([] @ incoming w) \<and> length ([] @ incoming w) \<le> 1024)"
    using rtsp_request_run [of "[]" w] by auto
  then obtain p s where p: "r = Some p" "contains (bytes_of (crlf @ crlf)) p" "incoming w = p @ s"
    using no assms(2,3) by (auto split: option.splits)
  have "starts_with (bytes_of ''OPTIONS '') (copy_at 0 p (replicate 1024 0))"
    unfolding copy_at_0 by (rule options_prefix [OF trans [OF assms(1) [symmetric] p(3)] p(2)])
  then show ?thesis
    using ignore_write [of "bytes_of rtsp_ok_response" w1] 1(1,2) p(1)
    by (simp add: rtsp_ok_conn_def io_bind_def)
qed

lemma rtmp_conn_run:
  assumes "incoming w = RTMP_VERSION # c1 @ c2" and "length c1 = 1536"
  shows "\<exists>w'. rtmp_ok_conn io h w = Some (Ok (), w') \<and> outgoing w' = outgoing w @ RTMP_VERSION # replicate 1536 0xCD @ c1"
proof -
  obtain w1 where 1: "st_read_exact io h 1 w = Some (Ok [RTMP_VERSION], w1)" "incoming w1 = c1 @ c2" "outgoing w1 = outgoing w"
    using read_exact_ok [of 1 w] assms(1) by auto
  obtain w2 where 2: "st_read_exact io h 1536 w1 = Some (Ok c1, w2)" "outgoing w2 = outgoing w"
    using read_exact_ok [of 1536 w1] 1 assms(2) by auto
  let ?out = "[RTMP_VERSION] @ replicate 1536 0xCD @ c1"
  obtain w3 where 3: "st_write_all io h ?out w2 = Some (Ok (), w3)" "outgoing w3 = outgoing w @ ?out"
    using write_ok [of ?out w2] 2 by auto
  have "\<exists>w'. ignore (st_read_exact io h 1536) w3 = Some (Ok (), w') \<and> outgoing w' = outgoing w3"
  proof (cases "1536 \<le> length (incoming w3)")
    case True
    then show ?thesis using read_exact_ok [of 1536 w3] by (auto simp: ignore_def io_catch_def)
  next
    case False
    then have "length (incoming w3) < 1536" by simp
    from read_exact_eof [OF this] show ?thesis by (auto simp: ignore_def io_catch_def)
  qed
  then obtain w4 where 4: "ignore (st_read_exact io h 1536) w3 = Some (Ok (), w4)" "outgoing w4 = outgoing w3" by blast
  have "rtmp_ok_conn io h w = io_catch (st_write_all io h ?out)
       (\<lambda>_. ignore (st_read_exact io h 1536)) (\<lambda>_. io_ok ()) w2"
    by (simp add: rtmp_ok_conn_def io_catch_def 1(1) 2(1) Let_def del: One_nat_def replicate.simps)
  also have "\<dots> = Some (Ok (), w4)" by (simp only: io_catch_def 3(1) 4(1) Option.bind.simps case_prod_conv result.case)
  finally show ?thesis using 3(2) 4(2) by (intro exI [of _ w4]) simp
qed

lemma http_conn_run: "\<exists>w'. http_ok_conn io h w = Some (Ok (), w') \<and> outgoing w' = outgoing w @ bytes_of http_ok_response"
proof -
  obtain bs w1 where 1: "st_read io h 1024 w = Some (Ok bs, w1)" "outgoing w1 = outgoing w"
    using read_some [of 1024 w] by auto
  then show ?thesis
    using ignore_write [of "bytes_of http_ok_response" w1]
    by (simp add: http_ok_conn_def io_bind_def ignore_def [of "st_read io h 1024"] io_catch_def)
qed

end

section \<open>Properties\<close>

text \<open>
  C19. MQTT broker. On every finite stream, however it is cut, the session ends; it has answered a CONNECT
  with a CONNACK and then each PINGREQ with a PINGRESP, up to the first packet that is neither, is
  malformed or is cut off, and has written nothing else.
\<close>

theorem mqtt_broker_answers:
  assumes "byte_stream io h incoming outgoing"
  shows "\<exists>w'. handle_mqtt_session io h w = Some (Ok (), w') \<and> outgoing w' = outgoing w @ broker_answers (incoming w)"
  by (rule byte_stream.mqtt_session_run [OF assms])

lemma mqtt_broker_answers_witness:
  "\<exists>w'. handle_mqtt_session script_io () \<lparr>chunks = [[0x10], [0, 0xC0, 0]], sent = []\<rparr> = Some (Ok (), w') \<and>
     sent w' = [0x20, 2, 0, 0, 0xD0, 0]"
proof -
  have "parse_packet [0xC0, 0] = Some (\<lparr>packet_type = 0xC0, packet_body = []\<rparr>, [])" by code_simp
  moreover have "parse_packet [] = None" by code_simp
  ultimately have "ping_answers [0xC0, 0] = [0xD0, 0]" by (simp add: ping_answers.simps)
  moreover have "parse_packet [0x10, 0, 0xC0, 0] = Some (\<lparr>packet_type = 0x10, packet_body = []\<rparr>, [0xC0, 0])" by code_simp
  ultimately have "broker_answers [0x10, 0, 0xC0, 0] = [0x20, 2, 0, 0, 0xD0, 0]" by (simp add: broker_answers_def)
  then show ?thesis
    using mqtt_broker_answers [OF scripted.byte_stream_axioms, of "\<lparr>chunks = [[0x10], [0, 0xC0, 0]], sent = []\<rparr>"] by simp
qed

lemma connack_pingresp: "broker_ok ([0x20, 2, 0, 0] @ [0xD0, 0]) = 2"
proof -
  have varint: "encode_varint 0 = [0]" "encode_varint (Suc (Suc 0)) = [2]"
    by (subst encode_varint_eq, simp)+
  show ?thesis
    using broker_ok_2 [of "\<lparr>packet_type = 0x20, packet_body = [0, 0]\<rparr>" "\<lparr>packet_type = 0xD0, packet_body = []\<rparr>" "[]"]
    by (simp add: packet_bytes_def varint connack_ok_def pingresp_ok_def)
qed

lemma broker_on_script:
  assumes "length cid < 65536"
  shows "broker_answers (client_script (build_connect cid ka v) 2) = [0x20, 2, 0, 0] @ [0xD0, 0]"
proof -
  let ?con = "\<lparr>packet_type = 0x10, packet_body = connect_body cid ka v\<rparr>"
  have con: "build_connect cid ka v = packet_bytes ?con"
    by (simp add: build_connect_eq packet_bytes_def)
  have "length (connect_body cid ka v) < 2 ^ 28"
    using assms by (simp add: length_connect_body)
  then have 1: "parse_packet (packet_bytes ?con @ [0xC0, 0, 0xE0, 0]) = Some (?con, [0xC0, 0, 0xE0, 0])"
    by (simp add: parse_packet_bytes)
  have 2: "parse_packet [0xC0, 0, 0xE0, 0] = Some (\<lparr>packet_type = 0xC0, packet_body = []\<rparr>, [0xE0, 0])"
    "parse_packet [0xE0, 0] = Some (\<lparr>packet_type = 0xE0, packet_body = []\<rparr>, [])" by code_simp+
  have "ping_answers [0xC0, 0, 0xE0, 0] = [0xD0, 0] @ ping_answers [0xE0, 0]"
    by (subst ping_answers.simps) (simp add: 2)
  moreover have "ping_answers [0xE0, 0] = []" by (subst ping_answers.simps) (simp add: 2)
  ultimately show ?thesis by (simp add: broker_answers_def client_script_def con 1)
qed

text \<open>
  MQTT ping against the broker. Whatever the client identifier (up to its 16-bit length field), the
  keep-alive and the protocol version: what the ping writes when it reads the broker's answers, and
  what the broker answers when it reads what the ping writes, fit, and the ping succeeds.
\<close>

theorem mqtt_ping_meets_broker:
  assumes "stream_peer net cin cout" and "prompt net"
    and "get_uri (net_regex net) (mqtt_server p) = Ok uri" and "uri_domain uri \<noteq> []"
    and "to_ascii_lowercase (uri_scheme uri) \<in> {[], ''mqtt''} \<or>
      to_ascii_lowercase (uri_scheme uri) = ''mqtts'' \<and> server_name_error net (uri_domain uri) = None"
    and "mqtt_client_id p = Some cid" and "length cid < 65536"
    and "byte_stream io h sin sout"
    and "cin w = [0x20, 2, 0, 0] @ [0xD0, 0]" and "sin v = client_script (build_connect cid (mqtt_keepalive p) (mqtt_version p)) 2"
  shows "(\<exists>w'. mqtt_ping net p w = Some (Ok (), w') \<and> cout w' = cout w @ sin v) \<and>
    (\<exists>v'. handle_mqtt_session io h v = Some (Ok (), v') \<and> sout v' = sout v @ cin w)"
proof
  show "\<exists>w'. mqtt_ping net p w = Some (Ok (), w') \<and> cout w' = cout w @ sin v"
    using mqtt_ping_outcome_fact [OF assms(1-5), of w] connack_pingresp assms(6,9,10) unfolding session_spec_def by auto
  show "\<exists>v'. handle_mqtt_session io h v = Some (Ok (), v') \<and> sout v' = sout v @ cin w"
    using byte_stream.mqtt_session_run [OF assms(8), of v] broker_on_script [OF assms(7)] assms(9,10) by auto
qed

lemma mqtt_ping_meets_broker_witness:
  "\<exists>v'. handle_mqtt_session (lab (\<lambda>_. None)) () (lab_start [client_script (build_connect ''k'' 60 V3_1_1) 2]) = Some (Ok (), v') \<and>
     sent v' = [0x20, 2, 0, 0] @ [0xD0, 0]"
proof -
  let ?p = "MqttPinger_with_client_id (MqttPinger_new ''srv:5300'') ''k''"
  let ?u = "default_uri\<lparr>uri_host := ''srv:5300'', uri_domain := ''srv'', uri_port := 5300, uri_path := []\<rparr>"
  have u: "get_uri (net_regex (lab (\<lambda>_. None))) (mqtt_server ?p) = Ok ?u"
    and c: "mqtt_client_id ?p = Some ''k''" "mqtt_keepalive ?p = 60" "mqtt_version ?p = V3_1_1"
    by (simp_all add: MqttPinger_with_client_id_def MqttPinger_new_def)
  have s: "to_ascii_lowercase (uri_scheme ?u) \<in> {[], ''mqtt''}"
    by (simp add: default_uri_def to_ascii_lowercase_def)
  show ?thesis
    using mqtt_ping_meets_broker [OF lab_tcp.stream_peer_axioms lab_prompt u _ _ c(1) _
        lab_stream.byte_stream_axioms [of "\<lambda>_. None" "()"],
        of "lab_start [[0x20, 2, 0, 0] @ [0xD0, 0]]" "lab_start [client_script (build_connect ''k'' 60 V3_1_1) 2]"] s
    unfolding c(2,3) by auto
qed

lemma options_request_text:
  "build_options_request domain port = bytes_of (''OPTIONS '' @ (''rtsp://'' @ domain @ '':'' @ dec (unat port) @ ''/'' @ '' RTSP/1.0'' @ crlf @
     ''CSeq: 1'' @ crlf @ ''User-Agent: '' @ ''zpinger/0.7.0'') @ crlf @ crlf)"
  by (simp add: build_options_request_def Let_def)

lemma options_request_ends: "contains (bytes_of (crlf @ crlf)) (build_options_request domain port)"
  unfolding contains_iff options_request_text bytes_of_append by (metis append.right_neutral append_assoc)

lemma options_request_length:
  assumes "length domain \<le> 900"
  shows "length (build_options_request domain port) \<le> 1024"
proof -
  have "length (dec n) \<le> 5" if "n < 65536" for n using that by (simp add: dec.simps)
  then have "length (dec (unat port)) \<le> 5" using unat_u16 by blast
  with assms show ?thesis unfolding options_request_text by simp
qed

lemma rtsp_response_ok: "starts_with STATUS_LINE_PREFIX (bytes_of rtsp_ok_response)"
  by (simp add: rtsp_ok_response_def)

lemma http_ok_verdict:
  assumes "17 \<le> n" and "n \<le> 255"
  shows "http_verdict (take n (bytes_of http_ok_response)) = Ok ()"
proof -
  let ?line = "''HTTP/1.1 200 OK''"
  obtain a b where a: "a = bytes_of (?line @ crlf)" and b: "bytes_of http_ok_response = a @ b"
    by (simp add: http_ok_response_def)
  have la: "length a = 17" by (simp add: a)
  then have cut: "take n (bytes_of http_ok_response) = bytes_of (?line @ crlf) @ take (n - 17) b"
    using assms(1) unfolding b a [symmetric] by simp
  have "ascii ?line" by (simp add: ascii_def)
  from http_verdict_complete [OF this, of "take (n - 17) b"] assms
  have "http_verdict (take n (bytes_of http_ok_response)) = line_verdict ?line" unfolding cut by simp
  then show ?thesis by (simp add: line_verdict_def contains_def)
qed

text \<open>However much of the response the first read brings, five bytes of it are enough, and needed.\<close>

lemma http_ok_cut:
  assumes "n \<le> 255"
  shows "http_verdict (take n (bytes_of http_ok_response)) = Ok () \<longleftrightarrow> 5 \<le> n"
proof (cases "17 \<le> n")
  case False
  have "list_all (\<lambda>n. let line = split_first (bytes_of crlf) (take n (bytes_of http_ok_response))
      in (starts_with (bytes_of ''HTTP/'') line \<and> \<not> contains (bytes_of ''404'') line \<and> \<not> contains (bytes_of ''501'') line) = (5 \<le> n)) [0..<17]"
    by code_simp
  moreover have "n \<in> set [0..<17]" using False by simp
  ultimately have "(let line = split_first (bytes_of crlf) (take n (bytes_of http_ok_response))
      in (starts_with (bytes_of ''HTTP/'') line \<and> \<not> contains (bytes_of ''404'') line \<and> \<not> contains (bytes_of ''501'') line) = (5 \<le> n))"
    unfolding list_all_iff by blast
  then show ?thesis by (simp only: http_verdict_Ok_iff Let_def)
qed (use http_ok_verdict assms in simp)

text \<open>
  C20. RTMP, RTSP and HTTP pings against their servers. The RTMP ping succeeds on the server's blocks with
  any echo, and the server, given what that ping wrote, sends its blocks with the ping's C1 as echo.
  The RTSP server answers the ping's request, however it is cut, and the ping succeeds on that
  answer. The HTTP server answers any request with a response that the HTTP ping ends on, successfully exactly
  when it took at least the five bytes HTTP/ off the stream in its one read, and it always takes some.
\<close>

theorem stream_pings_meet_servers:
  assumes "stream_peer net cin cout" and "prompt net" and "byte_stream io h sin sout"
    and "get_uri (net_regex net) target = Ok uri" and "uri_domain uri \<noteq> []" and "length (uri_domain uri) \<le> 900"
    and "to_ascii_lowercase (uri_scheme uri) = []"
    and "rtmp_target m = target" and "rtsp_target s = target" and "http_target g = target"
  shows "(cin w = RTMP_VERSION # replicate 1536 0xCD @ echo \<and> length echo = 1536 \<longrightarrow>
      (\<exists>w' c1. rtmp_ping net m w = Some (Ok (), w') \<and> length c1 = 1536 \<and> cout w' = cout w @ RTMP_VERSION # c1 @ replicate 1536 0xCD \<and>
        (sin v = RTMP_VERSION # c1 @ replicate 1536 0xCD \<longrightarrow>
          (\<exists>v'. rtmp_ok_conn io h v = Some (Ok (), v') \<and> sout v' = sout v @ RTMP_VERSION # replicate 1536 0xCD @ c1)))) \<and>
    (cin w = bytes_of rtsp_ok_response \<longrightarrow>
      (\<exists>w' up. rtsp_ping net s w = Some (Ok (), w') \<and> cout w' = cout w @ up \<and>
        (sin v = up \<longrightarrow> (\<exists>v'. rtsp_ok_conn io h v = Some (Ok (), v') \<and> sout v' = sout v @ cin w)))) \<and>
    (cin w = bytes_of http_ok_response \<longrightarrow>
      (\<exists>v'. http_ok_conn io h v = Some (Ok (), v') \<and> sout v' = sout v @ cin w) \<and>
      (\<exists>res w'. http_ping net g w = Some (res, w') \<and> length (cin w') < length (cin w) \<and>
        (res = Ok () \<longleftrightarrow> 5 \<le> length (cin w) - length (cin w'))))"
proof (intro conjI impI)
  assume inp: "cin w = RTMP_VERSION # replicate 1536 0xCD @ echo \<and> length echo = 1536"
  then have ok: "handshake_ok (cin w)" and s1: "slice 1 1537 (cin w) = replicate 1536 0xCD"
    by (simp_all add: handshake_ok_def slice_def)
  obtain res w' out where r: "rtmp_ping net m w = Some (res, w')" "cout w' = cout w @ out" "handshake_spec (cin w) res out"
    using rtmp_ping_outcome_fact [OF assms(1,2), of m uri w] assms(4,5,7,8) by auto
  then obtain now where "res = Ok ()" "out = RTMP_VERSION # build_c1 now @ replicate 1536 0xCD"
    using ok s1 unfolding handshake_spec_def by auto
  moreover have "length (build_c1 now) = 1536" by (rule length_c1)
  ultimately show "\<exists>w' c1. rtmp_ping net m w = Some (Ok (), w') \<and> length c1 = 1536 \<and> cout w' = cout w @ RTMP_VERSION # c1 @ replicate 1536 0xCD \<and>
        (sin v = RTMP_VERSION # c1 @ replicate 1536 0xCD \<longrightarrow>
          (\<exists>v'. rtmp_ok_conn io h v = Some (Ok (), v') \<and> sout v' = sout v @ RTMP_VERSION # replicate 1536 0xCD @ c1))"
    using r(1,2) byte_stream.rtmp_conn_run [OF assms(3)] by blast
next
  assume inp: "cin w = bytes_of rtsp_ok_response"
  let ?req = "build_options_request (uri_domain uri) (rtsp_port_or uri RTSP_PORT_PLAIN)"
  obtain w' where w': "rtsp_ping net s w = Some (Ok (), w')" "cout w' = cout w @ ?req"
    using rtsp_ping_outcome_fact [OF assms(1,2), of s uri RTSP_PORT_PLAIN w] assms(4,5,7,9) rtsp_response_ok inp by auto
  have "\<exists>v'. rtsp_ok_conn io h v = Some (Ok (), v') \<and> sout v' = sout v @ cin w" if "sin v = ?req"
    using byte_stream.rtsp_conn_run [OF assms(3) trans [OF that options_request_text]] that
      options_request_ends options_request_length [OF assms(6)] inp by simp
  with w' show "\<exists>w' up. rtsp_ping net s w = Some (Ok (), w') \<and> cout w' = cout w @ up \<and>
        (sin v = up \<longrightarrow> (\<exists>v'. rtsp_ok_conn io h v = Some (Ok (), v') \<and> sout v' = sout v @ cin w))" by blast
next
  assume inp: "cin w = bytes_of http_ok_response"
  then show "\<exists>v'. http_ok_conn io h v = Some (Ok (), v') \<and> sout v' = sout v @ cin w"
    using byte_stream.http_conn_run [OF assms(3)] by simp
  obtain got w' where r: "http_ping net g w = Some (http_verdict got, w')" "cin w = got @ cin w'" "length got \<le> 255" "got = [] \<longrightarrow> cin w = []"
    using http_ping_outcome_fact [OF assms(1,2) _ assms(5), of g 80 w] assms(4,7,10) by auto
  have "cin w \<noteq> []" using inp by (simp add: http_ok_response_def)
  moreover have "got = take (length got) (bytes_of http_ok_response)" using r(2) inp by (metis append_eq_conv_conj)
  then have "http_verdict got = Ok () \<longleftrightarrow> 5 \<le> length got" using http_ok_cut [OF r(3)] by metis
  ultimately show "\<exists>res w'. http_ping net g w = Some (res, w') \<and> length (cin w') < length (cin w) \<and>
        (res = Ok () \<longleftrightarrow> 5 \<le> length (cin w) - length (cin w'))"
    using r by (intro exI [of _ "http_verdict got"] exI [of _ w']) auto
qed

lemma stream_pings_meet_servers_witness:
  "(\<exists>w'. rtsp_ping (lab (\<lambda>_. None)) (RtspPinger_new ''srv:5300'') (lab_start [bytes_of rtsp_ok_response]) = Some (Ok (), w')) \<and>
   (\<exists>w'. rtmp_ping (lab (\<lambda>_. None)) (RtmpPinger_new ''srv:5300'') (lab_start [RTMP_VERSION # replicate 1536 0xCD @ replicate 1536 0]) = Some (Ok (), w')) \<and>
   (\<exists>res w'. http_ping (lab (\<lambda>_. None)) (HttpPinger_new Get ''srv:5300'') (lab_start [bytes_of http_ok_response]) = Some (res, w') \<and>
      (res = Ok () \<longleftrightarrow> 5 \<le> length (bytes_of http_ok_response) - length (concat (chunks w'))))"
proof -
  let ?u = "default_uri\<lparr>uri_host := ''srv:5300'', uri_domain := ''srv'', uri_port := 5300, uri_path := []\<rparr>"
  have u: "get_uri (net_regex (lab (\<lambda>_. None))) ''srv:5300'' = Ok ?u" by simp
  have d: "uri_domain ?u \<noteq> []" "length (uri_domain ?u) \<le> 900" by simp_all
  have s: "to_ascii_lowercase (uri_scheme ?u) = []" by (simp add: default_uri_def to_ascii_lowercase_def)
  have m: "rtmp_target (RtmpPinger_new ''srv:5300'') = ''srv:5300''" "rtsp_target (RtspPinger_new ''srv:5300'') = ''srv:5300''"
    "http_target (HttpPinger_new Get ''srv:5300'') = ''srv:5300''"
    by (simp_all add: RtmpPinger_new_def RtspPinger_new_def HttpPinger_new_def)
  have one: "concat (chunks (lab_start [bs])) = bs" for bs by simp
  note law = stream_pings_meet_servers [OF lab_tcp.stream_peer_axioms lab_prompt lab_stream.byte_stream_axioms [of "\<lambda>_. None" "()"] u d s m,
      of _ _ "lab_start []", unfolded one]
  show ?thesis
  proof (intro conjI)
    show "\<exists>w'. rtsp_ping (lab (\<lambda>_. None)) (RtspPinger_new ''srv:5300'') (lab_start [bytes_of rtsp_ok_response]) = Some (Ok (), w')"
      using law [of "lab_start [bytes_of rtsp_ok_response]" "[]", unfolded one] by blast
    show "\<exists>w'. rtmp_ping (lab (\<lambda>_. None)) (RtmpPinger_new ''srv:5300'') (lab_start [RTMP_VERSION # replicate 1536 0xCD @ replicate 1536 0]) = Some (Ok (), w')"
      using law [of "lab_start [RTMP_VERSION # replicate 1536 0xCD @ replicate 1536 0]" "replicate 1536 0", unfolded one,
          THEN conjunct1, rule_format, OF conjI [OF refl length_replicate]] by blast
    show "\<exists>res w'. http_ping (lab (\<lambda>_. None)) (HttpPinger_new Get ''srv:5300'') (lab_start [bytes_of http_ok_response]) = Some (res, w') \<and>
      (res = Ok () \<longleftrightarrow> 5 \<le> length (bytes_of http_ok_response) - length (concat (chunks w')))"
      using law [of "lab_start [bytes_of http_ok_response]" "[]", unfolded one] by blast
  qed
qed

end
