(* ===== verification/WsServer.thy ===== *)
theory WsServer
  imports WebSocket StreamServers
begin

text \<open>
  The WebSocket test servers (\<open>start_ws_ok\<close>, \<open>start_wss_ok\<close> of \<open>testserver/src/lib.rs\<close>) against any
  visitor, and against the WebSocket ping. Each side has its own half of tungstenite, a parameter.
\<close>

section \<open>A visitor\<close>

text \<open>
  The connection of a visitor whose upgrade succeeds: \<open>arriving\<close> are the items that \<open>read\<close> delivers before the
  error that ends the connection, \<open>said\<close> the messages given to \<open>send\<close>, whose result the server ignores.
\<close>

locale ws_visitor =
  fixes t :: "('w, 'h, 's) ws_server"
    and arriving :: "'w \<Rightarrow> (ws_error + message) list" and said :: "'w \<Rightarrow> message list"
  assumes accept_ok: "\<exists>s w'. sv_accept t h w = Some (Inr s, w') \<and> arriving w' = arriving w \<and> said w' = said w"
    and read_item: "arriving w = e # es \<Longrightarrow> \<exists>w'. sv_read t s w = Some (e, w') \<and> arriving w' = es \<and> said w' = said w"
    and read_end: "arriving w = [] \<Longrightarrow> \<exists>e w'. sv_read t s w = Some (Inl e, w') \<and> said w' = said w"
    and send_any: "\<exists>r w'. sv_send t s m w = Some (r, w') \<and> arriving w' = arriving w \<and> said w' = said w @ [m]"

text \<open>The items after which the server goes on.\<close>

fun kept_open :: "ws_error + message \<Rightarrow> bool" where
  "kept_open (Inl _) = False"
| "kept_open (Inr (Message_Close _)) = False"
| "kept_open (Inr _) = True"

definition server_pongs :: "(ws_error + message) list \<Rightarrow> message list" where
  "server_pongs es = pongs (takeWhile kept_open es)"

lemma server_pongs_simps:
  "server_pongs [] = []" "server_pongs (Inl e # es) = []" "server_pongs (Inr (Message_Close f) # es) = []"
  "server_pongs (Inr (Message_Ping p) # es) = Message_Pong p # server_pongs es"
  "server_pongs (Inr (Message_Text x) # es) = server_pongs es" "server_pongs (Inr (Message_Binary b) # es) = server_pongs es"
  "server_pongs (Inr (Message_Pong b) # es) = server_pongs es" "server_pongs (Inr (Message_Frame b) # es) = server_pongs es"
  by (simp_all add: server_pongs_def pongs_def)

lemma server_pongs_are_pongs: "m \<in> set (server_pongs es) \<Longrightarrow> \<exists>p. m = Message_Pong p"
  by (auto simp: server_pongs_def pongs_def split: sum.splits message.splits)

context ws_visitor
begin

text \<open>The loop ends on every finite run of items, with one pong for each ping before the first close or error.\<close>

lemma loop_outcome:
  "arriving w = es \<Longrightarrow> \<exists>w'. ws_ok_loop t s w = Some (Ok (), w') \<and> said w' = said w @ server_pongs es"
proof (induction es arbitrary: w)
  case Nil
  then obtain e w1 where "sv_read t s w = Some (Inl e, w1)" "said w1 = said w" using read_end [of w s] by auto
  then show ?case by (simp add: ws_ok_loop.simps server_pongs_simps)
next
  case (Cons e es)
  obtain w1 where 1: "sv_read t s w = Some (e, w1)" "arriving w1 = es" "said w1 = said w"
    using read_item [OF Cons.prems, of s] by blast
  show ?case
  proof (cases "\<exists>p. e = Inr (Message_Ping p)")
    case True
    then obtain p where p: "e = Inr (Message_Ping p)" by blast
    obtain r w2 where 2: "sv_send t s (Message_Pong p) w1 = Some (r, w2)" "arriving w2 = es" "said w2 = said w @ [Message_Pong p]"
      using send_any [of s "Message_Pong p" w1] 1 by auto
    have "ws_ok_loop t s w = ws_ok_loop t s w2" using 1 2 by (simp add: ws_ok_loop.simps [of t s w] p)
    then show ?thesis using Cons.IH [OF 2(2)] 2(3) by (simp add: p server_pongs_simps)
  next
    case False
    then show ?thesis
      using 1 Cons.IH [OF 1(2)] by (cases e rule: kept_open.cases) (simp_all add: ws_ok_loop.simps [of t s w] server_pongs_simps)
  qed
qed

lemma conn_outcome: "\<exists>w'. ws_ok_conn t h w = Some (Ok (), w') \<and> said w' = said w @ server_pongs (arriving w)"
proof -
  obtain s w1 where 1: "sv_accept t h w = Some (Inr s, w1)" "arriving w1 = arriving w" "said w1 = said w"
    using accept_ok [of h w] by blast
  then show ?thesis using loop_outcome [OF 1(2), of s] by (simp add: ws_ok_conn_def)
qed

lemma session_outcome:
  assumes "server_connection h = Inr h'"
  shows "\<exists>w'. (if tls then wss_ok_conn server_connection t h else ws_ok_conn t h) w = Some (Ok (), w') \<and>
    said w' = said w @ server_pongs (arriving w)"
  using conn_outcome [of h w] conn_outcome [of h' w] assms by (cases tls) (simp_all add: wss_ok_conn_def)

end

section \<open>A concrete visitor\<close>

definition ws_visit :: "(ws_world, unit, unit) ws_server" where
  "ws_visit = \<lparr>
     sv_accept = (\<lambda>_ w. Some (Inr (), w)),
     sv_read = (\<lambda>_ w. case ws_events w of
         [] \<Rightarrow> Some (Inl (E_Other ''Connection closed normally''), w)
       | e # es \<Rightarrow> Some (e, w\<lparr>ws_events := es\<rparr>)),
     sv_send = (\<lambda>_ m w. Some (Inr (), w\<lparr>ws_log := ws_log w @ [m]\<rparr>))\<rparr>"

interpretation ws_visited: ws_visitor ws_visit ws_events ws_log
  by unfold_locales (auto simp: ws_visit_def)

section \<open>The ping and the server\<close>

text \<open>
  What arrives at the client of a server that has given the messages \<open>ms\<close> to \<open>send\<close>: all of them and, beyond
  them, only the pongs with which tungstenite itself answers a ping.
\<close>

definition delivered :: "message list \<Rightarrow> (ws_error + message) list \<Rightarrow> bool" where
  "delivered ms es = (list_all (\<lambda>m. Inr m \<in> set es) ms \<and>
     list_all (\<lambda>e. e \<in> set (map Inr ms) \<or> (case e of Inr (Message_Pong _) \<Rightarrow> True | _ \<Rightarrow> False)) es)"

lemma delivered_pongs:
  assumes "delivered (Message_Pong p # server_pongs es) (items :: (ws_error + message) list)"
  shows "\<exists>q rest. items = Inr (Message_Pong q) # rest"
proof (cases items)
  case Nil
  then show ?thesis using assms by (simp add: delivered_def)
next
  case (Cons e rest)
  have "e = Inr (Message_Pong p) \<or> (\<exists>m \<in> set (server_pongs es). e = Inr m) \<or> (\<exists>q. e = Inr (Message_Pong q))"
    using assms by (auto simp: delivered_def Cons split: sum.splits message.splits)
  with server_pongs_are_pongs show ?thesis by (auto simp: Cons)
qed

section \<open>Properties\<close>

text \<open>
  C23. The WebSocket ping and the WebSocket test server, with and without TLS. When the server reads what the
  ping sends, and the ping what the server sends (and pongs of the server's library besides), both
  return: the ping with success, having sent one empty ping and then the close, the server having
  answered with one pong. Whatever either side's tungstenite does otherwise is open.
\<close>

theorem ws_ping_meets_server:
  assumes "ws_peer net t events log" and "prompt net"
    and "get_uri (net_regex net) (ws_target p) = Ok uri" and "uri_domain uri \<noteq> []"
    and "to_ascii_lowercase (uri_scheme uri) = (if tls then ''wss'' else ''ws'')"
    and "tls \<Longrightarrow> server_name_error net (uri_domain uri) = None"
    and "ws_visitor srv arriving said" and "server_connection h = Inr h'"
    and "log w = []" and "said v = []"
    and to_server: "\<And>r w'. ws_ping net t p w = Some (r, w') \<Longrightarrow> arriving v = map Inr (log w')"
    and to_client: "\<And>r v'. (if tls then wss_ok_conn server_connection srv h else ws_ok_conn srv h) v = Some (r, v') \<Longrightarrow>
      delivered (said v') (events w)"
  shows "\<exists>w' v'. ws_ping net t p w = Some (Ok (), w') \<and> log w' = [Message_Ping [], Message_Close None] \<and>
    (if tls then wss_ok_conn server_connection srv h else ws_ok_conn srv h) v = Some (Ok (), v') \<and> said v' = [Message_Pong []]"
proof -
  let ?es = "events w"
  obtain w' where w: "ws_ping net t p w = Some (decided (close_debug t) (dropWhile passed_over ?es), w')"
      "log w' = [Message_Ping []] @ pongs (takeWhile passed_over ?es) @
        (if is_ok (decided (close_debug t) (dropWhile passed_over ?es)) then [Message_Close None] else [])"
    using ws_ping_outcome_fact [OF assms(1-6), of w] assms(9) by auto
  obtain v' where v: "(if tls then wss_ok_conn server_connection srv h else ws_ok_conn srv h) v = Some (Ok (), v')"
      "said v' = server_pongs (map Inr (log w'))"
    using ws_visitor.session_outcome [of srv arriving said server_connection h h' tls v] assms(7,8,10) to_server [OF w(1)] by auto
  from to_client [OF v(1)] have "delivered (Message_Pong [] # server_pongs (map Inr (tl (log w')))) ?es"
    by (simp add: v(2) w(2) server_pongs_simps)
  then obtain q rest where "?es = Inr (Message_Pong q) # rest" using delivered_pongs by blast
  then show ?thesis using w v by (simp add: pongs_def server_pongs_simps)
qed

theorem ws_ping_meets_server_witness:
  "\<exists>w' v'. ws_ping ws_net ws_script (WebSocketPinger_new ''ws://srv'') \<lparr>ws_events = [Inr (Message_Pong [])], ws_log = []\<rparr> = Some (Ok (), w') \<and>
     ws_log w' = [Message_Ping [], Message_Close None] \<and>
     ws_ok_conn ws_visit () \<lparr>ws_events = [Inr (Message_Ping []), Inr (Message_Close None)], ws_log = []\<rparr> = Some (Ok (), v') \<and>
     ws_log v' = [Message_Pong []]"
proof -
  let ?p = "WebSocketPinger_new ''ws://srv''"
  let ?w = "\<lparr>ws_events = [Inr (Message_Pong [])], ws_log = []\<rparr>"
  let ?v = "\<lparr>ws_events = [Inr (Message_Ping []), Inr (Message_Close None)], ws_log = []\<rparr>"
  have pr: "prompt ws_net" by (simp add: prompt_def ws_net_def split: option.split)
  have u: "get_uri (net_regex ws_net) (ws_target ?p) =
      Ok (default_uri\<lparr>uri_scheme := ''ws'', uri_host := ''srv'', uri_domain := ''srv'', uri_path := []\<rparr>)"
    by (simp add: ws_net_def WebSocketPinger_new_def ws_target_lab)
  have w: "\<exists>w'. ws_ping ws_net ws_script ?p ?w = Some (Ok (), w') \<and> ws_log w' = [Message_Ping [], Message_Close None]"
    using ws_ping_outcome_fact [OF ws_scripted.ws_peer_axioms pr u, of False ?w] by (simp add: pongs_def to_ascii_lowercase_def to_lower_def)
  have v: "\<exists>v'. ws_ok_conn ws_visit () ?v = Some (Ok (), v') \<and> ws_log v' = [Message_Pong []]"
    using ws_visited.conn_outcome [of "()" ?v] by (simp add: server_pongs_simps)
  have s: "ws_events ?v = map Inr (ws_log w')" if "ws_ping ws_net ws_script ?p ?w = Some (r, w')" for r w'
    using w that by auto
  have c: "delivered (ws_log v') (ws_events ?w)" if "(if False then wss_ok_conn Inr ws_visit () else ws_ok_conn ws_visit ()) ?v = Some (r, v')" for r v'
    using v that by (auto simp: delivered_def)
  note meets = ws_ping_meets_server [OF ws_scripted.ws_peer_axioms pr u, of False ws_visit ws_events ws_log Inr "()" "()" ?w ?v]
  show ?thesis
    using meets [unfolded if_False, OF _ _ _ ws_visited.ws_visitor_axioms refl _ _ s c [unfolded if_False]]
    by (simp add: to_ascii_lowercase_def to_lower_def)
qed

end
