(* ===== verification/UriRange.thy ===== *)
theory UriRange
  imports UriLaws
begin

text \<open>
  The values \<open>get_uri\<close> returns: a field grammar for the URIs with a scheme, shown to be exactly what parsing
  can yield, and printing with \<open>get_url\<close> as a normal form of the text.
\<close>

section \<open>The parts of a URL, both ways\<close>

lemma scan_scheme_iff:
  "scan_scheme s = Some (sc, r) \<longleftrightarrow> s = sc @ ''://'' @ r \<and> sc \<noteq> [] \<and> list_all (in_class (NotIn ''/?#'')) sc"
proof
  let ?N = "in_class (NotIn ''/?#'')"
  assume "scan_scheme s = Some (sc, r)"
  then have run: "2 \<le> length (takeWhile ?N s)" "last (takeWhile ?N s) = CHR '':''" "starts_with ''//'' (dropWhile ?N s)"
      "sc = butlast (takeWhile ?N s)" "r = drop 2 (dropWhile ?N s)"
    by (auto simp: scan_scheme_def Let_def split: if_splits)
  have ne: "takeWhile ?N s \<noteq> []" using run(1) by force
  have "takeWhile ?N s = sc @ [CHR '':'']" using append_butlast_last_id [OF ne] run(2,4) by simp
  moreover have "dropWhile ?N s = ''//'' @ r" using run(3,5) by (auto simp: starts_with_iff)
  ultimately have "s = sc @ ''://'' @ r" using takeWhile_dropWhile_id [of ?N s] by simp
  moreover have "length sc \<noteq> 0" using run(1,4) by simp
  then have "sc \<noteq> []" by simp
  moreover have "list_all ?N sc"
    using run(4) by (auto simp: list_all_iff dest!: in_set_butlastD set_takeWhileD)
  ultimately show "s = sc @ ''://'' @ r \<and> sc \<noteq> [] \<and> list_all ?N sc" by simp
next
  assume "s = sc @ ''://'' @ r \<and> sc \<noteq> [] \<and> list_all (in_class (NotIn ''/?#'')) sc"
  then show "scan_scheme s = Some (sc, r)"
    using scan_scheme_build by blast
qed

lemma starts_hd: "starts_with [c] s \<longleftrightarrow> s \<noteq> [] \<and> hd s = c"
  by (cases s) auto

lemma span_iff:
  "takeWhile P s = x \<and> dropWhile P s = r \<longleftrightarrow> s = x @ r \<and> list_all P x \<and> (r = [] \<or> \<not> P (hd r))"
proof
  assume "takeWhile P s = x \<and> dropWhile P s = r"
  then show "s = x @ r \<and> list_all P x \<and> (r = [] \<or> \<not> P (hd r))"
    by (metis hd_dropWhile list_all_iff set_takeWhileD takeWhile_dropWhile_id)
next
  assume "s = x @ r \<and> list_all P x \<and> (r = [] \<or> \<not> P (hd r))"
  then show "takeWhile P s = x \<and> dropWhile P s = r" using span_sep [of P x r] by simp
qed

lemma scan_userinfo_iff:
  "scan_userinfo s = Some (u, p, r) \<longleftrightarrow> s = u @ '':'' @ p @ ''@'' @ r \<and>
     u \<noteq> [] \<and> list_all (in_class WordChar) u \<and> p \<noteq> [] \<and> list_all (in_class WordChar) p"
proof
  assume "scan_userinfo s = Some (u, p, r)"
  then obtain b q where "takeWhile (in_class WordChar) s = u \<and> dropWhile (in_class WordChar) s = b"
    "starts_with '':'' b" "takeWhile (in_class WordChar) (tl b) = p \<and> dropWhile (in_class WordChar) (tl b) = q"
    "starts_with ''@'' q" "r = tl q" "u \<noteq> []" "p \<noteq> []"
    by (auto simp: scan_userinfo_def Let_def split: if_splits)
  then show "s = u @ '':'' @ p @ ''@'' @ r \<and>
     u \<noteq> [] \<and> list_all (in_class WordChar) u \<and> p \<noteq> [] \<and> list_all (in_class WordChar) p"
    unfolding span_iff by (cases b; cases q) auto
qed (use scan_userinfo_build in blast)

definition port_ends :: "string option \<Rightarrow> string \<Rightarrow> bool" where
  "port_ends po r = (case po of None \<Rightarrow> tail_ok r | Some ds \<Rightarrow> list_all is_digit ds \<and> (r = [] \<or> \<not> is_digit (hd r)))"

lemma scan_host_iff:
  "scan_host s = Some (d, po, r) \<longleftrightarrow> s = host_text d po @ r \<and> d \<noteq> [] \<and>
     list_all (in_class (NotIn ''/?#:'')) d \<and> port_ends po r"
proof
  assume host: "scan_host s = Some (d, po, r)"
  then obtain b where b: "takeWhile (in_class (NotIn ''/?#:'')) s = d \<and> dropWhile (in_class (NotIn ''/?#:'')) s = b" "d \<noteq> []"
    by (auto simp: scan_host_def Let_def split: if_splits)
  show "s = host_text d po @ r \<and> d \<noteq> [] \<and> list_all (in_class (NotIn ''/?#:'')) d \<and> port_ends po r"
  proof (cases "starts_with '':'' b")
    case True
    then have "po = Some (takeWhile is_digit (tl b))" "r = dropWhile is_digit (tl b)"
      using host b by (auto simp: scan_host_def Let_def)
    then obtain ds where po: "po = Some ds" "takeWhile is_digit (tl b) = ds \<and> dropWhile is_digit (tl b) = r" by blast
    from b po True show ?thesis unfolding span_iff by (cases b) (auto simp: host_text_def port_ends_def)
  next
    case False
    then have "po = None" "r = b" using host b by (auto simp: scan_host_def Let_def)
    moreover have "tail_ok b"
      using b False unfolding span_iff by (cases b) (auto simp: tail_ok_def in_class.simps)
    ultimately show ?thesis using b unfolding span_iff by (simp add: host_text_def port_ends_def)
  qed
next
  assume r: "s = host_text d po @ r \<and> d \<noteq> [] \<and> list_all (in_class (NotIn ''/?#:'')) d \<and> port_ends po r"
  show "scan_host s = Some (d, po, r)"
  proof (cases po)
    case None
    then show ?thesis using r scan_host_build [of d r] by (simp add: host_text_def port_ends_def)
  next
    case (Some ds)
    then show ?thesis
      using r span_sep [of "in_class (NotIn ''/?#:'')" d "'':'' @ ds @ r"] span_sep [of is_digit ds r]
      by (simp add: host_text_def port_ends_def scan_host_def Let_def)
  qed
qed

lemma scan_host_None: "scan_host s = None \<longleftrightarrow> s = [] \<or> hd s \<in> set ''/?#:''"
  by (cases s) (auto simp: scan_host_def Let_def in_class.simps)

section \<open>The values of a URL\<close>

text \<open>
  What the fields of a parsed URI with a scheme can be. The authority is empty, or a domain with an optional
  port, whose digits the host text keeps; what follows must not extend it. A user name that is not there
  must not be read into the host and path.
\<close>

definition authority_ok :: "URI \<Rightarrow> bool" where
  "authority_ok u =
     (if uri_domain u = []
      then uri_host u = [] \<and> uri_port u = 0 \<and> (uri_path u = [] \<or> hd (uri_path u) \<in> set ''/:'')
      else list_all (in_class (NotIn ''/?#:'')) (uri_domain u) \<and>
        (uri_host u = uri_domain u \<and> uri_port u = 0 \<and> (uri_path u = [] \<or> hd (uri_path u) = CHR ''/'') \<or>
         starts_with (uri_domain u @ '':'') (uri_host u) \<and>
         (let ds = drop (Suc (length (uri_domain u))) (uri_host u)
          in list_all is_digit ds \<and> parse_i32 ds = Some (uri_port u) \<and> (uri_path u = [] \<or> \<not> is_digit (hd (uri_path u))))))"

definition uri_value :: "URI \<Rightarrow> bool" where
  "uri_value u =
     (uri_scheme u \<noteq> [] \<and> list_all (in_class (NotIn ''/?#'')) (uri_scheme u) \<and>
      (if uri_username u = [] then uri_password u = [] \<and> scan_userinfo (uri_host u @ uri_path u) = None
       else uri_password u \<noteq> [] \<and> list_all (in_class WordChar) (uri_username u) \<and> list_all (in_class WordChar) (uri_password u)) \<and>
      authority_ok u \<and>
      list_all (in_class (NotIn ''?#'')) (uri_path u) \<and>
      list_all (in_class (NotIn ''#'')) (uri_query u) \<and> list_all (in_class AnyChar) (uri_fragment u))"

abbreviation (input) host_or_none :: "string \<Rightarrow> string \<times> string option \<times> string" where
  "host_or_none s \<equiv> (case scan_host s of Some x \<Rightarrow> x | None \<Rightarrow> ([], None, s))"

definition tail_starts :: "string \<Rightarrow> bool" where
  "tail_starts t = (t = [] \<or> hd t \<in> set ''?#'')"

lemma authority_scans:
  assumes "authority_ok u" and "tail_starts t"
  shows "\<exists>po. host_or_none (uri_host u @ uri_path u @ t) = (uri_domain u, po, uri_path u @ t) \<and>
    host_text (uri_domain u) po = uri_host u \<and> port_value po = Some (uri_port u)"
proof -
  note ok = assms [unfolded authority_ok_def tail_starts_def]
  consider (none) "uri_domain u = []" | (plain) "uri_domain u \<noteq> []" "uri_host u = uri_domain u"
    | (port) ds where "uri_domain u \<noteq> []" "uri_host u = uri_domain u @ '':'' @ ds" "uri_host u \<noteq> uri_domain u"
    using ok by (auto simp: starts_with_iff split: if_splits)
  then show ?thesis
  proof cases
    case none
    then have "scan_host (uri_path u @ t) = None" using ok by (cases "uri_path u") (auto simp: scan_host_None)
    with none ok show ?thesis by (intro exI [of _ None]) (simp add: host_text_def port_value_def)
  next
    case plain
    then have "scan_host (uri_host u @ uri_path u @ t) = Some (uri_domain u, None, uri_path u @ t)"
      using ok unfolding scan_host_iff
      by (cases "uri_path u") (auto simp: host_text_def port_ends_def tail_ok_def starts_with_iff)
    with plain ok show ?thesis
      by (intro exI [of _ None]) (auto simp: host_text_def port_value_def starts_with_iff)
  next
    case port
    then have "scan_host (uri_host u @ uri_path u @ t) = Some (uri_domain u, Some ds, uri_path u @ t)"
      using ok unfolding scan_host_iff
      by (cases "uri_path u") (auto simp: host_text_def port_ends_def is_digit_def)
    with port ok show ?thesis
      by (intro exI [of _ "Some ds"]) (auto simp: host_text_def port_value_def)
  qed
qed

lemma authority_scanned:
  assumes "host_or_none s = (d, po, pa @ t)" and "port_value po = Some (uri_port u)" and "tail_starts t"
    and "uri_domain u = d" and "uri_host u = host_text d po" and "uri_path u = pa"
    and "list_all (in_class (NotIn ''?#'')) pa"
  shows "authority_ok u \<and> s = uri_host u @ uri_path u @ t"
proof (cases "scan_host s")
  have pa: "pa = [] \<or> hd pa \<noteq> CHR ''?'' \<and> hd pa \<noteq> CHR ''#''" using assms(7) by (cases pa) (auto simp: in_class.simps)
  case None
  then have "d = []" "po = None" "s = pa @ t" using assms(1) by auto
  then show ?thesis
    using None assms(1-6) pa by (cases pa) (auto simp: scan_host_None authority_ok_def host_text_def port_value_def tail_starts_def)
next
  have pa: "pa = [] \<or> hd pa \<noteq> CHR ''?'' \<and> hd pa \<noteq> CHR ''#''" using assms(7) by (cases pa) (auto simp: in_class.simps)
  case (Some x)
  then have h: "s = host_text d po @ pa @ t" "d \<noteq> []" "list_all (in_class (NotIn ''/?#:'')) d" "port_ends po (pa @ t)"
    using assms(1) by (simp_all add: scan_host_iff)
  have "authority_ok u"
  proof (cases po)
    case None
    then show ?thesis
      using h assms(1-6) pa by (cases pa) (auto simp: authority_ok_def host_text_def port_value_def port_ends_def tail_ok_def tail_starts_def)
  next
    case (Some ds)
    then show ?thesis
      using h assms(1-6) pa by (cases pa) (auto simp: authority_ok_def host_text_def port_value_def port_ends_def starts_with_iff)
  qed
  then show ?thesis using h assms by simp
qed

lemma userinfo_tail:
  assumes "tail_starts t"
  shows "scan_userinfo (x @ t) = None \<longleftrightarrow> scan_userinfo x = None"
proof -
  have "\<exists>v. scan_userinfo x = Some v" if some: "scan_userinfo (x @ t) = Some w" for w
  proof -
    obtain a b r where w: "x @ t = (a @ '':'' @ b @ ''@'') @ r" "a \<noteq> []" "list_all (in_class WordChar) a"
      "b \<noteq> []" "list_all (in_class WordChar) b"
      using some by (cases w) (auto simp: scan_userinfo_iff)
    define y where "y = a @ '':'' @ b @ ''@''"
    obtain z where "x = y @ z \<or> x @ z = y \<and> t = z @ r \<and> z \<noteq> []"
      using w(1) unfolding y_def [symmetric] append_eq_append_conv2 by (metis append_Nil2)
    then consider "x = y @ z" | "x @ z = y" "t = z @ r" "z \<noteq> []" by blast
    then show ?thesis
    proof cases
      case 1
      then have "scan_userinfo x = Some (a, b, z)" using w(2-) by (simp add: y_def scan_userinfo_iff)
      then show ?thesis ..
    next
      case 2
      then have "hd z \<in> set ''?#''" "hd z \<in> set y" using assms by (cases z; auto simp: tail_starts_def)+
      then show ?thesis using w(3,5) unfolding y_def by (auto simp: list_all_iff in_class.simps is_digit_def)
    qed
  qed
  moreover have "\<exists>v. scan_userinfo (x @ t) = Some v" if some: "scan_userinfo x = Some w" for w
  proof -
    obtain a b r where "scan_userinfo x = Some (a, b, r)" using some by (cases w) auto
    then have "scan_userinfo (x @ t) = Some (a, b, r @ t)" by (simp add: scan_userinfo_iff)
    then show ?thesis ..
  qed
  ultimately show ?thesis by (metis not_Some_eq)
qed

lemma tail_starts_url_tail:
  "tail_starts ((if q = [] then [] else ''?'' @ q) @ (if f = [] then [] else ''#'' @ f))"
  by (simp add: tail_starts_def)

text \<open>Every value prints to a text that scans to it.\<close>

lemma value_scans:
  assumes "uri_value u"
  shows "scan_uri (get_url u) = Ok u"
proof -
  let ?t = "(if uri_query u = [] then [] else ''?'' @ uri_query u) @ (if uri_fragment u = [] then [] else ''#'' @ uri_fragment u)"
  have tail: "url_tail u = uri_path u @ ?t" by (simp add: url_tail_def)
  obtain po where po: "host_or_none (uri_host u @ url_tail u) = (uri_domain u, po, url_tail u)"
    "host_text (uri_domain u) po = uri_host u" "port_value po = Some (uri_port u)"
    using authority_scans [of u, OF _ tail_starts_url_tail, of "uri_query u" "uri_fragment u"] assms
    unfolding tail uri_value_def by blast
  have sc: "scan_scheme (get_url u) = Some (uri_scheme u, drop (length (uri_scheme u) + 3) (get_url u))"
    unfolding get_url_parts using assms by (subst scan_scheme_build) (simp_all add: uri_value_def)
  have "scan_userinfo (uri_host u @ url_tail u) = None" if "uri_username u = []"
    using assms that userinfo_tail [OF tail_starts_url_tail, of "uri_host u @ uri_path u"]
    unfolding tail by (simp add: uri_value_def)
  then have ui: "(case scan_userinfo (drop (length (uri_scheme u) + 3) (get_url u)) of Some x \<Rightarrow> x
      | None \<Rightarrow> ([], [], drop (length (uri_scheme u) + 3) (get_url u))) =
      (uri_username u, uri_password u, uri_host u @ url_tail u)"
    using assms scan_userinfo_build [of "uri_username u" "uri_password u" "uri_host u @ url_tail u"]
    unfolding get_url_parts by (auto simp: uri_value_def split: if_splits)
  have classes: "list_all (in_class (NotIn ''?#'')) (uri_path u)" "list_all (in_class (NotIn ''#'')) (uri_query u)"
    "list_all (in_class AnyChar) (uri_fragment u)"
    using assms by (simp_all add: uri_value_def)
  show ?thesis
    unfolding scan_uri_def sc option.case case_prod_conv Let_def ui po(1,3)
    using scan_tail [OF classes url_tail_def] po(2) by (simp add: case_prod_beta)
qed

lemma scan_after_parts:
  assumes "scan_after c cl s = (x, r)"
  shows "s = (if starts_with [c] s then [c] else []) @ x @ r" and "list_all (in_class cl) x"
    and "x = [] \<or> starts_with [c] s" and "starts_with [c] s \<Longrightarrow> r = [] \<or> \<not> in_class cl (hd r)"
  using assms span_iff [of "in_class cl" "tl s" x r] by (cases s; auto simp: scan_after_def split: if_splits)+

text \<open>What the scanner returns with a scheme is a value, and its text is made of characters of the input.\<close>

lemma scanned_value:
  assumes "scan_uri s = Ok u" and "uri_scheme u \<noteq> []"
  shows "uri_value u \<and> set (get_url u) \<subseteq> set s \<union> set ''://@?#''"
proof -
  obtain sc s1 where s1: "scan_scheme s = Some (sc, s1)"
    using assms by (cases "scan_scheme s") (auto simp: scan_uri_def Let_def case_prod_beta split: option.splits)
  obtain us pw s2 where s2: "(case scan_userinfo s1 of Some x \<Rightarrow> x | None \<Rightarrow> ([], [], s1)) = (us, pw, s2)"
    by (metis prod_cases3)
  obtain d po s3 where s3: "host_or_none s2 = (d, po, s3)"
    by (metis prod_cases3)
  define pa s4 where pa: "pa = takeWhile (in_class (NotIn ''?#'')) s3" "s4 = dropWhile (in_class (NotIn ''?#'')) s3"
  obtain qu s5 where q: "scan_after (CHR ''?'') (NotIn ''#'') s4 = (qu, s5)" by fastforce
  obtain fr s6 where f: "scan_after (CHR ''#'') AnyChar s5 = (fr, s6)" by fastforce
  obtain n where n: "port_value po = Some n" "u = \<lparr>uri_scheme = sc, uri_username = us, uri_password = pw,
      uri_host = host_text d po, uri_domain = d, uri_port = n, uri_path = pa, uri_query = qu, uri_fragment = fr\<rparr>"
    using assms(1) unfolding scan_uri_def s1 option.case case_prod_conv Let_def s2 s3 pa [symmetric] q f
    by (auto split: option.splits)
  have u: "port_value po = Some (uri_port u)" "uri_username u = us" "uri_password u = pw" "uri_host u = host_text d po"
    "uri_domain u = d" "uri_path u = pa" "uri_query u = qu" "uri_fragment u = fr" "uri_scheme u = sc"
    using n by simp_all
  have sc: "s = uri_scheme u @ ''://'' @ s1" "list_all (in_class (NotIn ''/?#'')) (uri_scheme u)"
    using s1 by (simp_all add: scan_scheme_iff u)
  have path: "s3 = pa @ s4" "list_all (in_class (NotIn ''?#'')) pa" "tail_starts s4"
    using span_iff [of "in_class (NotIn ''?#'')" s3 pa s4] pa by (auto simp: tail_starts_def in_class.simps)
  have auth: "authority_ok u" "s2 = uri_host u @ pa @ s4"
    using authority_scanned [of s2 d po pa s4 u] s3 u path by auto
  have ui: "if us = [] then pw = [] \<and> s1 = s2 \<and> scan_userinfo s1 = None
     else pw \<noteq> [] \<and> list_all (in_class WordChar) us \<and> list_all (in_class WordChar) pw \<and> s1 = us @ '':'' @ pw @ ''@'' @ s2"
    using s2 by (auto simp: scan_userinfo_iff split: option.splits)
  have none: "scan_userinfo (uri_host u @ pa) = None" if "us = []"
    using ui that userinfo_tail [OF path(3), of "uri_host u @ pa"] unfolding auth(2) append_assoc by auto
  have "uri_value u"
    using ui none auth(1) sc path(2) scan_after_parts(2) [OF q] scan_after_parts(2) [OF f] assms(2)
    unfolding uri_value_def u by simp
  moreover have "set s4 \<supseteq> set qu \<union> set s5" "set s5 \<supseteq> set fr"
    using scan_after_parts(1) [OF q] scan_after_parts(1) [OF f] by (metis Un_subset_iff set_append sup_ge2)+
  then have "set (get_url u) \<subseteq> set s \<union> set ''://@?#''"
    unfolding get_url_parts url_tail_def using ui sc(1) auth(2) u(2,3,6-8)
    by (cases "us = []") (auto)
  ultimately show ?thesis ..
qed

section \<open>Properties\<close>

text \<open>
  C14. The type of a parsed URI. For every leftmost-first regex engine, the values with a scheme that
  \<open>get_uri\<close> returns on ASCII texts are exactly the values of the field grammar \<open>uri_value\<close> whose text is ASCII:
  port between 0 and \<open>i32::MAX\<close> and equal to the digits in the host, user name and password both words or both
  absent, every separator in its place. And \<open>get_url\<close> is a normal form: it parses back to the same value,
  so printing and parsing once more changes nothing.
\<close>

theorem get_uri_range:
  assumes "regex_engine rx"
  shows "((\<exists>url. ascii url \<and> get_uri rx url = Ok u \<and> uri_scheme u \<noteq> []) \<longleftrightarrow> uri_value u \<and> ascii (get_url u)) \<and>
    (uri_value u \<and> ascii (get_url u) \<longrightarrow> get_uri rx (get_url u) = Ok u)"
proof -
  have parses: "get_uri rx (get_url u) = Ok u" if "uri_value u" "ascii (get_url u)"
    using regex_engine.get_uri_eq [OF assms that(2)] value_scans [OF that(1)] by simp
  have "uri_value u \<and> ascii (get_url u)" if "ascii url" "get_uri rx url = Ok u" "uri_scheme u \<noteq> []" for url
  proof -
    have "scan_uri url = Ok u" using regex_engine.get_uri_eq [OF assms that(1)] that(2) by simp
    note vl = scanned_value [OF this that(3)]
    moreover have "ascii ''://@?#''" by code_simp
    ultimately have "ascii (get_url u)" using that(1) unfolding ascii_def list_all_iff by blast
    with vl show ?thesis by blast
  qed
  moreover have "uri_scheme u \<noteq> []" if "uri_value u" using that by (simp add: uri_value_def)
  ultimately show ?thesis using parses by blast
qed

text \<open>A port with a leading zero, and a path that follows it without a slash, are values too.\<close>

definition odd_uri :: URI where
  "odd_uri = \<lparr>uri_scheme = ''ntp'', uri_username = [], uri_password = [], uri_host = ''a-b:0123'',
     uri_domain = ''a-b'', uri_port = 123, uri_path = ''@x'', uri_query = ''?'', uri_fragment = []\<rparr>"

theorem get_uri_range_witness:
  "uri_value odd_uri \<and> get_url odd_uri = ''ntp://a-b:0123@x??'' \<and> \<not> uri_value (odd_uri\<lparr>uri_port := 124\<rparr>) \<and>
   \<not> uri_value (odd_uri\<lparr>uri_path := ''4/''\<rparr>) \<and> get_uri first_match ''ntp://a-b:0123@x??'' = Ok odd_uri"
proof -
  have v: "uri_value odd_uri" and a: "ascii (get_url odd_uri)" and p: "get_url odd_uri = ''ntp://a-b:0123@x??''"
    and n: "\<not> uri_value (odd_uri\<lparr>uri_port := 124\<rparr>)" "\<not> uri_value (odd_uri\<lparr>uri_path := ''4/''\<rparr>)" by code_simp+
  from get_uri_range [OF reference_engine.regex_engine_axioms, of odd_uri] v a p n show ?thesis by simp
qed

end
