(* ===== verification/Grpc.thy ===== *)
theory Grpc
  imports Lab UriRange
begin

text \<open>
  \<open>zpinger/src/grpc.rs\<close>: the gRPC health pingers, unary \<open>Check\<close> and server-streaming \<open>Watch\<close>. tonic
  and the generated health client are parameters; the rewriting of the endpoint, the TLS decision and
  the reading of the status are the code's.
\<close>

section \<open>tonic\<close>

text \<open>
  \<open>'ep\<close> is a tonic \<open>Endpoint\<close>, \<open>'t\<close> a \<open>ClientTlsConfig\<close>, \<open>'ch\<close> a \<open>Channel\<close> and \<open>'st\<close> the stream of a
  watch. Errors are their \<open>Display\<close> texts; a \<open>HealthCheckResponse\<close> is its \<open>i32\<close> status.
\<close>

record ('w, 'ep, 't, 'ch, 'st) tonic =
  from_shared :: "string \<Rightarrow> string + 'ep"
  ep_timeout :: "duration \<Rightarrow> 'ep \<Rightarrow> 'ep"
  ep_connect_timeout :: "duration \<Rightarrow> 'ep \<Rightarrow> 'ep"
  client_tls_new :: 't
  with_webpki_roots :: "'t \<Rightarrow> 't"
  ca_certificate :: "bytes \<Rightarrow> 't \<Rightarrow> 't"
  domain_name :: "string \<Rightarrow> 't \<Rightarrow> 't"
  ep_tls_config :: "'t \<Rightarrow> 'ep \<Rightarrow> string + 'ep"
  ep_connect :: "'ep \<Rightarrow> 'w \<Rightarrow> ((string + 'ch) \<times> 'w) option"
  health_check :: "'ch \<Rightarrow> string \<Rightarrow> 'w \<Rightarrow> ((string + int) \<times> 'w) option"
  health_watch :: "'ch \<Rightarrow> string \<Rightarrow> 'w \<Rightarrow> ((string + 'st) \<times> 'w) option"
  watch_message :: "'st \<Rightarrow> 'w \<Rightarrow> ((string + int option) \<times> 'w) option"

text \<open>\<open>.map_err(|e| io::Error::new(kind, format!("{prefix}{e}")))\<close>, without and with an \<open>.await\<close>.\<close>

definition map_err :: "error_kind \<Rightarrow> string \<Rightarrow> string + 'a \<Rightarrow> 'a result" where
  "map_err k prefix r = (case r of Inl e \<Rightarrow> Err (IoError k (prefix @ e)) | Inr x \<Rightarrow> Ok x)"

definition await_map_err :: "string \<Rightarrow> ('w \<Rightarrow> ((string + 'a) \<times> 'w) option) \<Rightarrow> ('w, 'a) io" where
  "await_map_err prefix call w = Option.bind (call w) (\<lambda>(r, w'). Some (map_err Other prefix r, w'))"

abbreviation SERVING :: int where "SERVING \<equiv> 1"

section \<open>Definitions\<close>

record GrpcPinger =
  grpc_endpoint :: string
  grpc_service :: string
  grpc_timeout :: duration
  grpc_ca_cert_pem :: "bytes option"

definition GrpcPinger_new :: "string \<Rightarrow> GrpcPinger" where
  "GrpcPinger_new endpoint =
     \<lparr>grpc_endpoint = endpoint, grpc_service = [], grpc_timeout = from_secs 5, grpc_ca_cert_pem = None\<rparr>"

definition GrpcPinger_with_service :: "GrpcPinger \<Rightarrow> string \<Rightarrow> GrpcPinger" where
  "GrpcPinger_with_service self service = self\<lparr>grpc_service := service\<rparr>"

definition GrpcPinger_with_timeout :: "GrpcPinger \<Rightarrow> duration \<Rightarrow> GrpcPinger" where
  "GrpcPinger_with_timeout self t = self\<lparr>grpc_timeout := t\<rparr>"

definition GrpcPinger_with_ca_cert :: "GrpcPinger \<Rightarrow> bytes \<Rightarrow> GrpcPinger" where
  "GrpcPinger_with_ca_cert self pem = self\<lparr>grpc_ca_cert_pem := Some pem\<rparr>"

record GrpcStreamPinger =
  gs_endpoint :: string
  gs_service :: string
  gs_timeout :: duration
  gs_ca_cert_pem :: "bytes option"

definition GrpcStreamPinger_new :: "string \<Rightarrow> GrpcStreamPinger" where
  "GrpcStreamPinger_new endpoint =
     \<lparr>gs_endpoint = endpoint, gs_service = [], gs_timeout = from_secs 5, gs_ca_cert_pem = None\<rparr>"

definition GrpcStreamPinger_with_service :: "GrpcStreamPinger \<Rightarrow> string \<Rightarrow> GrpcStreamPinger" where
  "GrpcStreamPinger_with_service self service = self\<lparr>gs_service := service\<rparr>"

definition GrpcStreamPinger_with_timeout :: "GrpcStreamPinger \<Rightarrow> duration \<Rightarrow> GrpcStreamPinger" where
  "GrpcStreamPinger_with_timeout self t = self\<lparr>gs_timeout := t\<rparr>"

definition GrpcStreamPinger_with_ca_cert :: "GrpcStreamPinger \<Rightarrow> bytes \<Rightarrow> GrpcStreamPinger" where
  "GrpcStreamPinger_with_ca_cert self pem = self\<lparr>gs_ca_cert_pem := Some pem\<rparr>"

definition normalize_endpoint :: "string \<Rightarrow> string result" where
  "normalize_endpoint input =
     (let trimmed = trim input
      in if trimmed = [] then err_invalid ''empty gRPC endpoint''
         else (case strip_prefix ''grpcs://'' trimmed of
             Some rest \<Rightarrow> Ok (''https://'' @ rest)
           | None \<Rightarrow> (case strip_prefix ''grpc://'' trimmed of
               Some rest \<Rightarrow> Ok (''http://'' @ rest)
             | None \<Rightarrow>
                 if starts_with ''http://'' trimmed \<or> starts_with ''https://'' trimmed
                 then Ok trimmed
                 else Ok (''http://'' @ trimmed))))"

definition is_tls :: "URI \<Rightarrow> bool" where
  "is_tls uri = (let scheme = to_ascii_lowercase (uri_scheme uri) in scheme = ''grpcs'' \<or> scheme = ''https'')"

text \<open>
  The part the two pings have in common, word for word: the endpoint, its TLS configuration and the
  connection. Note that the URI is parsed from the endpoint as given, the URL from the trimmed one.
\<close>

definition grpc_channel :: "engine \<Rightarrow> ('w, 'ep, 't, 'ch, 'st) tonic \<Rightarrow> string \<Rightarrow> duration \<Rightarrow> bytes option \<Rightarrow> ('w, 'ch) io" where
  "grpc_channel rx t endpoint timeout ca_cert_pem =
     io_bind (io_lift (normalize_endpoint endpoint)) (\<lambda>url.
     io_bind (io_lift (get_uri rx endpoint)) (\<lambda>uri.
     io_bind (io_lift (map_err InvalidInput [] (from_shared t url))) (\<lambda>ep0.
       let ep1 = ep_connect_timeout t timeout (ep_timeout t timeout ep0)
       in io_bind (io_lift (
            if is_tls uri then
              (let tls = (case ca_cert_pem of
                   Some pem \<Rightarrow> ca_certificate t pem (client_tls_new t)
                 | None \<Rightarrow> with_webpki_roots t (client_tls_new t));
                   tls = (if uri_domain uri \<noteq> [] then domain_name t (uri_domain uri) tls else tls)
               in map_err Other ''tonic tls_config: '' (ep_tls_config t tls ep1))
            else Ok ep1)) (\<lambda>ep.
          await_map_err ''connect: '' (ep_connect t ep)))))"

definition grpc_ping :: "engine \<Rightarrow> ('w, 'ep, 't, 'ch, 'st) tonic \<Rightarrow> GrpcPinger \<Rightarrow> ('w, unit) io" where
  "grpc_ping rx t self =
     io_bind (grpc_channel rx t (grpc_endpoint self) (grpc_timeout self) (grpc_ca_cert_pem self)) (\<lambda>channel.
     io_bind (await_map_err ''Health/Check: '' (health_check t channel (grpc_service self))) (\<lambda>status.
       if status \<noteq> SERVING
       then io_err (IoError Other (''gRPC server returned status '' @ dec_int status @ '' (expected SERVING=1)''))
       else io_ok ()))"

definition grpc_stream_ping :: "engine \<Rightarrow> ('w, 'ep, 't, 'ch, 'st) tonic \<Rightarrow> GrpcStreamPinger \<Rightarrow> ('w, unit) io" where
  "grpc_stream_ping rx t self =
     io_bind (grpc_channel rx t (gs_endpoint self) (gs_timeout self) (gs_ca_cert_pem self)) (\<lambda>channel.
     io_bind (await_map_err ''Health/Watch: '' (health_watch t channel (gs_service self))) (\<lambda>stream.
     io_bind (await_map_err ''Watch stream error: '' (watch_message t stream)) (\<lambda>first.
       case first of
         None \<Rightarrow> io_err (IoError Other ''Watch stream closed before first message'')
       | Some status \<Rightarrow>
           if status \<noteq> SERVING
           then io_err (IoError Other (''first watched status was '' @ dec_int status @ '' (expected SERVING=1)''))
           else io_ok ())))"

section \<open>Schemes\<close>

lemma scan_uri_scheme:
  assumes "scan_uri s = Ok u"
  shows "uri_scheme u = (case scan_scheme s of Some (x, _) \<Rightarrow> x | None \<Rightarrow> [])"
  using assms by (auto simp: scan_uri_def Let_def case_prod_beta split: option.splits)

lemma scheme_starts:
  assumes "scan_uri s = Ok u" and "sc \<noteq> []" and "list_all (in_class (NotIn ''/?#'')) sc"
  shows "uri_scheme u = sc \<longleftrightarrow> starts_with (sc @ ''://'') s"
proof
  assume "uri_scheme u = sc"
  then obtain r where "scan_scheme s = Some (sc, r)"
    using scan_uri_scheme [OF assms(1)] assms(2) by (auto split: option.splits)
  then show "starts_with (sc @ ''://'') s" by (auto simp: scan_scheme_iff starts_with_iff)
next
  assume "starts_with (sc @ ''://'') s"
  then obtain r where "s = sc @ ''://'' @ r" by (auto simp: starts_with_iff)
  with assms have "scan_scheme s = Some (sc, r)" by (simp add: scan_scheme_iff)
  then show "uri_scheme u = sc" using scan_uri_scheme [OF assms(1)] by simp
qed

lemma strip_prefix_iff: "strip_prefix p s = Some r \<longleftrightarrow> s = p @ r"
  by (auto simp: strip_prefix_def starts_with_iff)

section \<open>Properties\<close>

text \<open>
  C39. gRPC TLS decision. For an endpoint without surrounding white space whose scheme is in lower
  case, TLS is configured exactly when the URL handed to tonic is an https one.
\<close>

theorem grpc_tls_agrees:
  assumes "regex_engine rx" and "ascii s" and "trim s = s" and "s \<noteq> []" and "get_uri rx s = Ok u"
    and "to_ascii_lowercase (uri_scheme u) = uri_scheme u"
  shows "(\<exists>rest. normalize_endpoint s = Ok (''https://'' @ rest)) \<longleftrightarrow> is_tls u"
proof -
  have su: "scan_uri s = Ok u" using assms(5) by (simp add: regex_engine.get_uri_eq [OF assms(1,2)])
  have g: "uri_scheme u = ''grpcs'' \<longleftrightarrow> starts_with ''grpcs://'' s" and h: "uri_scheme u = ''https'' \<longleftrightarrow> starts_with ''https://'' s"
    using scheme_starts [OF su, of "''grpcs''"] scheme_starts [OF su, of "''https''"] by simp_all
  have "is_tls u \<longleftrightarrow> starts_with ''grpcs://'' s \<or> starts_with ''https://'' s"
    by (simp add: is_tls_def assms(6) g h)
  moreover have "(\<exists>rest. normalize_endpoint s = Ok (''https://'' @ rest)) \<longleftrightarrow> starts_with ''grpcs://'' s \<or> starts_with ''https://'' s"
  proof (cases "starts_with ''grpcs://'' s \<or> starts_with ''grpc://'' s")
    case True
    then obtain t where "s = ''grpcs://'' @ t \<or> s = ''grpc://'' @ t" by (auto simp: starts_with_iff)
    then show ?thesis using assms(3) by (auto simp: normalize_endpoint_def strip_prefix_def)
  next
    case False
    then show ?thesis using assms(3,4) by (auto simp: normalize_endpoint_def strip_prefix_def starts_with_iff)
  qed
  ultimately show ?thesis by simp
qed


lemma example_endpoint: "get_uri first_match ''srv:5300'' = Ok u \<Longrightarrow> \<not> is_tls u"
  by (auto simp: is_tls_def)

lemma grpc_tls_agrees_witness: "\<not> (\<exists>rest. normalize_endpoint ''srv:5300'' = Ok (''https://'' @ rest))"
proof -
  let ?u = "default_uri\<lparr>uri_host := ''srv:5300'', uri_domain := ''srv'', uri_port := 5300, uri_path := []\<rparr>"
  have a: "ascii ''srv:5300''" by code_simp
  have t: "trim ''srv:5300'' = ''srv:5300''" by (rule trim_id) (simp_all add: graphic_def)
  have "(\<exists>rest. normalize_endpoint ''srv:5300'' = Ok (''https://'' @ rest)) \<longleftrightarrow> is_tls ?u"
    by (rule grpc_tls_agrees [OF reference_engine.regex_engine_axioms a t _ lab_target])
      (simp_all add: default_uri_def to_ascii_lowercase_def)
  then show ?thesis using example_endpoint [OF lab_target] by simp
qed

lemma trim_pad:
  assumes "s \<noteq> []" "graphic (hd s)" "graphic (last s)"
  shows "trim (CHR '' '' # s) = s"
proof -
  have ws: "ws_len white_space (CHR '' '' # s) = 1"
    by (simp add: ws_len_def white_space_def upt_rec_numeral)
  have "trim_start (CHR '' '' # s) = s"
    using strip_front_id [of white_space s "length s"] white_space_ends assms(2)
    by (simp add: trim_start_def ws Let_def)
  then have "trim (CHR '' '' # s) = trim_end s" by (simp add: trim_def)
  moreover have "trim_start s = s" using assms(1,2) by (intro trim_start_id) simp
  ultimately show ?thesis using trim_id [OF assms] by (simp add: trim_def)
qed

text \<open>
  gRPC TLS decision, where it fails. A space before a grpcs endpoint leaves the URL an https one
  but no TLS is configured, and an upper-case GRPCS scheme is dialed as the host of a plain http URL
  with TLS configured.
\<close>

theorem grpc_tls_disagrees:
  "normalize_endpoint '' grpcs://srv:1'' = Ok ''https://srv:1'' \<and> map_result is_tls (get_uri first_match '' grpcs://srv:1'') = Ok False \<and>
   normalize_endpoint ''GRPCS://srv:1'' = Ok ''http://GRPCS://srv:1'' \<and> map_result is_tls (get_uri first_match ''GRPCS://srv:1'') = Ok True"
proof -
  have "trim '' grpcs://srv:1'' = ''grpcs://srv:1''" by (rule trim_pad) (simp_all add: graphic_def)
  moreover have "trim ''GRPCS://srv:1'' = ''GRPCS://srv:1''" by (rule trim_id) (simp_all add: graphic_def)
  moreover have "scan_uri '' grpcs://srv:1'' = Ok \<lparr>uri_scheme = '' grpcs'', uri_username = [], uri_password = [],
      uri_host = ''srv:1'', uri_domain = ''srv'', uri_port = 1, uri_path = [], uri_query = [], uri_fragment = []\<rparr>"
    by code_simp
  moreover have "scan_uri ''GRPCS://srv:1'' = Ok \<lparr>uri_scheme = ''GRPCS'', uri_username = [], uri_password = [],
      uri_host = ''srv:1'', uri_domain = ''srv'', uri_port = 1, uri_path = [], uri_query = [], uri_fragment = []\<rparr>"
    by code_simp
  moreover have "to_ascii_lowercase '' grpcs'' = '' grpcs''" "to_ascii_lowercase ''GRPCS'' = ''grpcs''"
    by code_simp+
  ultimately show ?thesis
    by (simp add: normalize_endpoint_def strip_prefix_def get_uri_lab is_tls_def)
qed

text \<open>
  gRPC Check and Watch. With the same endpoint, service, timeout and trust anchor, against a
  server that answers Check with a status and opens Watch with the same one, as the health checking
  protocol demands, the two pings succeed together: exactly when the connection stands and the status
  is SERVING.
\<close>

theorem grpc_check_watch_agree:
  assumes "gs_endpoint q = grpc_endpoint p" "gs_service q = grpc_service p" "gs_timeout q = grpc_timeout p"
      "gs_ca_cert_pem q = grpc_ca_cert_pem p"
    and "\<And>ch w. \<exists>w'. health_check t ch (grpc_service p) w = Some (Inr status, w')"
    and "\<And>ch w. \<exists>st w'. health_watch t ch (grpc_service p) w = Some (Inr st, w') \<and>
      (\<exists>w''. watch_message t st w' = Some (Inr (Some status), w''))"
    and "grpc_channel rx t (grpc_endpoint p) (grpc_timeout p) (grpc_ca_cert_pem p) w = Some (r, w1)"
  shows "\<exists>r1 r2 w2 w3. grpc_ping rx t p w = Some (r1, w2) \<and> grpc_stream_ping rx t q w = Some (r2, w3) \<and>
    (is_ok r1 \<longleftrightarrow> is_ok r2) \<and> (is_ok r1 \<longleftrightarrow> is_ok r \<and> status = 1)"
proof (cases r)
  case (Ok ch)
  obtain w2 where 2: "health_check t ch (grpc_service p) w1 = Some (Inr status, w2)" using assms(5) by blast
  obtain st w3 w4 where 3: "health_watch t ch (grpc_service p) w1 = Some (Inr st, w3)"
      "watch_message t st w3 = Some (Inr (Some status), w4)" using assms(6) by blast
  show ?thesis
    using Ok assms(7) 2 3
    by (simp add: grpc_ping_def grpc_stream_ping_def assms(1-4) io_bind_def await_map_err_def map_err_def)
qed (use assms(7) in \<open>simp_all add: grpc_ping_def grpc_stream_ping_def assms(1-4) io_bind_def\<close>)

definition toy_tonic :: "int \<Rightarrow> (nat, string, unit, unit, unit) tonic" where
  "toy_tonic status = \<lparr>from_shared = Inr, ep_timeout = \<lambda>_ e. e, ep_connect_timeout = \<lambda>_ e. e, client_tls_new = (),
     with_webpki_roots = \<lambda>c. c, ca_certificate = \<lambda>_ c. c, domain_name = \<lambda>_ c. c, ep_tls_config = \<lambda>_ e. Inr e,
     ep_connect = \<lambda>_ w. Some (Inr (), w + 1), health_check = \<lambda>_ _ w. Some (Inr status, w + 1),
     health_watch = \<lambda>_ _ w. Some (Inr (), w + 1), watch_message = \<lambda>_ w. Some (Inr (Some status), w + 1)\<rparr>"

lemma grpc_check_watch_agree_witness:
  "\<exists>r1 r2 w2 w3. grpc_ping first_match (toy_tonic 2) (GrpcPinger_new ''srv:5300'') 0 = Some (r1, w2) \<and>
    grpc_stream_ping first_match (toy_tonic 2) (GrpcStreamPinger_new ''srv:5300'') 0 = Some (r2, w3) \<and> \<not> is_ok r1 \<and> \<not> is_ok r2"
proof -
  have t: "trim ''srv:5300'' = ''srv:5300''" by (rule trim_id) (simp_all add: graphic_def)
  have c: "grpc_channel first_match (toy_tonic 2) (grpc_endpoint (GrpcPinger_new ''srv:5300''))
      (grpc_timeout (GrpcPinger_new ''srv:5300'')) (grpc_ca_cert_pem (GrpcPinger_new ''srv:5300'')) 0 = Some (Ok (), 1)"
    by (simp add: grpc_channel_def GrpcPinger_new_def normalize_endpoint_def t strip_prefix_def map_err_def await_map_err_def
        toy_tonic_def is_tls_def Let_def)
  show ?thesis
    using grpc_check_watch_agree [OF _ _ _ _ _ _ c, of "GrpcStreamPinger_new ''srv:5300''" 2]
    by (simp add: GrpcStreamPinger_new_def GrpcPinger_new_def toy_tonic_def) metis
qed

end
