(* ===== verification/Startup.thy ===== *)
theory Startup
  imports Env
begin

text \<open>
  \<open>testserver\<close>: the start functions of \<open>testserver/src/lib.rs\<close> (bind, bound address, serving thread), the
  test certificates, and \<open>testserver/src/main.rs\<close>. What the started threads do with what they receive is in
  \<open>Responders\<close>, \<open>StreamServers\<close> and \<open>HlsServer\<close>.
\<close>

section \<open>Definitions\<close>

text \<open>
  The loop a started thread runs, with what its closure owns: \<open>'l\<close> is a socket, listener or quinn endpoint,
  \<open>'sc\<close> a rustls \<open>ServerConfig\<close>, \<open>'qc\<close> a quinn one. The QUIC thread owns no endpoint yet: it makes it itself.
\<close>

datatype ('l, 'sc, 'qc) task =
    ServeTcpEcho 'l | ServeUdpEcho 'l | ServeHttp 'l | ServeHttps 'l 'sc | ServeHls 'l | ServeDns 'l
  | ServeWs 'l | ServeWss 'l 'sc | ServeGrpc 'l | ServeGrpcs 'l bytes bytes | ServeMqtt 'l | ServeMqtts 'l 'sc
  | ServeNtp 'l | ServeStun 'l | ServeTurn 'l | ServeRtsp 'l | ServeRtmp 'l | ServeQuic 'qc socket_addr

text \<open>
  The standard library, rcgen, rustls and quinn as the start functions call them. \<open>'i\<close> is rcgen's
  certified key, \<open>'b\<close> and \<open>'cb\<close> rustls builders once the protocol versions are chosen, \<open>'r\<close> a root store,
  \<open>'cc\<close> a \<open>ClientConfig\<close>, \<open>'qc\<close> a quinn server configuration. The \<open>bool\<close> of the builders is "TLS 1.3 only".
  \<open>thread_spawn\<close> starts a thread that serves; \<open>quic_runtime\<close> is the construction of the tokio runtime.
\<close>

record ('w, 'l, 'i, 'b, 'sc, 'r, 'cb, 'cc, 'qc) os =
  tcp_listen :: "string \<Rightarrow> ('w, 'l) io"
  udp_listen :: "string \<Rightarrow> ('w, 'l) io"
  listener_addr :: "'l \<Rightarrow> ('w, socket_addr) io"
  set_nonblocking :: "'l \<Rightarrow> ('w, unit) io"
  to_socket_addrs :: "string \<Rightarrow> ('w, socket_addr list) io"
  thread_spawn :: "('l, 'sc, 'qc) task \<Rightarrow> 'w \<Rightarrow> 'w"
  self_signed :: "string list \<Rightarrow> 'w \<Rightarrow> (string + 'i) \<times> 'w"
  cert_der :: "'i \<Rightarrow> bytes"
  key_der :: "'i \<Rightarrow> bytes"
  cert_pem :: "'i \<Rightarrow> bytes"
  key_pem :: "'i \<Rightarrow> bytes"
  server_builder :: "bool \<Rightarrow> string + 'b"
  with_single_cert :: "bytes \<Rightarrow> bytes \<Rightarrow> 'b \<Rightarrow> string + 'sc"
  add_root :: "bytes \<Rightarrow> string + 'r"
  client_builder :: "bool \<Rightarrow> string + 'cb"
  with_root_certificates :: "'r \<Rightarrow> 'cb \<Rightarrow> 'cc"
  set_server_alpn :: "bytes list \<Rightarrow> 'sc \<Rightarrow> 'sc"
  quic_server_config :: "'sc \<Rightarrow> string + 'qc"
  quic_runtime :: "('w, unit) io"
  quic_endpoint_server :: "'qc \<Rightarrow> socket_addr \<Rightarrow> ('w, 'l) io"

text \<open>\<open>.map_err(|e| io::Error::other(format!("prefix: {e}")))?\<close>.\<close>

definition other_err :: "string \<Rightarrow> string + 'a \<Rightarrow> ('w, 'a) io" where
  "other_err prefix r = (case r of Inl e \<Rightarrow> io_lift (err_other (prefix @ '': '' @ e)) | Inr x \<Rightarrow> io_ok x)"

definition generate_cert :: "('w, 'l, 'i, 'b, 'sc, 'r, 'cb, 'cc, 'qc) os \<Rightarrow> ('w, 'i) io" where
  "generate_cert os w = (case self_signed os [''localhost''] w of (r, w') \<Rightarrow> other_err ''rcgen'' r w')"

text \<open>What every start function ends with: bind, read the bound address, start the thread, return.\<close>

definition serve_on :: "('w, 'l, 'i, 'b, 'sc, 'r, 'cb, 'cc, 'qc) os \<Rightarrow> ('w, 'l) io \<Rightarrow> ('l \<Rightarrow> ('l, 'sc, 'qc) task) \<Rightarrow> ('w, socket_addr) io" where
  "serve_on os bind task =
     io_bind bind (\<lambda>listener.
     io_bind (listener_addr os listener) (\<lambda>bound w.
     Some (Ok bound, thread_spawn os (task listener) w)))"

definition start_tcp_echo where "start_tcp_echo os addr = serve_on os (tcp_listen os addr) ServeTcpEcho"
definition start_udp_echo_thread where "start_udp_echo_thread os addr = serve_on os (udp_listen os addr) ServeUdpEcho"
definition start_http_ok where "start_http_ok os addr = serve_on os (tcp_listen os addr) ServeHttp"
definition start_hls_ok where "start_hls_ok os addr = serve_on os (tcp_listen os addr) ServeHls"
definition start_dns_thread where "start_dns_thread os addr = serve_on os (udp_listen os addr) ServeDns"
definition start_ws_ok where "start_ws_ok os addr = serve_on os (tcp_listen os addr) ServeWs"
definition start_mqtt_ok where "start_mqtt_ok os addr = serve_on os (tcp_listen os addr) ServeMqtt"
definition start_ntp_thread where "start_ntp_thread os addr = serve_on os (udp_listen os addr) ServeNtp"
definition start_stun_thread where "start_stun_thread os addr = serve_on os (udp_listen os addr) ServeStun"
definition start_turn_thread where "start_turn_thread os addr = serve_on os (udp_listen os addr) ServeTurn"
definition start_rtsp_ok where "start_rtsp_ok os addr = serve_on os (tcp_listen os addr) ServeRtsp"
definition start_rtmp_ok where "start_rtmp_ok os addr = serve_on os (tcp_listen os addr) ServeRtmp"

definition make_test_tls_pair :: "('w, 'l, 'i, 'b, 'sc, 'r, 'cb, 'cc, 'qc) os \<Rightarrow> ('w, 'sc \<times> 'cc) io" where
  "make_test_tls_pair os =
     io_bind (generate_cert os) (\<lambda>issued.
     io_bind (other_err ''rustls protocol'' (server_builder os False)) (\<lambda>builder.
     io_bind (other_err ''rustls server cert'' (with_single_cert os (cert_der os issued) (key_der os issued) builder)) (\<lambda>server_config.
     io_bind (other_err ''trust anchor'' (add_root os (cert_der os issued))) (\<lambda>roots.
     io_bind (other_err ''rustls protocol'' (client_builder os False)) (\<lambda>builder.
     io_ok (server_config, with_root_certificates os roots builder))))))"

record 'cc HttpsServer =
  hs_addr :: socket_addr
  hs_client_config :: 'cc

definition tls_serve_on where
  "tls_serve_on os addr task =
     io_bind (make_test_tls_pair os) (\<lambda>(server_config, client_config).
     io_bind (serve_on os (tcp_listen os addr) (\<lambda>l. task l server_config)) (\<lambda>bound.
     io_ok \<lparr>hs_addr = bound, hs_client_config = client_config\<rparr>))"

definition start_https_ok where "start_https_ok os addr = tls_serve_on os addr ServeHttps"
definition start_wss_ok where "start_wss_ok os addr = tls_serve_on os addr ServeWss"
definition start_mqtts_ok where "start_mqtts_ok os addr = tls_serve_on os addr ServeMqtts"

text \<open>The gRPC servers make the listener non-blocking before they read its address.\<close>

definition nonblocking_listen :: "('w, 'l, 'i, 'b, 'sc, 'r, 'cb, 'cc, 'qc) os \<Rightarrow> string \<Rightarrow> ('w, 'l) io" where
  "nonblocking_listen os addr =
     io_bind (tcp_listen os addr) (\<lambda>listener. io_bind (set_nonblocking os listener) (\<lambda>_. io_ok listener))"

definition start_grpc_ok where "start_grpc_ok os addr = serve_on os (nonblocking_listen os addr) ServeGrpc"

record GrpcsServer =
  gs_addr :: socket_addr
  gs_ca_pem :: bytes

definition start_grpcs_ok where
  "start_grpcs_ok os addr =
     io_bind (generate_cert os) (\<lambda>issued.
     io_bind (serve_on os (nonblocking_listen os addr) (\<lambda>l. ServeGrpcs l (cert_pem os issued) (key_pem os issued))) (\<lambda>bound.
     io_ok \<lparr>gs_addr = bound, gs_ca_pem = cert_pem os issued\<rparr>))"

text \<open>
  The QUIC server's thread sets up its runtime and endpoint itself, and sends the bound address or the first
  error back over a channel; after an error it returns. \<open>rx.recv()\<close> waits for that message; a thread that ends without
  one, by a panic, drops its end of the channel, which is an error too.
\<close>

definition quic_thread :: "('w, 'l, 'i, 'b, 'sc, 'r, 'cb, 'cc, 'qc) os \<Rightarrow> 'qc \<Rightarrow> socket_addr \<Rightarrow> ('w, socket_addr) io" where
  "quic_thread os server_config bind =
     io_bind (quic_runtime os) (\<lambda>_.
     io_bind (quic_endpoint_server os server_config bind) (\<lambda>endpoint.
     listener_addr os endpoint))"

definition rx_recv :: "('w, 'a) io \<Rightarrow> ('w, 'a) io" where
  "rx_recv thread w =
     (case thread w of
        None \<Rightarrow> None
      | Some (Panic _, w') \<Rightarrow> Some (err_other ''receiving on a closed channel'', w')
      | Some (message, w') \<Rightarrow> Some (message, w'))"

text \<open>The thread is started before it sets anything up.\<close>

definition quic_server_set_up :: "('w, 'l, 'i, 'b, 'sc, 'r, 'cb, 'cc, 'qc) os \<Rightarrow> 'qc \<Rightarrow> socket_addr \<Rightarrow> ('w, socket_addr) io" where
  "quic_server_set_up os server_config bind w =
     rx_recv (quic_thread os server_config bind) (thread_spawn os (ServeQuic server_config bind) w)"

record 'cc QuicServer =
  qs_addr :: socket_addr
  qs_client_config :: 'cc

definition start_quic_ok where
  "start_quic_ok os addr =
     io_bind (to_socket_addrs os addr) (\<lambda>addrs.
     case addrs of
       [] \<Rightarrow> io_lift (err_other ''start_quic_ok: no addresses to bind'')
     | bind # _ \<Rightarrow>
         io_bind (generate_cert os) (\<lambda>issued.
         io_bind (other_err ''rustls protocol (server)'' (server_builder os True)) (\<lambda>builder.
         io_bind (other_err ''rustls server cert'' (with_single_cert os (cert_der os issued) (key_der os issued) builder)) (\<lambda>server_crypto.
         let server_crypto = set_server_alpn os [bytes_of ''h3''] server_crypto
         in io_bind (other_err ''quinn QuicServerConfig'' (quic_server_config os server_crypto)) (\<lambda>server_config.
         io_bind (other_err ''trust anchor'' (add_root os (cert_der os issued))) (\<lambda>roots.
         io_bind (other_err ''rustls protocol (client)'' (client_builder os True)) (\<lambda>builder.
         let client_config = with_root_certificates os roots builder
         in io_bind (quic_server_set_up os server_config bind) (\<lambda>bound.
         io_ok \<lparr>qs_addr = bound, qs_client_config = client_config\<rparr>))))))))"

section \<open>\<open>main.rs\<close>\<close>

record Args =
  arg_tcp :: u16
  arg_udp :: u16
  arg_http :: u16
  arg_ws :: u16
  arg_dns :: u16
  arg_mqtt :: u16
  arg_grpc :: u16
  arg_hls :: u16
  arg_ntp :: u16
  arg_stun :: u16
  arg_turn :: u16
  arg_rtsp :: u16
  arg_rtmp :: u16
  arg_quic :: u16
  arg_bind :: string

definition default_args :: Args where
  "default_args = \<lparr>arg_tcp = 18000, arg_udp = 18001, arg_http = 18002, arg_ws = 18003, arg_dns = 18004, arg_mqtt = 18005,
     arg_grpc = 18006, arg_hls = 18007, arg_ntp = 18008, arg_stun = 18009, arg_turn = 18010, arg_rtsp = 18011,
     arg_rtmp = 18012, arg_quic = 18013, arg_bind = ''0.0.0.0''\<rparr>"

text \<open>\<open>Inl\<close> is the exit with status 1 after the message for that label.\<close>

definition start_or_die :: "string \<Rightarrow> ('w, socket_addr) io \<Rightarrow> ('w, string + socket_addr) io" where
  "start_or_die label f = io_catch f (\<lambda>addr. io_ok (Inr addr)) (\<lambda>_. io_ok (Inl label))"

fun start_each :: "(string \<times> ('w, socket_addr) io) list \<Rightarrow> ('w, string + socket_addr list) io" where
  "start_each [] = io_ok (Inr [])"
| "start_each ((label, f) # rest) =
     io_bind (start_or_die label f) (\<lambda>r. case r of
       Inl l \<Rightarrow> io_ok (Inl l)
     | Inr addr \<Rightarrow> io_bind (start_each rest) (\<lambda>r. case r of
           Inl l \<Rightarrow> io_ok (Inl l)
         | Inr addrs \<Rightarrow> io_ok (Inr (addr # addrs))))"

definition services :: "('w, 'l, 'i, 'b, 'sc, 'r, 'cb, 'cc, 'qc) os \<Rightarrow> Args \<Rightarrow> (string \<times> ('w, socket_addr) io) list" where
  "services os args =
     (let at = (\<lambda>port :: u16. arg_bind args @ '':'' @ dec (unat port))
      in [(''tcp'', start_tcp_echo os (at (arg_tcp args))),
          (''udp'', start_udp_echo_thread os (at (arg_udp args))),
          (''http'', start_http_ok os (at (arg_http args))),
          (''ws'', start_ws_ok os (at (arg_ws args))),
          (''dns'', start_dns_thread os (at (arg_dns args))),
          (''mqtt'', start_mqtt_ok os (at (arg_mqtt args))),
          (''grpc'', start_grpc_ok os (at (arg_grpc args))),
          (''hls'', start_hls_ok os (at (arg_hls args))),
          (''ntp'', start_ntp_thread os (at (arg_ntp args))),
          (''stun'', start_stun_thread os (at (arg_stun args))),
          (''turn'', start_turn_thread os (at (arg_turn args))),
          (''rtsp'', start_rtsp_ok os (at (arg_rtsp args))),
          (''rtmp'', start_rtmp_ok os (at (arg_rtmp args))),
          (''quic'', io_bind (start_quic_ok os (at (arg_quic args))) (\<lambda>s. io_ok (qs_addr s)))])"

text \<open>The addresses printed, in order, before the program parks.\<close>

definition testserver_main :: "('w, 'l, 'i, 'b, 'sc, 'r, 'cb, 'cc, 'qc) os \<Rightarrow> Args \<Rightarrow> ('w, string + socket_addr list) io" where
  "testserver_main os args = start_each (services os args)"

section \<open>Threads\<close>

text \<open>The server a thread belongs to.\<close>

fun task_label :: "('l, 'sc, 'qc) task \<Rightarrow> string" where
  "task_label (ServeTcpEcho _) = ''tcp''"
| "task_label (ServeUdpEcho _) = ''udp''"
| "task_label (ServeHttp _) = ''http''"
| "task_label (ServeHttps _ _) = ''https''"
| "task_label (ServeHls _) = ''hls''"
| "task_label (ServeDns _) = ''dns''"
| "task_label (ServeWs _) = ''ws''"
| "task_label (ServeWss _ _) = ''wss''"
| "task_label (ServeGrpc _) = ''grpc''"
| "task_label (ServeGrpcs _ _ _) = ''grpcs''"
| "task_label (ServeMqtt _) = ''mqtt''"
| "task_label (ServeMqtts _ _) = ''mqtts''"
| "task_label (ServeNtp _) = ''ntp''"
| "task_label (ServeStun _) = ''stun''"
| "task_label (ServeTurn _) = ''turn''"
| "task_label (ServeRtsp _) = ''rtsp''"
| "task_label (ServeRtmp _) = ''rtmp''"
| "task_label (ServeQuic _ _) = ''quic''"

text \<open>
  \<open>threads\<close> are the serving threads that were started in a world, in order. Nothing but
  \<open>thread::spawn\<close> starts one.
\<close>

locale os_threads =
  fixes os :: "('w, 'l, 'i, 'b, 'sc, 'r, 'cb, 'cc, 'qc) os" and threads :: "'w \<Rightarrow> ('l, 'sc, 'qc) task list"
  assumes tcp_keeps: "tcp_listen os a w = Some (x, w') \<Longrightarrow> threads w' = threads w"
    and udp_keeps: "udp_listen os a w = Some (x, w') \<Longrightarrow> threads w' = threads w"
    and addr_keeps: "listener_addr os l w = Some (y, w') \<Longrightarrow> threads w' = threads w"
    and nonblocking_keeps: "set_nonblocking os l w = Some (z, w') \<Longrightarrow> threads w' = threads w"
    and lookup_keeps: "to_socket_addrs os a w = Some (u, w') \<Longrightarrow> threads w' = threads w"
    and cert_keeps: "threads (snd (self_signed os names w)) = threads w"
    and runtime_keeps: "quic_runtime os w = Some (z, w') \<Longrightarrow> threads w' = threads w"
    and endpoint_keeps: "quic_endpoint_server os k s w = Some (x, w') \<Longrightarrow> threads w' = threads w"
    and spawn_appends: "threads (thread_spawn os t w) = threads w @ [t]"
begin

definition keeps :: "('w, 'a) io \<Rightarrow> bool" where
  "keeps m = (\<forall>w r w'. m w = Some (r, w') \<longrightarrow> threads w' = threads w)"

text \<open>A start that succeeds starts its thread; one that fails starts none, but the QUIC server's may have by then.\<close>

definition launches :: "string \<Rightarrow> ('w, 'a) io \<Rightarrow> bool" where
  "launches lbl m = (\<forall>w r w'. m w = Some (r, w') \<longrightarrow>
     (\<exists>ts. threads w' = threads w @ ts \<and> (if is_ok r then map task_label ts = [lbl]
        else ts = [] \<or> lbl = ''quic'' \<and> map task_label ts = [lbl])))"

lemma keeps_lift [simp, intro]: "keeps (io_lift r)"
  by (simp add: keeps_def)

lemma keeps_bind [intro]: "keeps m \<Longrightarrow> (\<And>x. keeps (f x)) \<Longrightarrow> keeps (io_bind m f)"
  unfolding keeps_def io_bind_def by (auto split: Option.bind_splits result.splits)

lemma launches_bind [intro]: "keeps m \<Longrightarrow> (\<And>x. launches lbl (f x)) \<Longrightarrow> launches lbl (io_bind m f)"
  unfolding keeps_def launches_def io_bind_def by (fastforce split: Option.bind_splits result.splits)

lemma launches_map [intro]: "launches lbl m \<Longrightarrow> launches lbl (io_bind m (\<lambda>x. io_ok (g x)))"
  unfolding launches_def io_bind_def by (fastforce split: Option.bind_splits result.splits)

lemma keeps_other [simp, intro]: "keeps (other_err p r)"
  by (simp add: other_err_def split: sum.split)

lemma keeps_cert [simp, intro]: "keeps (generate_cert os)"
  unfolding keeps_def
proof (intro allI impI)
  fix w r w'
  assume a: "generate_cert os w = Some (r, w')"
  obtain x w1 where "self_signed os [''localhost''] w = (x, w1)" by fastforce
  then show "threads w' = threads w"
    using a cert_keeps [of "[''localhost'']" w] by (auto simp: generate_cert_def other_err_def split: sum.splits)
qed

lemma keeps_ops [simp, intro]:
  "keeps (tcp_listen os a)" "keeps (udp_listen os a)" "keeps (listener_addr os l)" "keeps (set_nonblocking os l)"
  "keeps (to_socket_addrs os a)" "keeps (quic_runtime os)" "keeps (quic_endpoint_server os k s)"
  unfolding keeps_def
  by (blast dest: tcp_keeps udp_keeps addr_keeps nonblocking_keeps lookup_keeps runtime_keeps endpoint_keeps)+

lemma keeps_nonblocking [simp, intro]: "keeps (nonblocking_listen os a)"
  unfolding nonblocking_listen_def by (intro keeps_bind keeps_lift keeps_ops)

lemma serve_on_launches:
  assumes "keeps b" and "\<And>l. task_label (task l) = lbl"
  shows "launches lbl (serve_on os b task)"
proof -
  have s: "launches lbl (\<lambda>w. Some (Ok bound, thread_spawn os (task l) w))" for l and bound :: socket_addr
    using assms(2) by (simp add: launches_def spawn_appends)
  show ?thesis unfolding serve_on_def by (intro launches_bind assms(1) keeps_ops s)
qed

lemma start_quic_launches: "launches ''quic'' (start_quic_ok os addr)"
proof -
  have t: "keeps (quic_thread os c b)" for c b
    unfolding quic_thread_def by (intro keeps_bind keeps_ops)
  have s: "launches ''quic'' (quic_server_set_up os c b)" for c b
    unfolding launches_def
  proof (intro allI impI)
    fix w r w'
    assume "quic_server_set_up os c b w = Some (r, w')"
    then obtain x where "quic_thread os c b (thread_spawn os (ServeQuic c b) w) = Some (x, w')"
      by (auto simp: quic_server_set_up_def rx_recv_def split: option.splits result.splits prod.splits)
    then have "threads w' = threads w @ [ServeQuic c b]"
      using t [of c b] spawn_appends unfolding keeps_def by metis
    then show "\<exists>ts. threads w' = threads w @ ts \<and> (if is_ok r then map task_label ts = [''quic'']
        else ts = [] \<or> ''quic'' = ''quic'' \<and> map task_label ts = [''quic''])" by simp
  qed
  have e: "launches ''quic'' (io_lift (err_other m))" for m
    by (simp add: launches_def)
  show ?thesis
    unfolding start_quic_ok_def Let_def
    by (rule launches_bind [OF keeps_ops(5)], split list.split, intro conjI allI impI e)
      (intro launches_bind launches_map keeps_cert keeps_other s)
qed

lemma start_each_launches:
  assumes "list_all (\<lambda>(l, f). launches l f) fs" and "start_each fs w = Some (res, w')"
  shows "\<exists>k extra. k \<le> length fs \<and> map task_label (threads w') = map task_label (threads w) @ take k (map fst fs) @ extra \<and>
    (case res of Ok (Inr addrs) \<Rightarrow> k = length fs \<and> length addrs = k \<and> extra = []
     | Ok (Inl l) \<Rightarrow> k < length fs \<and> l = map fst fs ! k \<and> (extra = [] \<or> l = ''quic'' \<and> extra = [l])
     | Err _ \<Rightarrow> False | Panic _ \<Rightarrow> k < length fs \<and> (extra = [] \<or> map fst fs ! k = ''quic'' \<and> extra = [''quic'']))"
  using assms
proof (induction fs arbitrary: w res)
  case (Cons x fs)
  obtain l f where x: "x = (l, f)" by fastforce
  obtain r w1 where f: "f w = Some (r, w1)"
    using Cons.prems(2) by (cases "f w") (auto simp: x start_or_die_def io_catch_def io_bind_def)
  obtain ts where ts: "threads w1 = threads w @ ts"
      "if is_ok r then map task_label ts = [l] else ts = [] \<or> l = ''quic'' \<and> map task_label ts = [l]"
    using Cons.prems(1) f unfolding x launches_def by fastforce
  show ?case
  proof (cases r)
    case (Ok a)
    obtain res' where rest: "start_each fs w1 = Some (res', w')"
        "res = (case res' of Ok (Inr as) \<Rightarrow> Ok (Inr (a # as)) | y \<Rightarrow> y)"
      using Cons.prems(2) by (auto simp: x start_or_die_def io_catch_def io_bind_def f Ok split: Option.bind_splits result.splits sum.splits)
    obtain k extra where k: "k \<le> length fs" "map task_label (threads w') = map task_label (threads w1) @ take k (map fst fs) @ extra"
        "case res' of Ok (Inr addrs) \<Rightarrow> k = length fs \<and> length addrs = k \<and> extra = []
         | Ok (Inl l) \<Rightarrow> k < length fs \<and> l = map fst fs ! k \<and> (extra = [] \<or> l = ''quic'' \<and> extra = [l])
         | Err _ \<Rightarrow> False | Panic _ \<Rightarrow> k < length fs \<and> (extra = [] \<or> map fst fs ! k = ''quic'' \<and> extra = [''quic''])"
      using Cons.IH [OF _ rest(1)] Cons.prems(1) by auto
    show ?thesis
      using k ts Ok rest(2) by (intro exI [of _ "Suc k"] exI [of _ extra]) (auto simp: x split: result.splits sum.splits)
  next
    case (Err e)
    then show ?thesis
      using Cons.prems(2) ts by (intro exI [of _ 0] exI [of _ "map task_label ts"]) (auto simp: x start_or_die_def io_catch_def io_bind_def f)
  next
    case (Panic m)
    then show ?thesis
      using Cons.prems(2) ts by (intro exI [of _ 0] exI [of _ "map task_label ts"]) (auto simp: x start_or_die_def io_catch_def io_bind_def f)
  qed
qed simp

lemma services_launch: "list_all (\<lambda>(l, f). launches l f) (services os args)"
  unfolding services_def Let_def
  by (simp add: start_tcp_echo_def start_udp_echo_thread_def start_http_ok_def start_ws_ok_def start_dns_thread_def start_mqtt_ok_def
      start_grpc_ok_def start_hls_ok_def start_ntp_thread_def start_stun_thread_def start_turn_thread_def start_rtsp_ok_def
      start_rtmp_ok_def serve_on_launches launches_map start_quic_launches)

end

section \<open>A concrete operating system\<close>

text \<open>The world is the list of serving threads; the addresses \<open>used\<close> are taken.\<close>

definition lab_listen :: "string list \<Rightarrow> string \<Rightarrow> ('w, string) io" where
  "lab_listen used a = (if a \<in> set used then io_err (IoError Other ''address in use'') else io_ok a)"

definition lab_os :: "string list \<Rightarrow> ((string, unit, unit) task list, string, unit, unit, unit, unit, unit, unit, unit) os" where
  "lab_os used = \<lparr>tcp_listen = lab_listen used, udp_listen = lab_listen used, listener_addr = \<lambda>_. io_ok (SockV4 0 0),
     set_nonblocking = \<lambda>_. io_ok (), to_socket_addrs = \<lambda>_. io_ok [SockV4 0 0], thread_spawn = \<lambda>t w. w @ [t],
     self_signed = \<lambda>_ w. (Inr (), w), cert_der = \<lambda>_. [], key_der = \<lambda>_. [], cert_pem = \<lambda>_. [], key_pem = \<lambda>_. [],
     server_builder = \<lambda>_. Inr (), with_single_cert = \<lambda>_ _ _. Inr (), add_root = \<lambda>_. Inr (), client_builder = \<lambda>_. Inr (),
     with_root_certificates = \<lambda>_ _. (), set_server_alpn = \<lambda>_ c. c, quic_server_config = \<lambda>_. Inr (),
     quic_runtime = io_ok (), quic_endpoint_server = \<lambda>_ _. io_ok ''quic''\<rparr>"

interpretation lab_threads: os_threads "lab_os used" "\<lambda>w. w" for used
  by unfold_locales (auto simp: lab_os_def lab_listen_def split: if_splits)

lemma lab_serve:
  "tcp_listen (lab_os used) = lab_listen used" "udp_listen (lab_os used) = lab_listen used"
  "serve_on (lab_os used) (lab_listen used a) task w =
     (if a \<in> set used then Some (Err (IoError Other ''address in use''), w) else Some (Ok (SockV4 0 0), w @ [task a]))"
  by (simp_all add: serve_on_def lab_os_def lab_listen_def)

lemma start_each_steps:
  "f w = Some (Ok a, w1) \<Longrightarrow> start_each fs w1 = Some (Ok (Inl m), w2) \<Longrightarrow> start_each ((l, f) # fs) w = Some (Ok (Inl m), w2)"
  "f w = Some (Err e, w1) \<Longrightarrow> start_each ((l, f) # fs) w = Some (Ok (Inl l), w1)"
  by (simp_all add: start_or_die_def io_catch_def io_bind_def)

section \<open>Properties\<close>

definition service_labels :: "string list" where
  "service_labels = [''tcp'', ''udp'', ''http'', ''ws'', ''dns'', ''mqtt'', ''grpc'', ''hls'', ''ntp'', ''stun'', ''turn'', ''rtsp'', ''rtmp'', ''quic'']"

lemma services_labels: "map fst (services os args) = service_labels"
  by (simp add: services_def service_labels_def Let_def)

text \<open>
  C29. Starting the test servers. The servers are started in order, one serving thread each. When every
  one starts, fourteen addresses are printed; otherwise the program exits at the first that does not,
  naming it, and no server after it has a thread. Neither has the one named, unless it is the QUIC server,
  whose thread is started before its runtime and endpoint are set up and returns when that fails.
\<close>

theorem testserver_starts_in_order:
  assumes "os_threads os threads" and "testserver_main os args w = Some (res, w')"
  shows "\<exists>k\<le>14. \<exists>extra. map task_label (threads w') = map task_label (threads w) @ take k service_labels @ extra \<and>
    (case res of Ok (Inr addrs) \<Rightarrow> k = 14 \<and> length addrs = 14 \<and> extra = []
     | Ok (Inl l) \<Rightarrow> k < 14 \<and> l = service_labels ! k \<and> (extra = [] \<or> l = ''quic'' \<and> extra = [''quic''])
     | Err _ \<Rightarrow> False | Panic _ \<Rightarrow> k < 14 \<and> (extra = [] \<or> k = 13 \<and> extra = [''quic'']))"
proof -
  have n: "length (services os args) = 14" by (simp add: services_def Let_def)
  obtain k extra where k: "k \<le> 14" "map task_label (threads w') = map task_label (threads w) @ take k service_labels @ extra"
      "case res of Ok (Inr addrs) \<Rightarrow> k = 14 \<and> length addrs = k \<and> extra = []
       | Ok (Inl l) \<Rightarrow> k < 14 \<and> l = service_labels ! k \<and> (extra = [] \<or> l = ''quic'' \<and> extra = [l])
       | Err _ \<Rightarrow> False | Panic _ \<Rightarrow> k < 14 \<and> (extra = [] \<or> service_labels ! k = ''quic'' \<and> extra = [''quic''])"
    using os_threads.start_each_launches [OF assms(1) os_threads.services_launch [OF assms(1)] assms(2) [unfolded testserver_main_def]]
    unfolding n services_labels by blast
  have "k = 13" if "k < 14" "service_labels ! k = ''quic''" for k
    using that by (simp add: service_labels_def nth_Cons' split: if_splits)
  then show ?thesis using k by (intro exI [of _ k] conjI exI [of _ extra]) (auto split: result.splits sum.splits)
qed

lemma testserver_starts_in_order_witness:
  "\<exists>w'. testserver_main (lab_os [''0.0.0.0:18005'']) default_args [] = Some (Ok (Inl ''mqtt''), w') \<and>
    map task_label w' = [''tcp'', ''udp'', ''http'', ''ws'', ''dns'']"
proof -
  let ?os = "lab_os [''0.0.0.0:18005'']"
  have ports: "dec (unat (18000 :: u16)) = ''18000''" "dec (unat (18001 :: u16)) = ''18001''" "dec (unat (18002 :: u16)) = ''18002''"
      "dec (unat (18003 :: u16)) = ''18003''" "dec (unat (18004 :: u16)) = ''18004''" "dec (unat (18005 :: u16)) = ''18005''"
    by (simp_all add: dec.simps digit_char_def)
  have "testserver_main ?os default_args [] = Some (Ok (Inl ''mqtt''),
      [ServeTcpEcho ''0.0.0.0:18000'', ServeUdpEcho ''0.0.0.0:18001'', ServeHttp ''0.0.0.0:18002'',
       ServeWs ''0.0.0.0:18003'', ServeDns ''0.0.0.0:18004''])"
    unfolding testserver_main_def services_def Let_def default_args_def Args.simps ports append.simps start_tcp_echo_def start_udp_echo_thread_def
      start_http_ok_def start_ws_ok_def start_dns_thread_def start_mqtt_ok_def lab_serve(1,2)
    by (intro start_each_steps; subst lab_serve; simp)
  then obtain w' where w': "testserver_main ?os default_args [] = Some (Ok (Inl ''mqtt''), w')" by blast
  obtain k extra where k: "k < 14" "service_labels ! k = ''mqtt''" "map task_label w' = take k service_labels @ extra" "extra = []"
    using testserver_starts_in_order [OF lab_threads.os_threads_axioms w'] by auto
  then have "k = 5"
    by (simp add: service_labels_def nth_Cons' split: if_splits)
  then show ?thesis using w' k(3,4) by (simp add: service_labels_def)
qed

end
