(* ===== verification/Threads.thy ===== *)
theory Threads
  imports Startup HlsServer StreamServers
begin

text \<open>
  What the threads of the test servers do from their first instruction on: the accept loops of the TCP
  servers, the gRPC servers up to the call that serves, the QUIC server's loop; and the text the program prints.
\<close>

section \<open>Definitions\<close>

subsection \<open>TCP\<close>

text \<open>
  \<open>for stream in listener.incoming().flatten() { thread::spawn(move || conn(stream)) }\<close> over the outcomes
  \<open>incoming()\<close> has yielded so far: the connection threads, in the order they are started. The loop never ends.
\<close>

fun accept_loop :: "('h \<Rightarrow> 't) \<Rightarrow> (io_error + 'h) list \<Rightarrow> 't list" where
  "accept_loop conn [] = []"
| "accept_loop conn (Inl e # rest) = accept_loop conn rest"
| "accept_loop conn (Inr stream # rest) = conn stream # accept_loop conn rest"

text \<open>
  The loops of the TCP servers. \<open>tls_accept\<close> is \<open>ServerConnection::new\<close> with the server's configuration and the
  stream over it; each connection gets a clone of the configuration.
\<close>

definition tcp_echo_threads where "tcp_echo_threads io = accept_loop (tcp_echo_conn io)"
definition http_threads where "http_threads io = accept_loop (http_ok_conn io)"
definition https_threads where "https_threads tls_accept cfg io = accept_loop (https_ok_conn (tls_accept cfg) io)"
definition hls_threads where "hls_threads io = accept_loop (handle_hls io)"
definition ws_threads where "ws_threads ws = accept_loop (ws_ok_conn ws)"
definition wss_threads where "wss_threads tls_accept cfg ws = accept_loop (wss_ok_conn (tls_accept cfg) ws)"
definition mqtt_threads where "mqtt_threads io = accept_loop (handle_mqtt_session io)"
definition mqtts_threads where "mqtts_threads tls_accept cfg io = accept_loop (mqtts_conn (tls_accept cfg) io)"
definition rtsp_threads where "rtsp_threads io = accept_loop (rtsp_ok_conn io)"
definition rtmp_threads where "rtmp_threads io = accept_loop (rtmp_ok_conn io)"

text \<open>The connection threads a serving thread has started.\<close>

fun connection_threads ::
  "('w, 'h, 'z) stream_io_scheme \<Rightarrow> ('w, 'h, 's) ws_server \<Rightarrow> ('sc \<Rightarrow> 'h \<Rightarrow> string + 'h) \<Rightarrow> ('l, 'sc, 'qc) task \<Rightarrow>
   (io_error + 'h) list \<Rightarrow> ('w, unit) io list option" where
  "connection_threads io ws tls_accept (ServeTcpEcho _) arrivals = Some (tcp_echo_threads io arrivals)"
| "connection_threads io ws tls_accept (ServeHttp _) arrivals = Some (http_threads io arrivals)"
| "connection_threads io ws tls_accept (ServeHttps _ cfg) arrivals = Some (https_threads tls_accept cfg io arrivals)"
| "connection_threads io ws tls_accept (ServeHls _) arrivals = Some (hls_threads io arrivals)"
| "connection_threads io ws tls_accept (ServeWs _) arrivals = Some (ws_threads ws arrivals)"
| "connection_threads io ws tls_accept (ServeWss _ cfg) arrivals = Some (wss_threads tls_accept cfg ws arrivals)"
| "connection_threads io ws tls_accept (ServeMqtt _) arrivals = Some (mqtt_threads io arrivals)"
| "connection_threads io ws tls_accept (ServeMqtts _ cfg) arrivals = Some (mqtts_threads tls_accept cfg io arrivals)"
| "connection_threads io ws tls_accept (ServeRtsp _) arrivals = Some (rtsp_threads io arrivals)"
| "connection_threads io ws tls_accept (ServeRtmp _) arrivals = Some (rtmp_threads io arrivals)"
| "connection_threads io ws tls_accept _ arrivals = None"

subsection \<open>gRPC\<close>

datatype serving_status = Unknown | Serving | NotServing

text \<open>
  tokio, tonic and tonic-health as the two threads call them. \<open>'tl\<close> is a tokio listener, \<open>'rep\<close> and \<open>'svc\<close> the health
  reporter and its service, \<open>'t\<close> a \<open>ServerTlsConfig\<close>, \<open>'srv\<close> a server. \<open>Err\<close> is an \<open>io::Error\<close> as \<open>expect\<close> sees it.
\<close>

record ('w, 'l, 'tl, 'rep, 'svc, 't, 'srv) tonic_server =
  ts_runtime :: "('w, unit) io"
  ts_from_std :: "'l \<Rightarrow> ('w, 'tl) io"
  ts_health_reporter :: "'w \<Rightarrow> ('rep \<times> 'svc) \<times> 'w"
  ts_set_service_status :: "'rep \<Rightarrow> string \<Rightarrow> serving_status \<Rightarrow> 'w \<Rightarrow> 'w"
  ts_identity :: "bytes \<Rightarrow> bytes \<Rightarrow> 't"
  ts_builder :: 'srv
  ts_tls_config :: "'t \<Rightarrow> 'srv \<Rightarrow> string + 'srv"
  ts_serve :: "'srv \<Rightarrow> 'svc \<Rightarrow> 'tl \<Rightarrow> ('w, unit) io"

text \<open>\<open>expect\<close>: an error is a panic of the thread.\<close>

definition expect :: "string \<Rightarrow> ('w, 'a) io \<Rightarrow> ('w, 'a) io" where
  "expect msg m = io_catch m io_ok (\<lambda>_. io_lift (Panic msg))"

definition grpc_set_up :: "('w, 'l, 'tl, 'rep, 'svc, 't, 'srv) tonic_server \<Rightarrow> 'l \<Rightarrow> ('w, 'tl \<times> 'svc) io" where
  "grpc_set_up ts std_listener =
     io_bind (expect ''tokio runtime'' (ts_runtime ts)) (\<lambda>_.
     io_bind (expect ''from_std listener'' (ts_from_std ts std_listener)) (\<lambda>listener w.
       case ts_health_reporter ts w of
         ((reporter, service), w') \<Rightarrow> Some (Ok (listener, service), ts_set_service_status ts reporter '''' Serving w')))"

definition grpc_thread :: "('w, 'l, 'tl, 'rep, 'svc, 't, 'srv) tonic_server \<Rightarrow> 'l \<Rightarrow> ('w, unit) io" where
  "grpc_thread ts std_listener =
     io_bind (grpc_set_up ts std_listener) (\<lambda>(listener, service).
       ignore (ts_serve ts (ts_builder ts) service listener))"

definition grpcs_thread :: "('w, 'l, 'tl, 'rep, 'svc, 't, 'srv) tonic_server \<Rightarrow> 'l \<Rightarrow> bytes \<Rightarrow> bytes \<Rightarrow> ('w, unit) io" where
  "grpcs_thread ts std_listener cert key =
     (let identity = ts_identity ts cert key
      in io_bind (grpc_set_up ts std_listener) (\<lambda>(listener, service).
           case ts_tls_config ts identity (ts_builder ts) of
             Inl e \<Rightarrow> io_lift (Panic ''server tls_config'')
           | Inr server \<Rightarrow> ignore (ts_serve ts server service listener)))"

subsection \<open>QUIC\<close>

text \<open>
  The loop over what \<open>endpoint.accept()\<close> yields until it yields \<open>None\<close>; each is awaited in a task of its own. An
  \<open>Inr\<close> is a completed handshake. The result is the calls of \<open>close\<close>: connection, code and reason.
\<close>

definition quic_accepts :: "(string + 'n) list \<Rightarrow> ('n \<times> nat \<times> bytes) list" where
  "quic_accepts incoming =
     concat (map (\<lambda>i. case i of Inl _ \<Rightarrow> [] | Inr connection \<Rightarrow> [(connection, 0, bytes_of ''hello-and-goodbye'')]) incoming)"

subsection \<open>The text printed\<close>

text \<open>\<open>SocketAddr::port\<close>, and the lines \<open>main\<close> prints for the fourteen addresses. \<open>show\<close> is their \<open>Display\<close>.\<close>

fun addr_port :: "socket_addr \<Rightarrow> u16" where
  "addr_port (SockV4 _ p) = p"
| "addr_port (SockV6 _ p) = p"

definition listening_line :: "(socket_addr \<Rightarrow> string) \<Rightarrow> string \<times> socket_addr \<Rightarrow> string" where
  "listening_line show_addr = (\<lambda>(tag, a). tag @ '' listening on '' @ show_addr a)"

definition testserver_banner :: "(socket_addr \<Rightarrow> string) \<Rightarrow> socket_addr list \<Rightarrow> string list" where
  "testserver_banner show_addr addrs =
     (let port = (\<lambda>i. dec (unat (addr_port (addrs ! i))))
      in map (listening_line show_addr) (zip
           [''[tcp] '', ''[udp] '', ''[http]'', ''[ws]  '', ''[dns] '', ''[mqtt]'', ''[grpc]'', ''[hls] '', ''[ntp] '', ''[stun]'',
            ''[turn]'', ''[rtsp]'', ''[rtmp]''] (take 13 addrs)) @
         [listening_line show_addr (''[quic]'', addrs ! 13) @ '' (self-signed cert; pinger needs --tls override or skip-verify)'',
          [],
          ''Try in another terminal:'',
          ''  knockknock tcp localhost:'' @ port 0,
          ''  knockknock udp localhost:'' @ port 1,
          ''  knockknock http get localhost:'' @ port 2 @ ''/anything'',
          ''  knockknock ws ws://localhost:'' @ port 3 @ ''/'',
          ''  knockknock dns 127.0.0.1:'' @ port 4 @ '' -q example.com'',
          ''  knockknock mqtt mqtt://localhost:'' @ port 5,
          ''  knockknock grpc grpc://localhost:'' @ port 6,
          ''  knockknock hls http://localhost:'' @ port 7 @ ''/playlist.m3u8'',
          ''  knockknock grpc grpc://localhost:'' @ port 6 @ '' --watch'',
          ''  knockknock ntp localhost:'' @ port 8,
          ''  knockknock stun localhost:'' @ port 9,
          ''  knockknock turn localhost:'' @ port 10,
          ''  knockknock rtsp rtsp://localhost:'' @ port 11,
          ''  knockknock rtmp rtmp://localhost:'' @ port 12,
          ''  # quic uses a self-signed cert '' @ em_dash @ '' pinger will hit a trust error against the public webpki roots.'',
          ''  # see the QUIC section of the README for the integration-test path that injects a custom ClientConfig.'',
          ''  knockknock quic localhost:'' @ port 13,
          [],
          ''Press Ctrl+C to stop.''])"

section \<open>Facts\<close>

lemma accept_loop_append: "accept_loop conn (as @ bs) = accept_loop conn as @ accept_loop conn bs"
  by (induction conn as rule: accept_loop.induct) simp_all

lemma accept_loop_map: "accept_loop conn as = map conn (accept_loop (\<lambda>h. h) as)"
  by (induction conn as rule: accept_loop.induct) simp_all

text \<open>Every server of \<open>main\<close> that listens on TCP, but the gRPC one, has its connection threads here.\<close>

lemma connection_threads_defined:
  "connection_threads io ws tls_accept t as \<noteq> None \<longleftrightarrow>
     task_label t \<in> {''tcp'', ''http'', ''https'', ''hls'', ''ws'', ''wss'', ''mqtt'', ''mqtts'', ''rtsp'', ''rtmp''}"
  by (cases t) simp_all

end
