(* ===== verification/GrpcServer.thy ===== *)
theory GrpcServer
  imports Grpc Threads
begin

text \<open>
  The gRPC pings against the gRPC test servers (\<open>start_grpc_ok\<close>, \<open>start_grpcs_ok\<close> of \<open>testserver/src/lib.rs\<close>). tonic
  and tonic-health are parameters on both sides; what joins them is the health checking protocol.
\<close>

section \<open>The health checking protocol\<close>

text \<open>The numbers of \<open>HealthCheckResponse.ServingStatus\<close>.\<close>

fun status_code :: "serving_status \<Rightarrow> int" where
  "status_code Unknown = 0"
| "status_code Serving = 1"
| "status_code NotServing = 2"

text \<open>
  \<open>statuses\<close> is what the server's health service holds. A new reporter holds the overall service \<open>''''\<close> at most. \<open>Check\<close>
  answers the status of a service it holds and an error for another; \<open>Watch\<close> sends the status at once, and for
  a service that is not held fails, or sends a status that is not SERVING, or closes.
\<close>

locale health_protocol =
  fixes t :: "('w, 'ep, 'tc, 'ch, 'st) tonic" and ts :: "('w, 'l, 'tl, 'rep, 'svc, 'ts, 'srv) tonic_server"
    and statuses :: "'w \<Rightarrow> string \<Rightarrow> serving_status option"
  assumes new_reporter: "ts_health_reporter ts w = (rs, w') \<Longrightarrow> s \<noteq> '''' \<Longrightarrow> statuses w' s = None"
    and set_status: "statuses (ts_set_service_status ts rep s st w) = (statuses w)(s \<mapsto> st)"
    and check_held: "statuses w s = Some st \<Longrightarrow> \<exists>w'. health_check t ch s w = Some (Inr (status_code st), w')"
    and check_other: "statuses w s = None \<Longrightarrow> \<exists>e w'. health_check t ch s w = Some (Inl e, w')"
    and watch_held: "statuses w s = Some st \<Longrightarrow> \<exists>stream w' w''. health_watch t ch s w = Some (Inr stream, w') \<and>
      watch_message t stream w' = Some (Inr (Some (status_code st)), w'')"
    and watch_other: "statuses w s = None \<Longrightarrow> (\<exists>e w'. health_watch t ch s w = Some (Inl e, w')) \<or>
      (\<exists>stream w' r w''. health_watch t ch s w = Some (Inr stream, w') \<and> watch_message t stream w' = Some (r, w'') \<and> r \<noteq> Inr (Some 1))"

context health_protocol
begin

text \<open>After the set-up of a server thread the overall service is served, and no other is held.\<close>

lemma set_up_statuses:
  assumes "grpc_set_up ts listener w = Some (Ok x, w')"
  shows "statuses w' s = (if s = '''' then Some Serving else None)"
proof -
  obtain tl w1 where "(case ts_health_reporter ts w1 of
      ((reporter, service), w') \<Rightarrow> Some (Ok (tl, service), ts_set_service_status ts reporter '''' Serving w')) = Some (Ok x, w')"
    using assms unfolding grpc_set_up_def io_bind_Ok_iff by blast
  then obtain rep svc w2 where "ts_health_reporter ts w1 = ((rep, svc), w2)" "w' = ts_set_service_status ts rep '''' Serving w2"
    by (auto split: prod.splits)
  then show ?thesis using new_reporter [of w1 "(rep, svc)" w2 s] by (simp add: set_status)
qed

lemma check_ping:
  assumes "grpc_channel rx t (grpc_endpoint p) (grpc_timeout p) (grpc_ca_cert_pem p) w = Some (r, w1)"
  shows "\<exists>r' w'. grpc_ping rx t p w = Some (r', w') \<and> (is_ok r' \<longleftrightarrow> is_ok r \<and> statuses w1 (grpc_service p) = Some Serving)"
proof (cases r)
  case (Ok ch)
  show ?thesis
  proof (cases "statuses w1 (grpc_service p)")
    case None
    then show ?thesis
      using check_other [OF None, of ch] assms Ok by (auto simp: grpc_ping_def io_bind_def await_map_err_def map_err_def)
  next
    case (Some st)
    then show ?thesis
      using check_held [OF Some, of ch] assms Ok
      by (cases st) (auto simp: grpc_ping_def io_bind_def await_map_err_def map_err_def)
  qed
qed (use assms in \<open>simp_all add: grpc_ping_def io_bind_def\<close>)

lemma watch_ping:
  assumes "grpc_channel rx t (gs_endpoint p) (gs_timeout p) (gs_ca_cert_pem p) w = Some (r, w1)"
  shows "\<exists>r' w'. grpc_stream_ping rx t p w = Some (r', w') \<and> (is_ok r' \<longleftrightarrow> is_ok r \<and> statuses w1 (gs_service p) = Some Serving)"
proof (cases r)
  case (Ok ch)
  show ?thesis
  proof (cases "statuses w1 (gs_service p)")
    case None
    then show ?thesis
      using watch_other [OF None, of ch] assms Ok
      by (auto simp: grpc_stream_ping_def io_bind_def await_map_err_def map_err_def split: sum.splits option.splits)
  next
    case (Some st)
    then show ?thesis
      using watch_held [OF Some, of ch] assms Ok
      by (cases st) (auto simp: grpc_stream_ping_def io_bind_def await_map_err_def map_err_def)
  qed
qed (use assms in \<open>simp_all add: grpc_stream_ping_def io_bind_def\<close>)

end

section \<open>A concrete pair\<close>

text \<open>The world is the server's table; connecting always works and the client's calls look the table up.\<close>

type_synonym status_table = "(string \<times> serving_status) list"

definition table_client :: "(status_table, string, unit, unit, int option) tonic" where
  "table_client = \<lparr>from_shared = Inr, ep_timeout = \<lambda>_ e. e, ep_connect_timeout = \<lambda>_ e. e, client_tls_new = (),
     with_webpki_roots = \<lambda>c. c, ca_certificate = \<lambda>_ c. c, domain_name = \<lambda>_ c. c, ep_tls_config = \<lambda>_ e. Inr e,
     ep_connect = \<lambda>_ w. Some (Inr (), w),
     health_check = \<lambda>_ s w. Some (case map_of w s of None \<Rightarrow> Inl ''unknown service'' | Some st \<Rightarrow> Inr (status_code st), w),
     health_watch = \<lambda>_ s w. Some (case map_of w s of None \<Rightarrow> Inl ''unknown service'' | Some st \<Rightarrow> Inr (Some (status_code st)), w),
     watch_message = \<lambda>m w. Some (Inr m, w)\<rparr>"

definition table_server :: "(status_table, unit, unit, unit, unit, unit, unit) tonic_server" where
  "table_server = \<lparr>ts_runtime = io_ok (), ts_from_std = \<lambda>_. io_ok (), ts_health_reporter = \<lambda>w. (((), ()), []),
     ts_set_service_status = \<lambda>_ s st w. (s, st) # w, ts_identity = \<lambda>_ _. (), ts_builder = (), ts_tls_config = \<lambda>_ _. Inr (),
     ts_serve = \<lambda>_ _ _. io_ok ()\<rparr>"

interpretation table: health_protocol table_client table_server "\<lambda>w. map_of w"
  by unfold_locales (auto simp: table_client_def table_server_def)

section \<open>Properties\<close>

text \<open>
  C24. The gRPC pings and the gRPC test servers. Once the thread of a server, plain or TLS, has set up its health
  service, a Check ping and a Watch ping over a connection to it both return; each succeeds exactly when its
  connection stands and it asks for the overall service: the service name does reach the server.
\<close>

theorem grpc_pings_meet_server:
  assumes "health_protocol t ts statuses" and "grpc_set_up ts listener w0 = Some (Ok x, w1)"
    and "grpc_channel rx t (grpc_endpoint p) (grpc_timeout p) (grpc_ca_cert_pem p) w = Some (r, v)" and "statuses v = statuses w1"
    and "grpc_channel rx t (gs_endpoint q) (gs_timeout q) (gs_ca_cert_pem q) w' = Some (r', v')" and "statuses v' = statuses w1"
  shows "(\<exists>s u. grpc_ping rx t p w = Some (s, u) \<and> (is_ok s \<longleftrightarrow> is_ok r \<and> grpc_service p = '''')) \<and>
    (\<exists>s u. grpc_stream_ping rx t q w' = Some (s, u) \<and> (is_ok s \<longleftrightarrow> is_ok r' \<and> gs_service q = ''''))"
  using health_protocol.check_ping [OF assms(1,3)] health_protocol.watch_ping [OF assms(1,5)]
    health_protocol.set_up_statuses [OF assms(1,2)] by (simp add: assms(4,6) split: if_splits)

lemma grpc_pings_meet_server_witness:
  "(\<exists>s u. grpc_ping first_match table_client (GrpcPinger_new ''srv:5300'') [('''', Serving)] = Some (s, u) \<and> is_ok s) \<and>
   (\<exists>s u. grpc_stream_ping first_match table_client (GrpcStreamPinger_with_service (GrpcStreamPinger_new ''srv:5300'') ''svc'')
      [('''', Serving)] = Some (s, u) \<and> \<not> is_ok s)"
proof -
  let ?p = "GrpcPinger_new ''srv:5300''" and ?q = "GrpcStreamPinger_with_service (GrpcStreamPinger_new ''srv:5300'') ''svc''"
  have t: "trim ''srv:5300'' = ''srv:5300''" by (rule trim_id) (simp_all add: graphic_def)
  have c: "grpc_channel first_match table_client ''srv:5300'' d ca w = Some (Ok (), w)" for d ca w
    by (simp add: grpc_channel_def normalize_endpoint_def t strip_prefix_def map_err_def await_map_err_def
        table_client_def is_tls_def Let_def)
  have s: "grpc_set_up table_server () [] = Some (Ok ((), ()), [('''', Serving)])"
    by (simp add: grpc_set_up_def table_server_def expect_def io_bind_def io_catch_def)
  have "grpc_channel first_match table_client (grpc_endpoint ?p) (grpc_timeout ?p) (grpc_ca_cert_pem ?p) [('''', Serving)] = Some (Ok (), [('''', Serving)])"
    "grpc_channel first_match table_client (gs_endpoint ?q) (gs_timeout ?q) (gs_ca_cert_pem ?q) [('''', Serving)] = Some (Ok (), [('''', Serving)])"
    by (simp_all add: c GrpcPinger_new_def GrpcStreamPinger_new_def GrpcStreamPinger_with_service_def)
  from grpc_pings_meet_server [OF table.health_protocol_axioms s this(1) refl this(2) refl]
  show ?thesis by (simp add: GrpcPinger_new_def GrpcStreamPinger_new_def GrpcStreamPinger_with_service_def)
qed

end
