(* ===== verification/TlsConfig.thy ===== *)
theory TlsConfig
  imports Env
begin

text \<open>
  \<open>zpinger/src/tls.rs\<close>: the process-wide default \<open>ClientConfig\<close>, built on first use.
\<close>

section \<open>Definitions\<close>

text \<open>
  rustls and webpki-roots: \<open>'r\<close> is a root store, \<open>'a\<close> a trust anchor, \<open>'b\<close> a builder once the protocol versions
  are chosen, \<open>'c\<close> a \<open>ClientConfig\<close>. The error is the text \<open>expect\<close> would show.
\<close>

record ('r, 'a, 'b, 'c) rustls =
  empty_roots :: 'r
  extend_roots :: "'r \<Rightarrow> 'a list \<Rightarrow> 'r"
  webpki_roots :: "'a list"
  safe_default_versions :: "string + 'b"
  with_roots :: "'r \<Rightarrow> 'b \<Rightarrow> 'c"

definition build_default_config :: "('r, 'a, 'b, 'c) rustls \<Rightarrow> 'c result" where
  "build_default_config r =
     (let roots = extend_roots r (empty_roots r) (webpki_roots r)
      in case safe_default_versions r of
           Inl e \<Rightarrow> Panic (''ring provider supports default protocol versions: '' @ e)
         | Inr builder \<Rightarrow> Ok (with_roots r roots builder))"

text \<open>
  \<open>DEFAULT_CLIENT_CONFIG.get_or_init(..).clone()\<close>. The cell is a state; \<open>None\<close> is not initialized, which
  a panic of the closure leaves it. Concurrent callers are serialized by the cell.
\<close>

definition default_client_config_call :: "('r, 'a, 'b, 'c) rustls \<Rightarrow> 'c option \<Rightarrow> 'c result \<times> 'c option" where
  "default_client_config_call r cell =
     (case cell of
        Some config \<Rightarrow> (Ok config, Some config)
      | None \<Rightarrow>
          (case build_default_config r of
             Ok config \<Rightarrow> (Ok config, Some config)
           | Err e \<Rightarrow> (Err e, None)
           | Panic m \<Rightarrow> (Panic m, None)))"

text \<open>The results of so many calls, from a fresh process.\<close>

fun config_calls :: "('r, 'a, 'b, 'c) rustls \<Rightarrow> nat \<Rightarrow> 'c option \<Rightarrow> 'c result list" where
  "config_calls r 0 cell = []"
| "config_calls r (Suc n) cell = (case default_client_config_call r cell of (res, cell') \<Rightarrow> res # config_calls r n cell')"

section \<open>The default configuration is a constant\<close>

definition cell_ok :: "('r, 'a, 'b, 'c) rustls \<Rightarrow> 'c option \<Rightarrow> bool" where
  "cell_ok r cell = (\<forall>config. cell = Some config \<longrightarrow> build_default_config r = Ok config)"

lemma default_client_config_call_ok:
  assumes "cell_ok r cell"
  shows "fst (default_client_config_call r cell) = build_default_config r" and "cell_ok r (snd (default_client_config_call r cell))"
  using assms by (auto simp: cell_ok_def default_client_config_call_def split: option.splits result.splits)

text \<open>Why a network has one \<open>default_client_config\<close>: every call returns what the first one does.\<close>

lemma config_calls_constant: "config_calls r n None = replicate n (build_default_config r)"
proof -
  have "config_calls r n cell = replicate n (build_default_config r)" if "cell_ok r cell" for cell
    using that
  proof (induction n arbitrary: cell)
    case (Suc n)
    then show ?case
      using default_client_config_call_ok [OF Suc.prems] by (simp add: case_prod_beta)
  qed simp
  then show ?thesis by (simp add: cell_ok_def)
qed

end
