(* ===== verification/Duplex.thy ===== *)
theory Duplex
  imports Env
begin

text \<open>
  Two programs talking over one connection, at the granularity of their blocking calls. A program is a
  machine: a state and, for each state, the next \<open>read_exact\<close> or \<open>write_all\<close> with what follows it.
  \<open>exec\<close> runs a machine against any stream, so that a machine can be proved equal to the code; \<open>duplex\<close> is
  the step relation of two machines joined by two byte channels, one step per call that completes,
  in any order the scheduler and the network choose.
\<close>

section \<open>Machines\<close>

datatype 's action =
    Receive nat "io_error + bytes \<Rightarrow> 's"
  | Transmit bytes "io_error + unit \<Rightarrow> 's"
  | Halt "unit result"

partial_function (option) exec :: "('s \<Rightarrow> 's action) \<Rightarrow> ('w, 'h, 'z) stream_io_scheme \<Rightarrow> 'h \<Rightarrow> 's \<Rightarrow> ('w, unit) io" where
  "exec \<delta> io h s w =
     (case \<delta> s of
        Receive n k \<Rightarrow> io_catch (st_read_exact io h n) (\<lambda>bs. exec \<delta> io h (k (Inr bs))) (\<lambda>e. exec \<delta> io h (k (Inl e))) w
      | Transmit bs k \<Rightarrow> io_catch (st_write_all io h bs) (\<lambda>_. exec \<delta> io h (k (Inr ()))) (\<lambda>e. exec \<delta> io h (k (Inl e))) w
      | Halt r \<Rightarrow> Some (r, w))"

lemma exec_Receive: "\<delta> s = Receive n k \<Longrightarrow>
    exec \<delta> io h s = io_catch (st_read_exact io h n) (\<lambda>bs. exec \<delta> io h (k (Inr bs))) (\<lambda>e. exec \<delta> io h (k (Inl e)))"
  by (rule ext) (simp add: exec.simps [of \<delta> io h s])

lemma exec_Transmit: "\<delta> s = Transmit bs k \<Longrightarrow>
    exec \<delta> io h s = io_catch (st_write_all io h bs) (\<lambda>_. exec \<delta> io h (k (Inr ()))) (\<lambda>e. exec \<delta> io h (k (Inl e)))"
  by (rule ext) (simp add: exec.simps [of \<delta> io h s])

lemma exec_Halt: "\<delta> s = Halt r \<Longrightarrow> exec \<delta> io h s = io_lift r"
  by (rule ext) (simp add: exec.simps [of \<delta> io h s])

lemma io_catch_bind: "io_catch (io_bind m f) g e = io_catch m (\<lambda>x. io_catch (f x) g e) e"
  by (rule ext) (auto simp: io_catch_def io_bind_def split: option.split result.split Option.bind_splits)

lemma io_bind_catch: "io_bind m f = io_catch m f io_err"
  by (rule ext) (auto simp: io_catch_def io_bind_def split: option.split result.split Option.bind_splits)

lemma io_catch_ok: "io_catch (io_ok x) g e = g x"
  by (rule ext) simp

lemma io_catch_err: "io_catch (io_err x) g e = e x"
  by (rule ext) simp

lemma io_catch_cong: "(\<And>x. f x = f' x) \<Longrightarrow> (\<And>e. g e = g' e) \<Longrightarrow> io_catch m f g = io_catch m f' g'"
  by presburger

lemma io_catch_Some_mono:
  assumes "io_catch m f g w = Some y" and "\<And>x w. f x w = Some y \<Longrightarrow> f' x w = Some y"
    and "\<And>e w. g e w = Some y \<Longrightarrow> g' e w = Some y"
  shows "io_catch m f' g' w = Some y"
  using assms by (auto simp: io_catch_def split: Option.bind_splits result.splits)

text \<open>A function on states that follows the actions does whatever a terminating run of the machine does.\<close>

lemma exec_least:
  assumes rest: "\<And>s. rest s = (case \<delta> s of
        Receive n k \<Rightarrow> io_catch (st_read_exact io h n) (\<lambda>bs. rest (k (Inr bs))) (\<lambda>e. rest (k (Inl e)))
      | Transmit bs k \<Rightarrow> io_catch (st_write_all io h bs) (\<lambda>_. rest (k (Inr ()))) (\<lambda>e. rest (k (Inl e)))
      | Halt r \<Rightarrow> io_lift r)"
    and "exec \<delta> io h s w = Some y"
  shows "rest s w = Some y"
proof -
  have "\<delta> = \<delta> \<longrightarrow> io = io \<longrightarrow> h = h \<longrightarrow> rest s w = Some y"
  proof (rule exec.raw_induct [of "\<lambda>\<delta>' io' h' s w y. \<delta>' = \<delta> \<longrightarrow> io' = io \<longrightarrow> h' = h \<longrightarrow> rest s w = Some y", OF _ assms(2)], intro impI)
    fix run \<delta>' io' h' s w y
    assume IH: "\<And>\<delta>' io' h' s w y. run \<delta>' io' h' s w = Some y \<Longrightarrow>
          \<delta>' = \<delta> \<longrightarrow> io' = io \<longrightarrow> h' = h \<longrightarrow> rest s w = Some y"
      and body: "(case \<delta>' s of
          Receive n k \<Rightarrow> io_catch (st_read_exact io' h' n) (\<lambda>bs. run \<delta>' io' h' (k (Inr bs))) (\<lambda>e. run \<delta>' io' h' (k (Inl e))) w
        | Transmit bs k \<Rightarrow> io_catch (st_write_all io' h' bs) (\<lambda>_. run \<delta>' io' h' (k (Inr ()))) (\<lambda>e. run \<delta>' io' h' (k (Inl e))) w
        | Halt r \<Rightarrow> Some (r, w)) = Some y"
      and eqs: "\<delta>' = \<delta>" "io' = io" "h' = h"
    have run: "run \<delta> io h s w = Some y \<Longrightarrow> rest s w = Some y" for s w y using IH eqs by blast
    show "rest s w = Some y"
    proof (cases "\<delta> s")
      case (Receive n k)
      have "io_catch (st_read_exact io h n) (\<lambda>bs. run \<delta> io h (k (Inr bs))) (\<lambda>e. run \<delta> io h (k (Inl e))) w = Some y"
        using body unfolding eqs Receive by simp
      then have "io_catch (st_read_exact io h n) (\<lambda>bs. rest (k (Inr bs))) (\<lambda>e. rest (k (Inl e))) w = Some y"
        by (rule io_catch_Some_mono) (rule run, assumption)+
      then show ?thesis by (subst rest) (simp add: Receive)
    next
      case (Transmit bs k)
      have "io_catch (st_write_all io h bs) (\<lambda>_. run \<delta> io h (k (Inr ()))) (\<lambda>e. run \<delta> io h (k (Inl e))) w = Some y"
        using body unfolding eqs Transmit by simp
      then have "io_catch (st_write_all io h bs) (\<lambda>_. rest (k (Inr ()))) (\<lambda>e. rest (k (Inl e))) w = Some y"
        by (rule io_catch_Some_mono) (rule run, assumption)+
      then show ?thesis by (subst rest) (simp add: Transmit)
    next
      case (Halt r)
      then show ?thesis using body unfolding eqs by (subst rest) simp
    qed
  qed
  then show ?thesis by simp
qed

section \<open>Two machines and two channels\<close>

text \<open>
  \<open>to_server\<close> and \<open>to_client\<close> are the bytes written and not yet read. A read completes when its bytes are
  there, or fails at the end of the stream, when the other side has returned (which drops its end) and too
  few are left; the bytes read so far are then lost. Writes complete: channels are not bounded, and a write
  to a side that has returned goes unread.
\<close>

record ('s, 't) duplex =
  client :: 's
  server :: 't
  to_server :: bytes
  to_client :: bytes

definition connected :: "'s \<Rightarrow> 't \<Rightarrow> ('s, 't) duplex" where
  "connected s t = \<lparr>client = s, server = t, to_server = [], to_client = []\<rparr>"

definition halted :: "('s \<Rightarrow> 's action) \<Rightarrow> 's \<Rightarrow> bool" where
  "halted \<delta> s = (case \<delta> s of Halt _ \<Rightarrow> True | _ \<Rightarrow> False)"

definition early_eof :: io_error where
  "early_eof = IoError UnexpectedEof ''early eof''"

inductive step :: "('s \<Rightarrow> 's action) \<Rightarrow> ('t \<Rightarrow> 't action) \<Rightarrow> ('s, 't) duplex \<Rightarrow> ('s, 't) duplex \<Rightarrow> bool" for \<delta> \<epsilon> where
  client_write: "\<delta> (client c) = Transmit bs k \<Longrightarrow> step \<delta> \<epsilon> c (c\<lparr>client := k (Inr ()), to_server := to_server c @ bs\<rparr>)"
| client_read: "\<delta> (client c) = Receive n k \<Longrightarrow> n \<le> length (to_client c) \<Longrightarrow>
    step \<delta> \<epsilon> c (c\<lparr>client := k (Inr (take n (to_client c))), to_client := drop n (to_client c)\<rparr>)"
| client_eof: "\<delta> (client c) = Receive n k \<Longrightarrow> length (to_client c) < n \<Longrightarrow> halted \<epsilon> (server c) \<Longrightarrow>
    step \<delta> \<epsilon> c (c\<lparr>client := k (Inl early_eof), to_client := []\<rparr>)"
| server_write: "\<epsilon> (server c) = Transmit bs l \<Longrightarrow> step \<delta> \<epsilon> c (c\<lparr>server := l (Inr ()), to_client := to_client c @ bs\<rparr>)"
| server_read: "\<epsilon> (server c) = Receive n l \<Longrightarrow> n \<le> length (to_server c) \<Longrightarrow>
    step \<delta> \<epsilon> c (c\<lparr>server := l (Inr (take n (to_server c))), to_server := drop n (to_server c)\<rparr>)"
| server_eof: "\<epsilon> (server c) = Receive n l \<Longrightarrow> length (to_server c) < n \<Longrightarrow> halted \<delta> (client c) \<Longrightarrow>
    step \<delta> \<epsilon> c (c\<lparr>server := l (Inl early_eof), to_server := []\<rparr>)"

inductive_cases step_cases: "step \<delta> \<epsilon> c d"

text \<open>A configuration in which both sides have returned has no step.\<close>

lemma both_halted: "halted \<delta> (client c) \<Longrightarrow> halted \<epsilon> (server c) \<Longrightarrow> \<not> step \<delta> \<epsilon> c d"
  by (auto simp: halted_def elim!: step_cases)

section \<open>The order of the steps does not matter\<close>

text \<open>
  The two sides only share the channels, each with one writer and one reader, so steps of different
  sides commute; a side has at most one step.
\<close>

definition client_move :: "('s \<Rightarrow> 's action) \<Rightarrow> ('t \<Rightarrow> 't action) \<Rightarrow> ('s, 't) duplex \<Rightarrow> ('s, 't) duplex option" where
  "client_move \<delta> \<epsilon> c =
     (case \<delta> (client c) of
        Transmit bs k \<Rightarrow> Some (c\<lparr>client := k (Inr ()), to_server := to_server c @ bs\<rparr>)
      | Receive n k \<Rightarrow>
          if n \<le> length (to_client c)
          then Some (c\<lparr>client := k (Inr (take n (to_client c))), to_client := drop n (to_client c)\<rparr>)
          else if halted \<epsilon> (server c) then Some (c\<lparr>client := k (Inl early_eof), to_client := []\<rparr>) else None
      | Halt r \<Rightarrow> None)"

definition server_move :: "('s \<Rightarrow> 's action) \<Rightarrow> ('t \<Rightarrow> 't action) \<Rightarrow> ('s, 't) duplex \<Rightarrow> ('s, 't) duplex option" where
  "server_move \<delta> \<epsilon> c =
     (case \<epsilon> (server c) of
        Transmit bs k \<Rightarrow> Some (c\<lparr>server := k (Inr ()), to_client := to_client c @ bs\<rparr>)
      | Receive n k \<Rightarrow>
          if n \<le> length (to_server c)
          then Some (c\<lparr>server := k (Inr (take n (to_server c))), to_server := drop n (to_server c)\<rparr>)
          else if halted \<delta> (client c) then Some (c\<lparr>server := k (Inl early_eof), to_server := []\<rparr>) else None
      | Halt r \<Rightarrow> None)"

lemma step_iff: "step \<delta> \<epsilon> c d \<longleftrightarrow> client_move \<delta> \<epsilon> c = Some d \<or> server_move \<delta> \<epsilon> c = Some d"
proof
  assume "step \<delta> \<epsilon> c d"
  then show "client_move \<delta> \<epsilon> c = Some d \<or> server_move \<delta> \<epsilon> c = Some d"
    by cases (simp_all add: client_move_def server_move_def)
next
  assume "client_move \<delta> \<epsilon> c = Some d \<or> server_move \<delta> \<epsilon> c = Some d"
  then show "step \<delta> \<epsilon> c d"
    by (auto simp: client_move_def server_move_def not_le split: action.splits if_splits intro: step.intros)
qed

lemma moves_commute:
  assumes "client_move \<delta> \<epsilon> c = Some x" and "server_move \<delta> \<epsilon> c = Some y"
  shows "\<exists>z. server_move \<delta> \<epsilon> x = Some z \<and> client_move \<delta> \<epsilon> y = Some z"
proof (cases "\<delta> (client c)")
  case d: (Receive n k)
  show ?thesis
  proof (cases "\<epsilon> (server c)")
    case e: (Receive m l)
    then show ?thesis
      using assms d by (auto simp: client_move_def server_move_def halted_def split: if_splits)
  next
    case e: (Transmit bs l)
    then show ?thesis
      using assms d by (auto simp: client_move_def server_move_def halted_def split: if_splits)
  next
    case e: (Halt r)
    then show ?thesis using assms by (simp add: server_move_def)
  qed
next
  case d: (Transmit as k)
  show ?thesis
  proof (cases "\<epsilon> (server c)")
    case e: (Receive m l)
    then show ?thesis
      using assms d by (auto simp: client_move_def server_move_def halted_def split: if_splits)
  next
    case e: (Transmit bs l)
    then show ?thesis
      using assms d by (auto simp: client_move_def server_move_def)
  next
    case e: (Halt r)
    then show ?thesis using assms by (simp add: server_move_def)
  qed
next
  case d: (Halt r)
  then show ?thesis using assms by (simp add: client_move_def)
qed

lemma diamond:
  assumes "step \<delta> \<epsilon> c x" and "step \<delta> \<epsilon> c y"
  shows "x = y \<or> (\<exists>z. step \<delta> \<epsilon> x z \<and> step \<delta> \<epsilon> y z)"
  using assms moves_commute unfolding step_iff by (metis option.inject)

text \<open>
  For a relation with this property one complete run decides them all: every other run, in whatever order,
  is no longer, can be continued to the same end, and reaches it after the same number of steps.
\<close>

definition steps_commute :: "('a \<Rightarrow> 'a \<Rightarrow> bool) \<Rightarrow> bool" where
  "steps_commute R = (\<forall>c x y. R c x \<longrightarrow> R c y \<longrightarrow> x = y \<or> (\<exists>z. R x z \<and> R y z))"

lemma duplex_commutes: "steps_commute (step \<delta> \<epsilon>)"
  unfolding steps_commute_def using diamond by metis

lemma run_joins:
  assumes "steps_commute R" and "(R ^^ n) c f" and "\<And>d. \<not> R f d" and "R c y"
  shows "\<exists>m. n = Suc m \<and> (R ^^ m) y f"
  using assms(2,4)
proof (induction n arbitrary: c y)
  case 0
  then show ?case using assms(3) by simp
next
  case (Suc n)
  obtain x where x: "R c x" "(R ^^ n) x f"
    using relpowp_Suc_D2 [OF Suc.prems(1)] by blast
  with Suc.prems(2) consider "x = y" | z where "R x z" "R y z"
    using assms(1) unfolding steps_commute_def by metis
  then show ?case
  proof cases
    case 1
    with x(2) show ?thesis by blast
  next
    case (2 z)
    from Suc.IH [OF x(2) 2(1)] obtain m where "n = Suc m" "(R ^^ m) z f" by blast
    with 2(2) have "(R ^^ Suc m) y f" by (intro relpowp_Suc_I2)
    with \<open>n = Suc m\<close> show ?thesis by blast
  qed
qed

lemma one_run_decides:
  assumes "steps_commute R" and "(R ^^ n) c f" and "\<And>d. \<not> R f d" and "(R ^^ m) c y"
  shows "m \<le> n \<and> (R ^^ (n - m)) y f"
  using assms(4)
proof (induction m arbitrary: y)
  case 0
  then show ?case using assms(2) by simp
next
  case (Suc m)
  obtain x where x: "(R ^^ m) c x" "R x y" using Suc.prems by auto
  from Suc.IH [OF x(1)] have m: "m \<le> n" "(R ^^ (n - m)) x f" by auto
  from run_joins [OF assms(1) m(2) assms(3) x(2)] obtain k where k: "n - m = Suc k" "(R ^^ k) y f" by blast
  then have "n - Suc m = k" "Suc m \<le> n" by auto
  with k(2) show ?case by simp
qed

text \<open>The form in which the protocols use it.\<close>

lemma all_runs_end:
  assumes "steps_commute R" and "R\<^sup>*\<^sup>* c f" and "\<And>d. \<not> R f d"
  shows "\<exists>n. \<forall>m y. (R ^^ m) c y \<longrightarrow> m \<le> n \<and> (R ^^ (n - m)) y f"
proof -
  obtain n where "(R ^^ n) c f" using assms(2) by (auto simp: rtranclp_power)
  then show ?thesis using one_run_decides [OF assms(1) _ assms(3)] by blast
qed

section \<open>Runs\<close>

text \<open>A state that reads exactly the bytes \<open>bs\<close>, in whatever portions it asks for, before the next.\<close>

inductive consumes :: "('s \<Rightarrow> 's action) \<Rightarrow> 's \<Rightarrow> bytes \<Rightarrow> 's \<Rightarrow> bool" for \<delta> where
  nothing: "consumes \<delta> s [] s"
| more: "\<delta> s = Receive (length a) k \<Longrightarrow> consumes \<delta> (k (Inr a)) b s' \<Longrightarrow> consumes \<delta> s (a @ b) s'"

lemma client_consumes:
  assumes "consumes \<delta> s bs s'"
  shows "(step \<delta> \<epsilon>)\<^sup>*\<^sup>* \<lparr>client = s, server = t, to_server = u, to_client = bs @ rest\<rparr>
    \<lparr>client = s', server = t, to_server = u, to_client = rest\<rparr>"
  using assms
proof (induction rule: consumes.induct)
  case (more s a k b s')
  have "step \<delta> \<epsilon> \<lparr>client = s, server = t, to_server = u, to_client = a @ b @ rest\<rparr>
      \<lparr>client = k (Inr a), server = t, to_server = u, to_client = b @ rest\<rparr>"
    using client_read [of \<delta> "\<lparr>client = s, server = t, to_server = u, to_client = a @ b @ rest\<rparr>" "length a" k \<epsilon>] more.hyps(1) by simp
  then show ?case using more.IH by (simp add: converse_rtranclp_into_rtranclp)
qed simp

lemma server_consumes:
  assumes "consumes \<epsilon> t bs t'"
  shows "(step \<delta> \<epsilon>)\<^sup>*\<^sup>* \<lparr>client = s, server = t, to_server = bs @ rest, to_client = d\<rparr>
    \<lparr>client = s, server = t', to_server = rest, to_client = d\<rparr>"
  using assms
proof (induction rule: consumes.induct)
  case (more t a k b t')
  have "step \<delta> \<epsilon> \<lparr>client = s, server = t, to_server = a @ b @ rest, to_client = d\<rparr>
      \<lparr>client = s, server = k (Inr a), to_server = b @ rest, to_client = d\<rparr>"
    using server_read [of \<epsilon> "\<lparr>client = s, server = t, to_server = a @ b @ rest, to_client = d\<rparr>" "length a" k \<delta>] more.hyps(1) by simp
  then show ?case using more.IH by (simp add: converse_rtranclp_into_rtranclp)
qed simp

lemma client_transmits:
  "\<delta> s = Transmit bs k \<Longrightarrow> (step \<delta> \<epsilon>)\<^sup>*\<^sup>* \<lparr>client = s, server = t, to_server = u, to_client = d\<rparr>
    \<lparr>client = k (Inr ()), server = t, to_server = u @ bs, to_client = d\<rparr>"
  using client_write [of \<delta> "\<lparr>client = s, server = t, to_server = u, to_client = d\<rparr>" bs k \<epsilon>] by (simp add: r_into_rtranclp)

lemma server_transmits:
  "\<epsilon> t = Transmit bs k \<Longrightarrow> (step \<delta> \<epsilon>)\<^sup>*\<^sup>* \<lparr>client = s, server = t, to_server = u, to_client = d\<rparr>
    \<lparr>client = s, server = k (Inr ()), to_server = u, to_client = d @ bs\<rparr>"
  using server_write [of \<epsilon> "\<lparr>client = s, server = t, to_server = u, to_client = d\<rparr>" bs k \<delta>] by (simp add: r_into_rtranclp)

end
