(* ===== verification/Serving.thy ===== *)
theory Serving
  imports Duplex
begin

text \<open>
  The accept loop of a TCP test server, \<open>for stream in listener.incoming().flatten()\<close> with a thread per
  connection, and its clients, under any scheduler.
\<close>

section \<open>A server and its connections\<close>

text \<open>
  \<open>arrivals\<close> is what \<open>incoming()\<close> yields, in order: an error, which \<open>flatten\<close> skips, or a connection. The loop has
  taken the first \<open>accepted\<close> of them; their threads run. A connection that waits in the backlog is open
  already, so its client can write; its server side is still in its first state.
\<close>

record ('s, 't) serving =
  accepted :: nat
  arrivals :: "(io_error + ('s, 't) duplex) list"

inductive serving_step :: "('s \<Rightarrow> 's action) \<Rightarrow> ('t \<Rightarrow> 't action) \<Rightarrow> ('s, 't) serving \<Rightarrow> ('s, 't) serving \<Rightarrow> bool" for \<delta> \<epsilon> where
  accept: "accepted v < length (arrivals v) \<Longrightarrow> serving_step \<delta> \<epsilon> v (v\<lparr>accepted := Suc (accepted v)\<rparr>)"
| client: "i < length (arrivals v) \<Longrightarrow> arrivals v ! i = Inr c \<Longrightarrow> client_move \<delta> \<epsilon> c = Some d \<Longrightarrow>
    serving_step \<delta> \<epsilon> v (v\<lparr>arrivals := (arrivals v)[i := Inr d]\<rparr>)"
| thread: "i < length (arrivals v) \<Longrightarrow> i < accepted v \<Longrightarrow> arrivals v ! i = Inr c \<Longrightarrow> server_move \<delta> \<epsilon> c = Some d \<Longrightarrow>
    serving_step \<delta> \<epsilon> v (v\<lparr>arrivals := (arrivals v)[i := Inr d]\<rparr>)"

inductive_cases serve_cases: "serving_step \<delta> \<epsilon> v w"

definition listening :: "(io_error + ('s, 't) duplex) list \<Rightarrow> ('s, 't) serving" where
  "listening as = \<lparr>accepted = 0, arrivals = as\<rparr>"

definition all_taken :: "(io_error + ('s, 't) duplex) list \<Rightarrow> ('s, 't) serving" where
  "all_taken as = \<lparr>accepted = length as, arrivals = as\<rparr>"

section \<open>Its steps commute\<close>

text \<open>A step at a connection, by either side.\<close>

definition move_at :: "('s \<Rightarrow> 's action) \<Rightarrow> ('t \<Rightarrow> 't action) \<Rightarrow> bool \<Rightarrow> nat \<Rightarrow> ('s, 't) serving \<Rightarrow> ('s, 't) serving option" where
  "move_at \<delta> \<epsilon> by_client i v =
     (if i < length (arrivals v) \<and> (by_client \<or> i < accepted v)
      then case arrivals v ! i of
             Inl e \<Rightarrow> None
           | Inr c \<Rightarrow> map_option (\<lambda>d. v\<lparr>arrivals := (arrivals v)[i := Inr d]\<rparr>)
               (if by_client then client_move \<delta> \<epsilon> c else server_move \<delta> \<epsilon> c)
      else None)"

lemma serve_iff:
  "serving_step \<delta> \<epsilon> v w \<longleftrightarrow> accepted v < length (arrivals v) \<and> w = v\<lparr>accepted := Suc (accepted v)\<rparr> \<or>
     (\<exists>b i. move_at \<delta> \<epsilon> b i v = Some w)"
proof
  assume "serving_step \<delta> \<epsilon> v w"
  then show "accepted v < length (arrivals v) \<and> w = v\<lparr>accepted := Suc (accepted v)\<rparr> \<or> (\<exists>b i. move_at \<delta> \<epsilon> b i v = Some w)"
  proof cases
    case (client i c d)
    then have "move_at \<delta> \<epsilon> True i v = Some w" by (simp add: move_at_def)
    then show ?thesis by blast
  next
    case (thread i c d)
    then have "move_at \<delta> \<epsilon> False i v = Some w" by (simp add: move_at_def)
    then show ?thesis by blast
  qed simp
next
  assume "accepted v < length (arrivals v) \<and> w = v\<lparr>accepted := Suc (accepted v)\<rparr> \<or> (\<exists>b i. move_at \<delta> \<epsilon> b i v = Some w)"
  then show "serving_step \<delta> \<epsilon> v w"
    by (auto simp: move_at_def split: if_splits sum.splits intro: serving_step.intros)
qed

lemma move_at_other:
  assumes "move_at \<delta> \<epsilon> b i v = Some x" and "move_at \<delta> \<epsilon> a j v = Some y" and "i \<noteq> j"
  shows "\<exists>z. move_at \<delta> \<epsilon> a j x = Some z \<and> move_at \<delta> \<epsilon> b i y = Some z"
proof -
  obtain c d where i: "i < length (arrivals v)" "b \<or> i < accepted v" "arrivals v ! i = Inr c"
    "(if b then client_move \<delta> \<epsilon> c else server_move \<delta> \<epsilon> c) = Some d" "x = v\<lparr>arrivals := (arrivals v)[i := Inr d]\<rparr>"
    using assms(1) by (auto simp: move_at_def split: if_split_asm sum.splits)
  obtain c' d' where j: "j < length (arrivals v)" "a \<or> j < accepted v" "arrivals v ! j = Inr c'"
    "(if a then client_move \<delta> \<epsilon> c' else server_move \<delta> \<epsilon> c') = Some d'" "y = v\<lparr>arrivals := (arrivals v)[j := Inr d']\<rparr>"
    using assms(2) by (auto simp: move_at_def split: if_split_asm sum.splits)
  have "move_at \<delta> \<epsilon> a j x = Some (v\<lparr>arrivals := (arrivals v)[i := Inr d, j := Inr d']\<rparr>)"
    using i(5) j assms(3) by (auto simp: move_at_def)
  moreover have "move_at \<delta> \<epsilon> b i y = Some (v\<lparr>arrivals := (arrivals v)[j := Inr d', i := Inr d]\<rparr>)"
    using j(5) i assms(3) by (auto simp: move_at_def)
  ultimately show ?thesis using assms(3) by (simp add: list_update_swap)
qed

lemma move_at_same:
  assumes "move_at \<delta> \<epsilon> True i v = Some x" and "move_at \<delta> \<epsilon> False i v = Some y"
  shows "\<exists>z. move_at \<delta> \<epsilon> False i x = Some z \<and> move_at \<delta> \<epsilon> True i y = Some z"
proof -
  obtain c d d' where i: "i < length (arrivals v)" "i < accepted v" "arrivals v ! i = Inr c"
    "client_move \<delta> \<epsilon> c = Some d" "x = v\<lparr>arrivals := (arrivals v)[i := Inr d]\<rparr>"
    "server_move \<delta> \<epsilon> c = Some d'" "y = v\<lparr>arrivals := (arrivals v)[i := Inr d']\<rparr>"
    using assms by (auto simp: move_at_def split: if_splits sum.splits)
  obtain z where "server_move \<delta> \<epsilon> d = Some z" "client_move \<delta> \<epsilon> d' = Some z"
    using moves_commute [OF i(4,6)] by blast
  then show ?thesis
    using i by (simp add: move_at_def)
qed

lemma move_at_accept:
  assumes "move_at \<delta> \<epsilon> b i v = Some x"
  shows "move_at \<delta> \<epsilon> b i (v\<lparr>accepted := Suc (accepted v)\<rparr>) = Some (x\<lparr>accepted := Suc (accepted x)\<rparr>)"
    and "accepted x = accepted v" and "length (arrivals x) = length (arrivals v)"
  using assms by (auto simp: move_at_def split: if_splits sum.splits)

lemma serve_commutes: "steps_commute (serving_step \<delta> \<epsilon>)"
  unfolding steps_commute_def
proof (intro allI impI)
  fix v x y
  assume "serving_step \<delta> \<epsilon> v x" "serving_step \<delta> \<epsilon> v y"
  then consider "x = y"
    | (left) b i where "accepted v < length (arrivals v)" "x = v\<lparr>accepted := Suc (accepted v)\<rparr>" "move_at \<delta> \<epsilon> b i v = Some y"
    | (right) b i where "accepted v < length (arrivals v)" "y = v\<lparr>accepted := Suc (accepted v)\<rparr>" "move_at \<delta> \<epsilon> b i v = Some x"
    | (both) a b i j where "move_at \<delta> \<epsilon> b i v = Some x" "move_at \<delta> \<epsilon> a j v = Some y"
    unfolding serve_iff by blast
  then show "x = y \<or> (\<exists>z. serving_step \<delta> \<epsilon> x z \<and> serving_step \<delta> \<epsilon> y z)"
  proof cases
    case left
    have "serving_step \<delta> \<epsilon> x (y\<lparr>accepted := Suc (accepted y)\<rparr>)" "serving_step \<delta> \<epsilon> y (y\<lparr>accepted := Suc (accepted y)\<rparr>)"
      using move_at_accept [OF left(3)] left(1,2) unfolding serve_iff by auto
    then show ?thesis by blast
  next
    case right
    have "serving_step \<delta> \<epsilon> y (x\<lparr>accepted := Suc (accepted x)\<rparr>)" "serving_step \<delta> \<epsilon> x (x\<lparr>accepted := Suc (accepted x)\<rparr>)"
      using move_at_accept [OF right(3)] right(1,2) unfolding serve_iff by auto
    then show ?thesis by blast
  next
    case both
    consider "i \<noteq> j" | "i = j" "a = b" | "i = j" "b" "\<not> a" | "i = j" "a" "\<not> b" by blast
    then have "x = y \<or> (\<exists>z. move_at \<delta> \<epsilon> a j x = Some z \<and> move_at \<delta> \<epsilon> b i y = Some z)"
      by cases (use both move_at_other [OF both] move_at_same [of \<delta> \<epsilon> i v] in \<open>auto\<close>)
    then show ?thesis unfolding serve_iff by blast
  qed simp
qed

section \<open>Runs\<close>

lemma serve_step:
  assumes "step \<delta> \<epsilon> c d"
  shows "serving_step \<delta> \<epsilon> (all_taken (as @ Inr c # bs)) (all_taken (as @ Inr d # bs))"
proof -
  consider "client_move \<delta> \<epsilon> c = Some d" | "server_move \<delta> \<epsilon> c = Some d" using assms step_iff by metis
  then show ?thesis
    using serving_step.client [of "length as" "all_taken (as @ Inr c # bs)" c \<delta> \<epsilon> d]
      serving_step.thread [of "length as" "all_taken (as @ Inr c # bs)" c \<delta> \<epsilon> d]
    by cases (simp_all add: all_taken_def)
qed

lemma serve_one:
  assumes "(step \<delta> \<epsilon>)\<^sup>*\<^sup>* c d"
  shows "(serving_step \<delta> \<epsilon>)\<^sup>*\<^sup>* (all_taken (as @ Inr c # bs)) (all_taken (as @ Inr d # bs))"
  using assms
proof induction
  case (step d e)
  then show ?case by (meson rtranclp.rtrancl_into_rtrancl serve_step)
qed simp

lemma serve_each:
  assumes "list_all2 (rel_sum (=) (step \<delta> \<epsilon>)\<^sup>*\<^sup>*) xs ys"
  shows "(serving_step \<delta> \<epsilon>)\<^sup>*\<^sup>* (all_taken (as @ xs)) (all_taken (as @ ys))"
  using assms
proof (induction arbitrary: as rule: list_all2_induct)
  case (Cons x xs y ys)
  have "(serving_step \<delta> \<epsilon>)\<^sup>*\<^sup>* (all_taken (as @ x # xs)) (all_taken (as @ y # xs))"
    using Cons(1) by (cases; simp add: serve_one)
  also have "(serving_step \<delta> \<epsilon>)\<^sup>*\<^sup>* \<dots> (all_taken (as @ y # ys))" using Cons(3) [of "as @ [y]"] by simp
  finally show ?case .
qed simp

lemma take_all: "(serving_step \<delta> \<epsilon>)\<^sup>*\<^sup>* (listening as) (all_taken as)"
proof -
  have "(serving_step \<delta> \<epsilon>)\<^sup>*\<^sup>* (listening as) \<lparr>accepted = k, arrivals = as\<rparr>" if "k \<le> length as" for k
    using that
  proof (induction k)
    case (Suc k)
    then show ?case
      using serving_step.accept [of "\<lparr>accepted = k, arrivals = as\<rparr>" \<delta> \<epsilon>] by (auto intro: rtranclp.rtrancl_into_rtrancl)
  qed (simp add: listening_def)
  then show ?thesis by (simp add: all_taken_def)
qed

text \<open>
  When every connection has a run to an end, every run of the server and all its clients ends there, in
  a fixed number of steps.
\<close>

lemma serving_ends:
  assumes "list_all2 (rel_sum (=) (step \<delta> \<epsilon>)\<^sup>*\<^sup>*) xs ys"
    and "\<And>d. Inr d \<in> set ys \<Longrightarrow> halted \<delta> (client d) \<and> halted \<epsilon> (server d)"
  shows "\<exists>n. \<forall>m v. (serving_step \<delta> \<epsilon> ^^ m) (listening xs) v \<longrightarrow>
    m \<le> n \<and> (serving_step \<delta> \<epsilon> ^^ (n - m)) v (all_taken ys)"
proof (rule all_runs_end [OF serve_commutes])
  show "(serving_step \<delta> \<epsilon>)\<^sup>*\<^sup>* (listening xs) (all_taken ys)"
    using rtranclp_trans [OF take_all serve_each [OF assms(1), of "[]", simplified]] .
  show "\<not> serving_step \<delta> \<epsilon> (all_taken ys) w" for w
  proof
    assume "serving_step \<delta> \<epsilon> (all_taken ys) w"
    then obtain b i where m: "move_at \<delta> \<epsilon> b i (all_taken ys) = Some w" by (auto simp: serve_iff all_taken_def)
    then obtain d where d: "Inr d \<in> set ys" "client_move \<delta> \<epsilon> d \<noteq> None \<or> server_move \<delta> \<epsilon> d \<noteq> None"
      by (auto simp: move_at_def all_taken_def split: if_splits sum.splits) (metis nth_mem)+
    then obtain e where "step \<delta> \<epsilon> d e" unfolding step_iff by blast
    then show False using both_halted assms(2) [OF d(1)] by blast
  qed
qed

text \<open>Clients of one kind: each arrival \<open>x\<close> opens the connection \<open>f x\<close>, which runs to \<open>g\<close>.\<close>

lemma serving_clients_end:
  assumes "\<And>x. Inr x \<in> set as \<Longrightarrow> (step \<delta> \<epsilon>)\<^sup>*\<^sup>* (f x) g" and "halted \<delta> (client g)" and "halted \<epsilon> (server g)"
  shows "\<exists>n. \<forall>m v. (serving_step \<delta> \<epsilon> ^^ m) (listening (map (map_sum id f) as)) v \<longrightarrow>
    m \<le> n \<and> (serving_step \<delta> \<epsilon> ^^ (n - m)) v (all_taken (map (map_sum id (\<lambda>_. g)) as))"
proof (rule serving_ends)
  have "rel_sum (=) (step \<delta> \<epsilon>)\<^sup>*\<^sup>* (map_sum id f a) (map_sum id (\<lambda>_. g) a)" if "a \<in> set as" for a
  proof (cases a)
    case (Inr x)
    then show ?thesis using that assms(1) by simp
  qed simp
  then show "list_all2 (rel_sum (=) (step \<delta> \<epsilon>)\<^sup>*\<^sup>*) (map (map_sum id f) as) (map (map_sum id (\<lambda>_. g)) as)"
    by (auto simp: list_all2_map1 list_all2_map2 intro!: list.rel_refl_strong)
  fix d assume "Inr d \<in> set (map (map_sum id (\<lambda>_. g)) as)"
  then have "d = g" by (auto simp: map_sum_def split: sum.splits)
  then show "halted \<delta> (client d) \<and> halted \<epsilon> (server d)" using assms(2,3) by simp
qed

section \<open>Clients of two kinds\<close>

text \<open>
  \<open>either\<close> runs a client of the one or the other machine. Nothing is assumed of the second: it stands for any
  other clients of the server, which may write anything, stop, or never stop.
\<close>

definition either :: "('s \<Rightarrow> 's action) \<Rightarrow> ('r \<Rightarrow> 'r action) \<Rightarrow> 's + 'r \<Rightarrow> ('s + 'r) action" where
  "either \<delta> \<gamma> s = (case s of Inl a \<Rightarrow> map_action Inl (\<delta> a) | Inr b \<Rightarrow> map_action Inr (\<gamma> b))"

definition ours :: "('s, 't) duplex \<Rightarrow> ('s + 'r, 't) duplex" where
  "ours c = \<lparr>client = Inl (client c), server = server c, to_server = to_server c, to_client = to_client c\<rparr>"

lemma ours_halted: "halted (either \<delta> \<gamma>) (Inl s) \<longleftrightarrow> halted \<delta> s"
  by (cases "\<delta> s") (simp_all add: either_def halted_def)

lemma ours_client_move: "client_move (either \<delta> \<gamma>) \<epsilon> (ours c) = map_option ours (client_move \<delta> \<epsilon> c)"
  by (cases "\<delta> (client c)") (simp_all add: client_move_def either_def ours_def)

lemma ours_server_move: "server_move (either \<delta> \<gamma>) \<epsilon> (ours c) = map_option ours (server_move \<delta> \<epsilon> c)"
  by (cases "\<epsilon> (server c)") (simp_all add: server_move_def ours_def ours_halted)

text \<open>What happens at one connection is a run of its two sides alone.\<close>

lemma slot_step:
  assumes "serving_step (either \<delta> \<gamma>) \<epsilon> v w" and "i < length (arrivals v)" and "arrivals v ! i = Inr (ours c)"
  shows "\<exists>d. (step \<delta> \<epsilon>)\<^sup>*\<^sup>* c d \<and> arrivals w ! i = Inr (ours d) \<and> length (arrivals w) = length (arrivals v)"
  using assms(1)
proof cases
  case accept
  then show ?thesis using assms(3) by auto
next
  case (client j x y)
  show ?thesis
  proof (cases "j = i")
    case True
    then obtain d where "client_move \<delta> \<epsilon> c = Some d" "y = ours d"
      using client assms(3) by (auto simp: ours_client_move)
    then have "step \<delta> \<epsilon> c d" "arrivals w ! i = Inr (ours d)" using client True by (simp_all add: step_iff)
    with client show ?thesis by auto
  next
    case False
    with client assms show ?thesis by auto
  qed
next
  case (thread j x y)
  show ?thesis
  proof (cases "j = i")
    case True
    then obtain d where "server_move \<delta> \<epsilon> c = Some d" "y = ours d"
      using thread assms(3) by (auto simp: ours_server_move)
    then have "step \<delta> \<epsilon> c d" "arrivals w ! i = Inr (ours d)" using thread True by (simp_all add: step_iff)
    with thread show ?thesis by auto
  next
    case False
    with thread assms show ?thesis by auto
  qed
qed

lemma slot_run:
  assumes "(serving_step (either \<delta> \<gamma>) \<epsilon>)\<^sup>*\<^sup>* v w" and "i < length (arrivals v)" and "arrivals v ! i = Inr (ours c)"
  shows "\<exists>d. (step \<delta> \<epsilon>)\<^sup>*\<^sup>* c d \<and> arrivals w ! i = Inr (ours d) \<and> length (arrivals w) = length (arrivals v)"
  using assms(1)
proof induction
  case (step u w)
  then obtain d where d: "(step \<delta> \<epsilon>)\<^sup>*\<^sup>* c d" "arrivals u ! i = Inr (ours d)" "length (arrivals u) = length (arrivals v)" by blast
  with slot_step [OF step.hyps(2) _ d(2)] assms(2) obtain e where
    "(step \<delta> \<epsilon>)\<^sup>*\<^sup>* d e" "arrivals w ! i = Inr (ours e)" "length (arrivals w) = length (arrivals u)" by auto
  with d show ?case by (metis rtranclp_trans)
qed (use assms in auto)

text \<open>
  A client that would come to its end alone with the server comes to it whatever the others do: after
  any run its connection is on the way, and once it is accepted, and not at the end, it can take the next step.
\<close>

lemma undisturbed:
  assumes "(step \<delta> \<epsilon>)\<^sup>*\<^sup>* c f" and "halted \<delta> (client f)" and "halted \<epsilon> (server f)"
    and "i < length as" and "as ! i = Inr (ours c)" and "(serving_step (either \<delta> \<gamma>) \<epsilon>)\<^sup>*\<^sup>* (listening as) v"
  shows "\<exists>d. arrivals v ! i = Inr (ours d) \<and> (step \<delta> \<epsilon>)\<^sup>*\<^sup>* d f \<and>
    (i < accepted v \<and> d \<noteq> f \<longrightarrow> (\<exists>e. step \<delta> \<epsilon> d e \<and> (step \<delta> \<epsilon>)\<^sup>*\<^sup>* e f \<and>
       serving_step (either \<delta> \<gamma>) \<epsilon> v (v\<lparr>arrivals := (arrivals v)[i := Inr (ours e)]\<rparr>)))"
proof -
  obtain d where d: "(step \<delta> \<epsilon>)\<^sup>*\<^sup>* c d" "arrivals v ! i = Inr (ours d)" "length (arrivals v) = length as"
    using slot_run [OF assms(6)] assms(4,5) by (auto simp: listening_def)
  obtain n where n: "(step \<delta> \<epsilon> ^^ n) c f" using assms(1) by (auto simp: rtranclp_power)
  obtain m where "(step \<delta> \<epsilon> ^^ m) c d" using d(1) by (auto simp: rtranclp_power)
  then have "(step \<delta> \<epsilon> ^^ (n - m)) d f"
    using one_run_decides [OF duplex_commutes n both_halted [OF assms(2,3)]] by blast
  then have df: "(step \<delta> \<epsilon>)\<^sup>*\<^sup>* d f" by (metis relpowp_imp_rtranclp)
  have "\<exists>e. step \<delta> \<epsilon> d e \<and> (step \<delta> \<epsilon>)\<^sup>*\<^sup>* e f \<and>
      serving_step (either \<delta> \<gamma>) \<epsilon> v (v\<lparr>arrivals := (arrivals v)[i := Inr (ours e)]\<rparr>)"
    if acc: "i < accepted v" and ne: "d \<noteq> f"
  proof -
    obtain e where e: "step \<delta> \<epsilon> d e" "(step \<delta> \<epsilon>)\<^sup>*\<^sup>* e f"
      using df ne by (auto elim: converse_rtranclpE)
    then consider "client_move \<delta> \<epsilon> d = Some e" | "server_move \<delta> \<epsilon> d = Some e" unfolding step_iff by blast
    then have "serving_step (either \<delta> \<gamma>) \<epsilon> v (v\<lparr>arrivals := (arrivals v)[i := Inr (ours e)]\<rparr>)"
      using d(2,3) assms(4) acc
      by cases (auto intro: serving_step.client serving_step.thread simp: ours_client_move ours_server_move)
    with e show ?thesis by blast
  qed
  with d(2) df show ?thesis by blast
qed

end
