(* ===== verification/MqttDuplex.thy ===== *)
theory MqttDuplex
  imports StreamServers Serving
begin

text \<open>
  The MQTT ping and the MQTT test broker as machines, equal to the code on every stream, and what
  happens when they run against each other under any scheduler.
\<close>

section \<open>The packet reader\<close>

text \<open>
  Where a reader of one packet can block: before the type byte, before a length byte (type, iterations left,
  multiplier, length so far), before the body. \<open>go\<close> embeds these states, \<open>fin\<close> takes the outcome.
\<close>

datatype reading = R_Header | R_Len u8 nat nat nat | R_Body u8 nat

definition varint_error :: io_error where
  "varint_error = IoError Other ''MQTT remaining-length varint exceeds 4 bytes''"

definition len_next :: "(reading \<Rightarrow> 's) \<Rightarrow> (io_error + MqttPacket \<Rightarrow> 's) \<Rightarrow> u8 \<Rightarrow> nat \<Rightarrow> nat \<Rightarrow> nat \<Rightarrow> bytes \<Rightarrow> 's" where
  "len_next go fin ty k multiplier remaining byte =
     (let b = byte ! 0;
          remaining = remaining + unat (b AND 0x7F) * multiplier
      in if b AND 0x80 = 0
         then (if remaining > 0 then go (R_Body ty remaining) else fin (Inr \<lparr>packet_type = ty, packet_body = []\<rparr>))
         else if k \<le> 1 then fin (Inl varint_error)
         else go (R_Len ty (k - 1) (saturating_mul multiplier 128) remaining))"

fun read_action :: "(reading \<Rightarrow> 's) \<Rightarrow> (io_error + MqttPacket \<Rightarrow> 's) \<Rightarrow> reading \<Rightarrow> 's action" where
  "read_action go fin R_Header =
     Receive 1 (\<lambda>r. case r of Inl e \<Rightarrow> fin (Inl e) | Inr header \<Rightarrow> go (R_Len (header ! 0) 4 1 0))"
| "read_action go fin (R_Len ty k multiplier remaining) =
     Receive 1 (\<lambda>r. case r of Inl e \<Rightarrow> fin (Inl e) | Inr byte \<Rightarrow> len_next go fin ty k multiplier remaining byte)"
| "read_action go fin (R_Body ty n) =
     Receive n (\<lambda>r. case r of Inl e \<Rightarrow> fin (Inl e) | Inr body \<Rightarrow> fin (Inr \<lparr>packet_type = ty, packet_body = body\<rparr>))"

text \<open>What the code still does at these points.\<close>

fun reader_rest :: "('w, 'h, 'z) stream_io_scheme \<Rightarrow> 'h \<Rightarrow> reading \<Rightarrow> ('w, MqttPacket) io" where
  "reader_rest io h R_Header = read_packet io h"
| "reader_rest io h (R_Len ty k multiplier remaining) = read_packet_loop io h ty (max 1 k) multiplier remaining"
| "reader_rest io h (R_Body ty n) = io_bind (st_read_exact io h n) (\<lambda>body. io_ok \<lparr>packet_type = ty, packet_body = body\<rparr>)"

text \<open>
  For a function \<open>run\<close> on states that follows the actions of the reader, running the reader is reading
  a packet and running on from its outcome.
\<close>

lemma run_reader_len:
  assumes run: "\<And>st n k. read_action go fin st = Receive n k \<Longrightarrow>
      run (go st) = io_catch (st_read_exact io h n) (\<lambda>bs. run (k (Inr bs))) (\<lambda>e. run (k (Inl e)))"
    and "k \<noteq> 0"
  shows "run (go (R_Len ty k m r)) =
      io_catch (read_packet_loop io h ty k m r) (\<lambda>p. run (fin (Inr p))) (\<lambda>e. run (fin (Inl e)))"
  using assms(2)
proof (induction k arbitrary: m r)
  case (Suc k)
  have body: "run (go (R_Body ty n)) =
      io_catch (reader_rest io h (R_Body ty n)) (\<lambda>p. run (fin (Inr p))) (\<lambda>e. run (fin (Inl e)))" for n
    using run [OF read_action.simps(3)] by (simp add: io_catch_bind io_catch_ok)
  have one: "run (go (R_Len ty (Suc k) m r)) =
      io_catch (st_read_exact io h 1) (\<lambda>bs. run (len_next go fin ty (Suc k) m r bs)) (\<lambda>e. run (fin (Inl e)))"
    using run [OF read_action.simps(2), of ty "Suc k" m r] by simp
  have two: "run (len_next go fin ty (Suc k) m r bs) =
      io_catch (let b = bs ! 0; remaining = r + unat (b AND 0x7F) * m
        in if b AND 0x80 = 0
           then (if remaining > 0 then reader_rest io h (R_Body ty remaining) else io_ok \<lparr>packet_type = ty, packet_body = []\<rparr>)
           else read_packet_loop io h ty k (saturating_mul m 128) remaining)
        (\<lambda>p. run (fin (Inr p))) (\<lambda>e. run (fin (Inl e)))" for bs
    unfolding len_next_def Let_def
    by (cases "k = 0") (auto simp: body Suc.IH io_catch_ok io_catch_err varint_error_def simp del: reader_rest.simps read_packet_loop.simps(2))
  show ?case by (simp add: one two [unfolded reader_rest.simps(3)] io_catch_bind)
qed simp

lemma run_reader:
  assumes "\<And>st n k. read_action go fin st = Receive n k \<Longrightarrow>
      run (go st) = io_catch (st_read_exact io h n) (\<lambda>bs. run (k (Inr bs))) (\<lambda>e. run (k (Inl e)))"
  shows "run (go R_Header) = io_catch (read_packet io h) (\<lambda>p. run (fin (Inr p))) (\<lambda>e. run (fin (Inl e)))"
  using assms [OF read_action.simps(1)] run_reader_len [of go fin run io h, OF assms]
  by (simp add: read_packet_def io_catch_bind)

section \<open>The two machines\<close>

datatype client_state = C_Connect bytes | C_Read bool reading | C_Ping | C_Disconnect | C_Return "unit result"

fun check_packet :: "unit result \<Rightarrow> client_state \<Rightarrow> client_state" where
  "check_packet (Ok _) s = s"
| "check_packet (Err e) s = C_Return (Err e)"
| "check_packet (Panic m) s = C_Return (Panic m)"

text \<open>The flag is set while the CONNACK is awaited.\<close>

fun client_got :: "bool \<Rightarrow> io_error + MqttPacket \<Rightarrow> client_state" where
  "client_got first (Inl e) = C_Return (Err e)"
| "client_got True (Inr p) = check_packet (validate_connack p) C_Ping"
| "client_got False (Inr p) = check_packet (validate_pingresp p) C_Disconnect"

fun client_step :: "client_state \<Rightarrow> client_state action" where
  "client_step (C_Connect connect) =
     Transmit connect (\<lambda>r. case r of Inl e \<Rightarrow> C_Return (Err e) | Inr _ \<Rightarrow> C_Read True R_Header)"
| "client_step (C_Read first st) = read_action (C_Read first) (client_got first) st"
| "client_step C_Ping =
     Transmit [TYPE_PINGREQ, 0x00] (\<lambda>r. case r of Inl e \<Rightarrow> C_Return (Err e) | Inr _ \<Rightarrow> C_Read False R_Header)"
| "client_step C_Disconnect = Transmit [TYPE_DISCONNECT, 0x00] (\<lambda>_. C_Return (Ok ()))"
| "client_step (C_Return r) = Halt r"

datatype broker_state = B_Read bool reading | B_Connack | B_Pingresp | B_Return

fun broker_got :: "bool \<Rightarrow> io_error + MqttPacket \<Rightarrow> broker_state" where
  "broker_got first (Inl e) = B_Return"
| "broker_got True (Inr p) = (if packet_type p AND 0xF0 \<noteq> 0x10 then B_Return else B_Connack)"
| "broker_got False (Inr p) = (if packet_type p AND 0xF0 = 0xC0 then B_Pingresp else B_Return)"

fun broker_step :: "broker_state \<Rightarrow> broker_state action" where
  "broker_step (B_Read first st) = read_action (B_Read first) (broker_got first) st"
| "broker_step B_Connack =
     Transmit [0x20, 0x02, 0x00, 0x00] (\<lambda>r. case r of Inl _ \<Rightarrow> B_Return | Inr _ \<Rightarrow> B_Read False R_Header)"
| "broker_step B_Pingresp =
     Transmit [0xD0, 0x00] (\<lambda>r. case r of Inl _ \<Rightarrow> B_Return | Inr _ \<Rightarrow> B_Read False R_Header)"
| "broker_step B_Return = Halt (Ok ())"

section \<open>The machines are the code\<close>

lemma exec_reader:
  assumes "\<And>st. \<delta> (go st) = read_action go fin st"
  shows "exec \<delta> io h (go R_Header) =
    io_catch (read_packet io h) (\<lambda>p. exec \<delta> io h (fin (Inr p))) (\<lambda>e. exec \<delta> io h (fin (Inl e)))"
  by (rule run_reader [where run = "exec \<delta> io h"]) (simp add: exec_Receive assms)

lemma exec_check:
  "exec client_step io h (check_packet r s) = io_bind (io_lift r) (\<lambda>_. exec client_step io h s)"
  by (cases r; rule ext) (simp_all add: exec_Halt)

lemma client_is_code:
  "exec client_step net h (C_Connect (build_connect (case cid of Some c \<Rightarrow> c | None \<Rightarrow> default_client_id (system_time net w)) ka v)) w =
   run_session net h cid ka v w"
proof -
  let ?connect = "build_connect (case cid of Some c \<Rightarrow> c | None \<Rightarrow> default_client_id (system_time net w)) ka v"
  let ?run = "exec client_step net h"
  have rd: "?run (C_Read first R_Header) =
      io_bind (read_packet net h) (\<lambda>p. ?run (client_got first (Inr p)))" for first
    using exec_reader [of client_step "C_Read first" "client_got first" net h] by (simp add: exec_Halt io_bind_catch)
  have wr: "?run (C_Connect ?connect) = io_bind (st_write_all net h ?connect) (\<lambda>_. ?run (C_Read True R_Header))"
    "?run C_Ping = io_bind (st_write_all net h [TYPE_PINGREQ, 0x00]) (\<lambda>_. ?run (C_Read False R_Header))"
    "?run C_Disconnect = io_catch (st_write_all net h [TYPE_DISCONNECT, 0x00]) (\<lambda>_. io_ok ()) (\<lambda>_. io_ok ())"
    by (simp_all add: exec_Transmit exec_Halt io_bind_catch)
  show ?thesis
    unfolding run_session_def Let_def wr rd client_got.simps exec_check ..
qed

text \<open>What the broker still does at each of its states.\<close>

definition broker_after :: "('w, 'h, 'z) stream_io_scheme \<Rightarrow> 'h \<Rightarrow> broker_state \<Rightarrow> ('w, unit) io" where
  "broker_after io h s =
     (case s of
        B_Connack \<Rightarrow> io_catch (st_write_all io h [0x20, 0x02, 0x00, 0x00]) (\<lambda>_. mqtt_session_loop io h) (\<lambda>_. io_ok ())
      | B_Pingresp \<Rightarrow> io_catch (st_write_all io h [0xD0, 0x00]) (\<lambda>_. mqtt_session_loop io h) (\<lambda>_. io_ok ())
      | _ \<Rightarrow> io_ok ())"

definition broker_rest :: "('w, 'h, 'z) stream_io_scheme \<Rightarrow> 'h \<Rightarrow> broker_state \<Rightarrow> ('w, unit) io" where
  "broker_rest io h s =
     (case s of
        B_Read first st \<Rightarrow> io_catch (reader_rest io h st) (\<lambda>p. broker_after io h (broker_got first (Inr p))) (\<lambda>_. io_ok ())
      | _ \<Rightarrow> broker_after io h s)"

text \<open>The server's copy of the packet reader is the client's.\<close>

lemma session_read_eq:
  "read_mqtt_packet io h = io_bind (read_packet io h) (\<lambda>p. io_ok (packet_type p, packet_body p))"
proof -
  have loop: "read_mqtt_loop io h ty k m r = io_bind (read_packet_loop io h ty k m r) (\<lambda>p. io_ok (packet_type p, packet_body p))" for ty k m r
  proof (induction k arbitrary: m r)
    case 0
    show ?case by (rule ext) (simp add: io_bind_def)
  next
    case (Suc k)
    have ok: "io_bind (io_ok x) f = f x" for x :: MqttPacket and f :: "MqttPacket \<Rightarrow> ('a, u8 \<times> bytes) io"
      by (rule ext) simp
    show ?case by (simp add: io_bind_assoc Suc Let_def if_distrib [of "\<lambda>m. io_bind m f" for f] ok cong: if_cong del: io_lift_apply)
  qed
  show ?thesis by (simp add: read_mqtt_packet_def read_packet_def io_bind_assoc loop)
qed

lemma session_loop_eq: "mqtt_session_loop io h = broker_rest io h (B_Read False R_Header)"
proof
  fix w
  have "(\<lambda>p w. if packet_type p AND 0xF0 = 0xC0
        then io_catch (st_write_all io h [0xD0, 0x00]) (\<lambda>_. mqtt_session_loop io h) (\<lambda>_. io_ok ()) w
        else if packet_type p AND 0xF0 = 0xE0 then io_ok () w else io_ok () w) =
      (\<lambda>p. broker_after io h (broker_got False (Inr p)))"
    by (intro ext) (simp add: broker_after_def)
  then show "mqtt_session_loop io h w = broker_rest io h (B_Read False R_Header) w"
    by (subst mqtt_session_loop.simps) (simp add: broker_rest_def session_read_eq io_catch_bind io_catch_ok del: broker_got.simps)
qed

lemma exec_broker_reader:
  "exec broker_step io h (B_Read first R_Header) =
    io_catch (read_packet io h) (\<lambda>p. exec broker_step io h (broker_got first (Inr p))) (\<lambda>e. io_ok ())"
  using exec_reader [of broker_step "B_Read first" "broker_got first" io h] by (simp add: exec_Halt)

lemma broker_rest_got: "broker_rest io h (broker_got first r) = broker_after io h (broker_got first r)"
  by (cases "(first, r)" rule: broker_got.cases) (simp_all add: broker_rest_def)

lemma broker_rest_return: "broker_rest io h B_Return = io_ok ()"
  by (simp add: broker_rest_def broker_after_def)

lemma broker_rest_len_next:
  "broker_rest io h (len_next (B_Read first) (broker_got first) ty k m r byte) =
     io_catch (let b = byte ! 0; remaining = r + unat (b AND 0x7F) * m
        in if b AND 0x80 = 0
           then (if remaining > 0 then io_bind (st_read_exact io h remaining) (\<lambda>body. io_ok \<lparr>packet_type = ty, packet_body = body\<rparr>)
                 else io_ok \<lparr>packet_type = ty, packet_body = []\<rparr>)
           else read_packet_loop io h ty (k - Suc 0) (saturating_mul m 128) remaining)
       (\<lambda>p. broker_after io h (broker_got first (Inr p))) (\<lambda>_. io_ok ())"
proof -
  have k: "max (Suc 0) (k - Suc 0) = k - Suc 0" if "\<not> k \<le> Suc 0" using that by simp
  have "io_catch (read_packet_loop io h ty (k - Suc 0) m' n') (\<lambda>p. broker_after io h (broker_got first (Inr p))) (\<lambda>_. io_ok ()) = io_ok ()"
    if "k \<le> Suc 0" for m' n'
    using that by (simp add: io_catch_err del: io_lift_apply)
  then show ?thesis
    unfolding len_next_def Let_def
    by (auto simp: k broker_rest_return broker_rest_got broker_after_def io_catch_ok broker_rest_def [of _ _ "B_Read _ _"] simp del: io_lift_apply)
qed

lemma broker_rest_follows:
  "broker_rest io h s = (case broker_step s of
        Receive n k \<Rightarrow> io_catch (st_read_exact io h n) (\<lambda>bs. broker_rest io h (k (Inr bs))) (\<lambda>e. broker_rest io h (k (Inl e)))
      | Transmit bs k \<Rightarrow> io_catch (st_write_all io h bs) (\<lambda>_. broker_rest io h (k (Inr ()))) (\<lambda>e. broker_rest io h (k (Inl e)))
      | Halt r \<Rightarrow> io_lift r)"
proof (cases s)
  case (B_Read first st)
  show ?thesis
  proof (cases st)
    case R_Header
    then show ?thesis
      by (simp add: B_Read broker_rest_return io_catch_bind read_packet_def broker_rest_def [of _ _ "B_Read _ _"])
  next
    case (R_Len ty k m r)
    have j: "max (Suc 0) k = Suc (k - 1)" by simp
    show ?thesis
      using broker_rest_len_next [of io h first ty k m r]
      by (simp add: B_Read R_Len broker_rest_return j io_catch_bind broker_rest_def [of _ _ "B_Read _ _"])
  next
    case (R_Body ty n)
    then show ?thesis
      by (simp add: B_Read broker_rest_return io_catch_bind io_catch_ok broker_rest_got broker_rest_def [of _ _ "B_Read _ _"])
  qed
qed (simp_all add: broker_rest_def broker_after_def session_loop_eq)

lemma broker_loop_is_code: "exec broker_step io h (B_Read False R_Header) = mqtt_session_loop io h"
proof
  fix w
  have "mqtt_session_loop io h w = Some y" if "exec broker_step io h (B_Read False R_Header) w = Some y" for y
    unfolding session_loop_eq by (rule exec_least [OF broker_rest_follows that])
  moreover have "exec broker_step io h (B_Read False R_Header) w = Some y" if "mqtt_session_loop io h w = Some y" for y
  proof -
    have "exec broker_step io h (B_Read False R_Header) w = Some y"
    proof (rule mqtt_session_loop.raw_induct [of "\<lambda>io h w y. exec broker_step io h (B_Read False R_Header) w = Some y", OF _ that])
      fix f io h w y
      assume IH: "\<And>io h w y. f io h w = Some y \<Longrightarrow> exec broker_step io h (B_Read False R_Header) w = Some y"
        and body: "io_catch (read_mqtt_packet io h) (\<lambda>(packet_type, _) w.
            if packet_type AND 0xF0 = 0xC0 then io_catch (st_write_all io h [0xD0, 0x00]) (\<lambda>_. f io h) (\<lambda>_. io_ok ()) w
            else if packet_type AND 0xF0 = 0xE0 then io_ok () w else io_ok () w) (\<lambda>_. io_ok ()) w = Some y"
      have reply: "exec broker_step io h B_Pingresp w = Some y"
        if "io_catch (st_write_all io h [0xD0, 0x00]) (\<lambda>_. f io h) (\<lambda>_. io_ok ()) w = Some y" for w
        using that by (simp add: exec_Transmit exec_Halt) (rule io_catch_Some_mono, assumption, simp_all add: IH)
      show "exec broker_step io h (B_Read False R_Header) w = Some y"
        using body unfolding session_read_eq io_catch_bind exec_broker_reader
        by (rule io_catch_Some_mono) (auto simp: io_catch_ok exec_Halt reply split: if_splits)
    qed
    then show ?thesis .
  qed
  ultimately show "exec broker_step io h (B_Read False R_Header) w = mqtt_session_loop io h w"
    by (metis option.exhaust)
qed

lemma broker_is_code: "exec broker_step io h (B_Read True R_Header) = handle_mqtt_session io h"
proof -
  have "exec broker_step io h B_Connack =
      io_catch (st_write_all io h [0x20, 0x02, 0x00, 0x00]) (\<lambda>_. mqtt_session_loop io h) (\<lambda>_. io_ok ())"
    by (simp add: exec_Transmit exec_Halt broker_loop_is_code)
  then show ?thesis
    unfolding exec_broker_reader handle_mqtt_session_def session_read_eq
    by (auto simp: io_catch_bind io_catch_ok exec_Halt simp del: io_lift_apply intro!: io_catch_cong)
qed

section \<open>A run\<close>

lemma consumes_len:
  assumes "\<And>st. \<delta> (go st) = read_action go fin st"
    and "n < 128 ^ k" and "m * 128 ^ k \<le> 2 ^ 63" and "length body = r + n * m" and "k \<noteq> 0"
  shows "consumes \<delta> (go (R_Len ty k m r)) (encode_varint n @ body) (fin (Inr \<lparr>packet_type = ty, packet_body = body\<rparr>))"
  using assms(2-)
proof (induction k arbitrary: n m r)
  case (Suc k)
  have one: "consumes \<delta> (go (R_Len ty (Suc k) m r)) (b # bs) s'"
    if "consumes \<delta> (len_next go fin ty (Suc k) m r [b]) bs s'" for b bs s'
    using consumes.more [of \<delta> "go (R_Len ty (Suc k) m r)" "[b]"] that by (simp add: assms(1))
  show ?case
  proof (cases "n < 128")
    case True
    have b: "unat (of_nat n :: u8) = n" using True by (simp add: unat_of_nat)
    have nx: "len_next go fin ty (Suc k) m r [of_nat n] =
        (if body \<noteq> [] then go (R_Body ty (length body)) else fin (Inr \<lparr>packet_type = ty, packet_body = []\<rparr>))"
      using True by (simp add: len_next_def Let_def low7 top_bit b flip: Suc.prems(3))
    have "consumes \<delta> (len_next go fin ty (Suc k) m r [of_nat n]) body (fin (Inr \<lparr>packet_type = ty, packet_body = body\<rparr>))"
      unfolding nx using consumes.more [of \<delta> "go (R_Body ty (length body))" body _ "[]", OF _ consumes.nothing]
      by (auto simp: assms(1) consumes.nothing)
    then show ?thesis
      using True one by (subst encode_varint_eq) simp
  next
    case False
    let ?b = "of_nat (n mod 128) OR 0x80 :: u8"
    have top: "unat ?b = n mod 128 + 128" by (rule set_top) simp
    have k: "k \<noteq> 0" using Suc.prems(1) False by (cases k) auto
    have dv: "n div 128 < 128 ^ k" using Suc.prems(1) by (simp add: div_less_iff_less_mult mult.commute)
    have m: "m * 128 * 128 ^ k \<le> 2 ^ 63" using Suc.prems(2) by (simp add: mult.assoc)
    then have sat: "saturating_mul m 128 = m * 128"
      using le_trans [of "m * 128" "m * 128 * 128 ^ k" "2 ^ 63"] by (simp add: saturating_mul_def)
    have "n * m = n div 128 * 128 * m + n mod 128 * m" by (metis div_mult_mod_eq distrib_right)
    then have len: "length body = r + n mod 128 * m + n div 128 * (m * 128)"
      using Suc.prems(3) by (simp only: mult.assoc mult.commute [of m] add.commute add.left_commute)
    have nx: "len_next go fin ty (Suc k) m r [?b] = go (R_Len ty k (m * 128) (r + n mod 128 * m))"
      using k by (simp add: len_next_def Let_def low7 top_bit top sat)
    have "consumes \<delta> (len_next go fin ty (Suc k) m r [?b]) (encode_varint (n div 128) @ body)
        (fin (Inr \<lparr>packet_type = ty, packet_body = body\<rparr>))"
      unfolding nx by (rule Suc.IH [OF dv m len k])
    then show ?thesis
      using False one by (subst encode_varint_eq) simp
  qed
qed simp

lemma consumes_packet:
  assumes "\<And>st. \<delta> (go st) = read_action go fin st" and "length (packet_body p) < 2 ^ 28"
  shows "consumes \<delta> (go R_Header) (packet_bytes p) (fin (Inr p))"
proof -
  have "consumes \<delta> (go (R_Len (packet_type p) 4 1 0)) (encode_varint (length (packet_body p)) @ packet_body p)
      (fin (Inr \<lparr>packet_type = packet_type p, packet_body = packet_body p\<rparr>))"
    by (rule consumes_len [OF assms(1)]) (use assms(2) in simp_all)
  then show ?thesis
    unfolding packet_bytes_def using consumes.more [of \<delta> "go R_Header" "[packet_type p]"] by (cases p) (simp add: assms(1))
qed

lemma client_reads_packet:
  assumes "length (packet_body p) < 2 ^ 28"
  shows "consumes client_step (C_Read first R_Header) (packet_bytes p) (client_got first (Inr p))"
  by (rule consumes_packet [OF _ assms]) simp

lemma broker_reads_packet:
  assumes "length (packet_body p) < 2 ^ 28"
  shows "consumes broker_step (B_Read first R_Header) (packet_bytes p) (broker_got first (Inr p))"
  by (rule consumes_packet [OF _ assms]) simp

text \<open>The short packets, as packets.\<close>

lemma short_packets:
  "packet_bytes \<lparr>packet_type = ty, packet_body = []\<rparr> = [ty, 0]"
  "packet_bytes \<lparr>packet_type = ty, packet_body = [a, b]\<rparr> = [ty, 2, a, b]"
  by (simp_all add: packet_bytes_def encode_varint_eq)

definition mqtt_opened :: "string \<times> u16 \<times> MqttVersion \<Rightarrow> (client_state, broker_state) duplex" where
  "mqtt_opened = (\<lambda>(cid, ka, v). connected (C_Connect (build_connect cid ka v)) (B_Read True R_Header))"

definition mqtt_closed :: "(client_state, broker_state) duplex" where
  "mqtt_closed = connected (C_Return (Ok ())) B_Return"

lemma mqtt_run:
  assumes "length cid < 2 ^ 28 - 13"
  shows "(step client_step broker_step)\<^sup>*\<^sup>* (mqtt_opened (cid, ka, v)) mqtt_closed"
proof -
  let ?c = "build_connect cid ka v"
  let ?S = "step client_step broker_step"
  let ?p = "\<lparr>packet_type = TYPE_CONNECT, packet_body = connect_body cid ka v\<rparr>"
  have len: "length (packet_body ?p) < 2 ^ 28" using assms by (simp add: length_connect_body)
  note send = client_transmits [where \<delta> = client_step and \<epsilon> = broker_step]
    and reply = server_transmits [where \<delta> = client_step and \<epsilon> = broker_step]
  have got: "?S\<^sup>*\<^sup>* \<lparr>client = s, server = B_Read f R_Header, to_server = packet_bytes p, to_client = d\<rparr>
      \<lparr>client = s, server = broker_got f (Inr p), to_server = [], to_client = d\<rparr>"
    if "length (packet_body p) < 2 ^ 28" for s f p d
    using server_consumes [OF broker_reads_packet [OF that], of _ _ _ "[]"] by simp
  have answer: "?S\<^sup>*\<^sup>* \<lparr>client = C_Read f R_Header, server = t, to_server = u, to_client = packet_bytes p\<rparr>
      \<lparr>client = client_got f (Inr p), server = t, to_server = u, to_client = []\<rparr>"
    if "length (packet_body p) < 2 ^ 28" for t f p u
    using client_consumes [OF client_reads_packet [OF that, where first = f],
        where \<epsilon> = broker_step and t = t and u = u and rest = "[]"] by simp
  have "?S\<^sup>*\<^sup>* (mqtt_opened (cid, ka, v)) \<lparr>client = C_Read True R_Header, server = B_Read True R_Header, to_server = ?c, to_client = []\<rparr>"
    using send [where s = "C_Connect ?c" and bs = ?c and t = "B_Read True R_Header" and u = "[]" and d = "[]"] by (simp add: mqtt_opened_def connected_def)
  also have "?S\<^sup>*\<^sup>* \<dots> \<lparr>client = C_Read True R_Header, server = B_Connack, to_server = [], to_client = []\<rparr>"
    using got [where p = ?p and f = True and s = "C_Read True R_Header" and d = "[]"] len by (simp add: build_connect_eq)
  also have "?S\<^sup>*\<^sup>* \<dots> \<lparr>client = C_Read True R_Header, server = B_Read False R_Header, to_server = [], to_client = [0x20, 2, 0, 0]\<rparr>"
    using reply [where t = B_Connack and bs = "[0x20, 2, 0, 0]" and s = "C_Read True R_Header" and u = "[]" and d = "[]"] by simp
  also have "?S\<^sup>*\<^sup>* \<dots> \<lparr>client = C_Ping, server = B_Read False R_Header, to_server = [], to_client = []\<rparr>"
    using answer [where p = "\<lparr>packet_type = 0x20, packet_body = [0, 0]\<rparr>" and f = True and t = "B_Read False R_Header" and u = "[]"]
    by (simp add: short_packets validate_connack_def)
  also have "?S\<^sup>*\<^sup>* \<dots> \<lparr>client = C_Read False R_Header, server = B_Read False R_Header, to_server = [0xC0, 0], to_client = []\<rparr>"
    using send [where s = C_Ping and bs = "[0xC0, 0]" and t = "B_Read False R_Header" and u = "[]" and d = "[]"] by simp
  also have "?S\<^sup>*\<^sup>* \<dots> \<lparr>client = C_Read False R_Header, server = B_Pingresp, to_server = [], to_client = []\<rparr>"
    using got [where p = "\<lparr>packet_type = 0xC0, packet_body = []\<rparr>" and f = False and s = "C_Read False R_Header" and d = "[]"] by (simp add: short_packets)
  also have "?S\<^sup>*\<^sup>* \<dots> \<lparr>client = C_Read False R_Header, server = B_Read False R_Header, to_server = [], to_client = [0xD0, 0]\<rparr>"
    using reply [where t = B_Pingresp and bs = "[0xD0, 0]" and s = "C_Read False R_Header" and u = "[]" and d = "[]"] by simp
  also have "?S\<^sup>*\<^sup>* \<dots> \<lparr>client = C_Disconnect, server = B_Read False R_Header, to_server = [], to_client = []\<rparr>"
    using answer [where p = "\<lparr>packet_type = 0xD0, packet_body = []\<rparr>" and f = False and t = "B_Read False R_Header" and u = "[]"]
    by (simp add: short_packets validate_pingresp_def)
  also have "?S\<^sup>*\<^sup>* \<dots> \<lparr>client = C_Return (Ok ()), server = B_Read False R_Header, to_server = [0xE0, 0], to_client = []\<rparr>"
    using send [where s = C_Disconnect and bs = "[0xE0, 0]" and t = "B_Read False R_Header" and u = "[]" and d = "[]"] by simp
  also have "?S\<^sup>*\<^sup>* \<dots> mqtt_closed"
    using got [where p = "\<lparr>packet_type = 0xE0, packet_body = []\<rparr>" and f = False and s = "C_Return (Ok ())" and d = "[]"] by (simp add: short_packets mqtt_closed_def connected_def)
  finally show ?thesis .
qed

section \<open>Properties\<close>

text \<open>
  C13. The MQTT test broker and its clients. Run against any stream, TCP or TLS, the client machine is \<open>run_session\<close>
  and the broker machine is \<open>handle_mqtt_session\<close>: result, errors and divergence. \<open>incoming()\<close> yields errors
  and connections, in any order and number; each connection comes from a ping, with its own client identifier (short
  enough for the framing), keep-alive and version; the loop accepts them one after the other and starts a thread for
  each. A step is an accept, or a read or write of one of the programs. There is a number \<open>n\<close> of steps such that no
  run is longer, and every run, from wherever it has got to, comes after \<open>n\<close> steps to the end where every ping has
  returned success, every thread has returned and no byte is left. So nothing deadlocks, no end of file is ever seen,
  a failed accept costs nobody anything, and the scheduler cannot change the outcome.
\<close>

theorem mqtt_broker_serves_all:
  assumes "list_all (\<lambda>a. case a of Inl _ \<Rightarrow> True | Inr (cid, _) \<Rightarrow> length cid < 2 ^ 28 - 13) as"
  shows "exec client_step net h (C_Connect (build_connect (case client_id of Some c \<Rightarrow> c | None \<Rightarrow> default_client_id (system_time net w)) ka v)) w =
      run_session net h client_id ka v w \<and>
    exec broker_step io i (B_Read True R_Header) = handle_mqtt_session io i \<and>
    (\<exists>n. \<forall>m s. (serving_step client_step broker_step ^^ m) (listening (map (map_sum id mqtt_opened) as)) s \<longrightarrow>
      m \<le> n \<and> (serving_step client_step broker_step ^^ (n - m)) s (all_taken (map (map_sum id (\<lambda>_. mqtt_closed)) as)))"
proof (intro conjI client_is_code broker_is_code serving_clients_end)
  show "(step client_step broker_step)\<^sup>*\<^sup>* (mqtt_opened x) mqtt_closed" if "Inr x \<in> set as" for x
    using assms that by (cases x) (auto simp: list_all_iff intro!: mqtt_run)
qed (simp_all add: mqtt_closed_def connected_def halted_def)

theorem mqtt_broker_serves_all_witness:
  "\<exists>n. \<forall>m s. (serving_step client_step broker_step ^^ m)
        (listening [Inr (mqtt_opened (''a'', 60, V3_1_1)), Inl early_eof, Inr (mqtt_opened (''b'', 0, V5))]) s \<longrightarrow>
    m \<le> n \<and> (serving_step client_step broker_step ^^ (n - m)) s (all_taken [Inr mqtt_closed, Inl early_eof, Inr mqtt_closed])"
  using mqtt_broker_serves_all [of "[Inr (''a'', 60, V3_1_1), Inl early_eof, Inr (''b'', 0, V5)]", THEN conjunct2, THEN conjunct2] by simp

text \<open>
  C15. A ping is not disturbed by the broker's other clients, which may be anything: \<open>\<gamma>\<close> is any machine, in any states,
  with any bytes under way. After any run of the broker and all of them, the ping's connection is on the way to the end
  where the ping has returned success and its thread has returned; and once the loop has accepted it, until it is at
  that end, a next step of its own towards it is possible.
\<close>

theorem mqtt_ping_undisturbed:
  assumes "length cid < 2 ^ 28 - 13" and "i < length as" and "as ! i = Inr (ours (mqtt_opened (cid, ka, v)))"
    and "(serving_step (either client_step \<gamma>) broker_step)\<^sup>*\<^sup>* (listening as) s"
  shows "\<exists>d. arrivals s ! i = Inr (ours d) \<and> (step client_step broker_step)\<^sup>*\<^sup>* d mqtt_closed \<and>
    (i < accepted s \<and> d \<noteq> mqtt_closed \<longrightarrow> (\<exists>e. step client_step broker_step d e \<and> (step client_step broker_step)\<^sup>*\<^sup>* e mqtt_closed \<and>
       serving_step (either client_step \<gamma>) broker_step s (s\<lparr>arrivals := (arrivals s)[i := Inr (ours e)]\<rparr>)))"
  by (rule undisturbed [OF mqtt_run [OF assms(1)] _ _ assms(2-4)]) (simp_all add: mqtt_closed_def connected_def halted_def)

text \<open>Beside a client that writes garbage for ever, and one that sent half a packet and waits for a gigabyte.\<close>

definition flooding :: "nat \<Rightarrow> nat action" where
  "flooding k = (if k = 0 then Receive (2 ^ 30) (\<lambda>_. 0) else Transmit [0xFF] (\<lambda>_. Suc k))"

theorem mqtt_ping_undisturbed_witness:
  "\<exists>s d. (serving_step (either client_step flooding) broker_step)\<^sup>*\<^sup>*
      (listening [Inr \<lparr>client = Inr 7, server = B_Read True R_Header, to_server = [], to_client = []\<rparr>,
        Inr (ours (mqtt_opened (''a'', 60, V3_1_1))),
        Inr \<lparr>client = Inr 0, server = B_Read True R_Header, to_server = [0x10], to_client = []\<rparr>]) s \<and>
     arrivals s \<noteq> [] \<and> arrivals s ! 1 = Inr (ours d) \<and> (step client_step broker_step)\<^sup>*\<^sup>* d mqtt_closed"
proof -
  let ?as = "[Inr \<lparr>client = Inr 7, server = B_Read True R_Header, to_server = [], to_client = []\<rparr>,
        Inr (ours (mqtt_opened (''a'', 60, V3_1_1))),
        Inr \<lparr>client = Inr 0, server = B_Read True R_Header, to_server = [0x10], to_client = []\<rparr>]
      :: (io_error + (client_state + nat, broker_state) duplex) list"
  let ?bs = "[Inr \<lparr>client = Inr 8, server = B_Read True R_Header, to_server = [0xFF], to_client = []\<rparr>,
        Inr (ours (mqtt_opened (''a'', 60, V3_1_1))),
        Inr \<lparr>client = Inr 0, server = B_Read True R_Header, to_server = [0x10], to_client = []\<rparr>]
      :: (io_error + (client_state + nat, broker_state) duplex) list"
  have "serving_step (either client_step flooding) broker_step (listening ?as) (listening ?bs)"
    using serving_step.client [of 0 "listening ?as" "\<lparr>client = Inr 7, server = B_Read True R_Header, to_server = [], to_client = []\<rparr>"
        "either client_step flooding" broker_step "\<lparr>client = Inr 8, server = B_Read True R_Header, to_server = [0xFF], to_client = []\<rparr>"]
    by (simp add: listening_def client_move_def either_def flooding_def)
  then have run: "(serving_step (either client_step flooding) broker_step)\<^sup>*\<^sup>* (listening ?as) (listening ?bs)" ..
  then show ?thesis
    using mqtt_ping_undisturbed [of "''a''" 1 ?as 60 V3_1_1, OF _ _ _ run]
    by (intro exI [of _ "listening ?bs"]) (auto simp: listening_def)
qed

end
