(* ===== verification/RtmpDuplex.thy ===== *)
theory RtmpDuplex
  imports StreamServers Serving
begin

text \<open>
  The RTMP handshake and the RTMP test server as machines, equal to the code on every stream, and what
  happens when they run against each other under any scheduler.
\<close>

section \<open>The two machines\<close>

text \<open>Where \<open>run_handshake\<close> can block; after S1 has arrived the machine carries it, to echo it as C2.\<close>

datatype shaker = S_C0_C1 bytes | S_S0 | S_S1 | S_S2 bytes | S_C2 bytes | S_Return "unit result"

definition s0_error :: "u8 \<Rightarrow> io_error" where
  "s0_error v = IoError Other (''RTMP S0 returned version '' @ dec (unat v) @ '' (expected '' @ dec (unat RTMP_VERSION) @ '')'')"

fun shaker_step :: "shaker \<Rightarrow> shaker action" where
  "shaker_step (S_C0_C1 c1) = Transmit ([RTMP_VERSION] @ c1) (\<lambda>r. case r of Inl e \<Rightarrow> S_Return (Err e) | Inr _ \<Rightarrow> S_S0)"
| "shaker_step S_S0 =
     Receive 1 (\<lambda>r. case r of Inl e \<Rightarrow> S_Return (Err e)
       | Inr s0 \<Rightarrow> if s0 ! 0 \<noteq> RTMP_VERSION then S_Return (Err (s0_error (s0 ! 0))) else S_S1)"
| "shaker_step S_S1 = Receive HANDSHAKE_PAYLOAD_LEN (\<lambda>r. case r of Inl e \<Rightarrow> S_Return (Err e) | Inr s1 \<Rightarrow> S_S2 s1)"
| "shaker_step (S_S2 s1) = Receive HANDSHAKE_PAYLOAD_LEN (\<lambda>r. case r of Inl e \<Rightarrow> S_Return (Err e) | Inr _ \<Rightarrow> S_C2 s1)"
| "shaker_step (S_C2 s1) = Transmit s1 (\<lambda>r. case r of Inl e \<Rightarrow> S_Return (Err e) | Inr _ \<Rightarrow> S_Return (Ok ()))"
| "shaker_step (S_Return r) = Halt r"

datatype rtmp_server = V_C0 | V_C1 | V_Reply bytes | V_C2 | V_Return

fun rtmp_server_step :: "rtmp_server \<Rightarrow> rtmp_server action" where
  "rtmp_server_step V_C0 =
     Receive 1 (\<lambda>r. case r of Inl e \<Rightarrow> V_Return | Inr c0 \<Rightarrow> if c0 ! 0 \<noteq> RTMP_VERSION then V_Return else V_C1)"
| "rtmp_server_step V_C1 = Receive HANDSHAKE_PAYLOAD_LEN (\<lambda>r. case r of Inl e \<Rightarrow> V_Return | Inr c1 \<Rightarrow> V_Reply c1)"
| "rtmp_server_step (V_Reply c1) =
     Transmit ([RTMP_VERSION] @ replicate HANDSHAKE_PAYLOAD_LEN 0xCD @ c1) (\<lambda>r. case r of Inl e \<Rightarrow> V_Return | Inr _ \<Rightarrow> V_C2)"
| "rtmp_server_step V_C2 = Receive HANDSHAKE_PAYLOAD_LEN (\<lambda>_. V_Return)"
| "rtmp_server_step V_Return = Halt (Ok ())"

section \<open>The machines are the code\<close>

lemma shaker_is_code: "exec shaker_step net h (S_C0_C1 (build_c1 (system_time net w))) w = run_handshake net h w"
  by (simp add: run_handshake_def Let_def exec_Transmit exec_Receive exec_Halt s0_error_def io_bind_catch if_distrib
      cong: if_cong del: One_nat_def io_lift_apply replicate.simps)

lemma rtmp_server_is_code: "exec rtmp_server_step io h V_C0 = rtmp_ok_conn io h"
  by (simp add: rtmp_ok_conn_def Let_def exec_Transmit exec_Receive exec_Halt ignore_def if_distrib
      cong: if_cong del: One_nat_def io_lift_apply replicate.simps)

section \<open>A run\<close>

definition rtmp_opened :: "bytes \<Rightarrow> (shaker, rtmp_server) duplex" where
  "rtmp_opened c1 = connected (S_C0_C1 c1) V_C0"

definition rtmp_closed :: "(shaker, rtmp_server) duplex" where
  "rtmp_closed = connected (S_Return (Ok ())) V_Return"

lemma shaker_reads:
  assumes "length s1 = HANDSHAKE_PAYLOAD_LEN" and "length s2 = HANDSHAKE_PAYLOAD_LEN"
  shows "consumes shaker_step S_S0 ([RTMP_VERSION] @ s1 @ s2) (S_C2 s1)"
proof -
  have two: "consumes shaker_step (S_S2 s1) (s2 @ []) (S_C2 s1)"
    by (rule consumes.more [where k = "\<lambda>r. case r of Inl e \<Rightarrow> S_Return (Err e) | Inr _ \<Rightarrow> S_C2 s1"])
      (simp_all add: assms(2) consumes.nothing)
  have one: "consumes shaker_step S_S1 (s1 @ s2) (S_C2 s1)"
    by (rule consumes.more [where k = "\<lambda>r. case r of Inl e \<Rightarrow> S_Return (Err e) | Inr s1 \<Rightarrow> S_S2 s1"])
      (use two in \<open>simp_all add: assms(1)\<close>)
  show ?thesis
    by (rule consumes.more [where k = "\<lambda>r. case r of Inl e \<Rightarrow> S_Return (Err e)
       | Inr s0 \<Rightarrow> if s0 ! 0 \<noteq> RTMP_VERSION then S_Return (Err (s0_error (s0 ! 0))) else S_S1"]) (use one in simp_all)
qed

lemma rtmp_server_reads:
  assumes "length c1 = HANDSHAKE_PAYLOAD_LEN"
  shows "consumes rtmp_server_step V_C0 ([RTMP_VERSION] @ c1) (V_Reply c1)"
proof -
  have one: "consumes rtmp_server_step V_C1 (c1 @ []) (V_Reply c1)"
    by (rule consumes.more [where k = "\<lambda>r. case r of Inl e \<Rightarrow> V_Return | Inr c1 \<Rightarrow> V_Reply c1"])
      (simp_all add: assms consumes.nothing)
  show ?thesis
    by (rule consumes.more [where k = "\<lambda>r. case r of Inl e \<Rightarrow> V_Return | Inr c0 \<Rightarrow> if c0 ! 0 \<noteq> RTMP_VERSION then V_Return else V_C1"])
      (use one in simp_all)
qed

lemma rtmp_server_reads_c2:
  assumes "length c2 = HANDSHAKE_PAYLOAD_LEN"
  shows "consumes rtmp_server_step V_C2 c2 V_Return"
  using consumes.more [of rtmp_server_step V_C2 c2 "\<lambda>_. V_Return" "[]", OF _ consumes.nothing] assms by simp

lemma rtmp_run:
  assumes "length c1 = HANDSHAKE_PAYLOAD_LEN"
  shows "(step shaker_step rtmp_server_step)\<^sup>*\<^sup>* (rtmp_opened c1) rtmp_closed"
proof -
  let ?S = "step shaker_step rtmp_server_step"
  let ?s1 = "replicate HANDSHAKE_PAYLOAD_LEN 0xCD :: bytes"
  note send = client_transmits [where \<delta> = shaker_step and \<epsilon> = rtmp_server_step]
    and reply = server_transmits [where \<delta> = shaker_step and \<epsilon> = rtmp_server_step]
  have "?S\<^sup>*\<^sup>* (rtmp_opened c1) \<lparr>client = S_S0, server = V_C0, to_server = [RTMP_VERSION] @ c1, to_client = []\<rparr>"
    using send [where s = "S_C0_C1 c1" and bs = "[RTMP_VERSION] @ c1" and t = V_C0 and u = "[]" and d = "[]"] by (simp add: rtmp_opened_def connected_def)
  also have "?S\<^sup>*\<^sup>* \<dots> \<lparr>client = S_S0, server = V_Reply c1, to_server = [], to_client = []\<rparr>"
    using server_consumes [OF rtmp_server_reads [OF assms], where \<delta> = shaker_step and s = S_S0 and rest = "[]" and d = "[]"] by simp
  also have "?S\<^sup>*\<^sup>* \<dots> \<lparr>client = S_S0, server = V_C2, to_server = [], to_client = [RTMP_VERSION] @ ?s1 @ c1\<rparr>"
    using reply [where t = "V_Reply c1" and bs = "[RTMP_VERSION] @ ?s1 @ c1" and s = S_S0 and u = "[]" and d = "[]"] by simp
  also have "?S\<^sup>*\<^sup>* \<dots> \<lparr>client = S_C2 ?s1, server = V_C2, to_server = [], to_client = []\<rparr>"
    using client_consumes [OF shaker_reads [of ?s1 c1], where \<epsilon> = rtmp_server_step and t = V_C2 and u = "[]" and rest = "[]"] assms
    by (simp del: replicate.simps)
  also have "?S\<^sup>*\<^sup>* \<dots> \<lparr>client = S_Return (Ok ()), server = V_C2, to_server = ?s1, to_client = []\<rparr>"
    using send [where s = "S_C2 ?s1" and bs = ?s1 and t = V_C2 and u = "[]" and d = "[]"] by (simp del: replicate.simps)
  also have "?S\<^sup>*\<^sup>* \<dots> rtmp_closed"
    using server_consumes [OF rtmp_server_reads_c2 [of ?s1], where \<delta> = shaker_step and s = "S_Return (Ok ())" and rest = "[]" and d = "[]"]
    by (simp add: rtmp_closed_def connected_def del: replicate.simps)
  finally show ?thesis .
qed

section \<open>Properties\<close>

text \<open>
  C16. The RTMP handshake of the ping and the RTMP test server are the two machines; and for any errors and
  connections that \<open>incoming()\<close> yields, each connection from a ping with the C1 of its own clock, there is a
  number \<open>n\<close> of steps (accepts, reads and writes, in any order) such that no run is longer and every run comes
  after \<open>n\<close> steps to the end where every ping has returned success, every thread has returned and no byte is left.
  Here each side writes in one call what the other reads in several.
\<close>

theorem rtmp_server_serves_all:
  "exec shaker_step net h (S_C0_C1 (build_c1 (system_time net w))) w = run_handshake net h w \<and>
   exec rtmp_server_step io i V_C0 = rtmp_ok_conn io i \<and>
   (\<exists>n. \<forall>m s. (serving_step shaker_step rtmp_server_step ^^ m) (listening (map (map_sum id (\<lambda>now. rtmp_opened (build_c1 now))) as)) s \<longrightarrow>
      m \<le> n \<and> (serving_step shaker_step rtmp_server_step ^^ (n - m)) s (all_taken (map (map_sum id (\<lambda>_. rtmp_closed)) as)))"
  by (intro conjI shaker_is_code rtmp_server_is_code serving_clients_end rtmp_run)
    (simp_all add: rtmp_closed_def connected_def halted_def)

theorem rtmp_server_serves_all_witness:
  "\<exists>n. \<forall>m s. (serving_step shaker_step rtmp_server_step ^^ m)
        (listening [Inr (rtmp_opened (build_c1 None)), Inl early_eof, Inr (rtmp_opened (build_c1 (Some (1, 5))))]) s \<longrightarrow>
    m \<le> n \<and> (serving_step shaker_step rtmp_server_step ^^ (n - m)) s (all_taken [Inr rtmp_closed, Inl early_eof, Inr rtmp_closed])"
  using rtmp_server_serves_all [of _ _ _ _ _ "[Inr None, Inl early_eof, Inr (Some (1, 5))]", THEN conjunct2, THEN conjunct2] by simp

end
