(* ===== verification/Features.thy ===== *)
theory Features
  imports Prelude
begin

text \<open>
  Conditional compilation of \<open>zpinger\<close>: the features of its \<open>Cargo.toml\<close>, the \<open>#[cfg]\<close> attributes of \<open>lib.rs\<close>,
  \<open>util.rs\<close>, \<open>level4.rs\<close> and \<open>stun.rs\<close>, and what each item refers to. The test modules are left out.
\<close>

section \<open>Features\<close>

datatype feature = Tcp | Udp | Dns | Http | Ws | Mqtt | GRPC | Hls | Tls | Ntp | Stun | Turn | Rtsp | Rtmp | Quic | TlsStack

text \<open>A \<open>cfg\<close> predicate, and its value for a set of features.\<close>

datatype cfg = Always | Feature feature | Any "feature list"

type_synonym selection = "feature \<Rightarrow> bool"

fun holds :: "selection \<Rightarrow> cfg \<Rightarrow> bool" where
  "holds sel Always = True"
| "holds sel (Feature f) = sel f"
| "holds sel (Any fs) = list_ex sel fs"

text \<open>
  Cargo turns on the features that a feature lists: the seven protocols over rustls list \<open>_tls\<close>. Optional
  dependencies are turned on by the features that list \<open>dep:\<close> and the crate.
\<close>

definition resolved :: "selection \<Rightarrow> selection" where
  "resolved sel f = (sel f \<or> f = TlsStack \<and> list_ex sel [Http, Ws, Mqtt, Hls, Tls, Rtsp, Rtmp])"

datatype crate_name = Async_trait | Regex_crate | Tokio | Futures_util | Rustls | Rustls_pki_types | Tokio_rustls
  | Tokio_tungstenite | Tonic_crate | Tonic_health | Webpki_roots | Quinn_crate

fun enabled_by :: "crate_name \<Rightarrow> cfg" where
  "enabled_by Async_trait = Always"
| "enabled_by Regex_crate = Always"
| "enabled_by Tokio = Always"
| "enabled_by Futures_util = Feature Ws"
| "enabled_by Rustls = Any [Quic, TlsStack]"
| "enabled_by Rustls_pki_types = Any [Quic, TlsStack]"
| "enabled_by Tokio_rustls = Feature TlsStack"
| "enabled_by Tokio_tungstenite = Feature Ws"
| "enabled_by Tonic_crate = Feature GRPC"
| "enabled_by Tonic_health = Feature GRPC"
| "enabled_by Webpki_roots = Any [Quic, TlsStack]"
| "enabled_by Quinn_crate = Feature Quic"

section \<open>Modules\<close>

datatype rust_module = M_crate | M_pinger | M_uri | M_util | M_tls | M_level4 | M_dns | M_http | M_websocket | M_mqtt | M_grpc | M_hls
  | M_tls_handshake | M_ntp | M_stun | M_turn | M_rtsp | M_rtmp | M_quic

fun module_cfg :: "rust_module \<Rightarrow> cfg" where
  "module_cfg M_crate = Always"
| "module_cfg M_pinger = Always"
| "module_cfg M_uri = Always"
| "module_cfg M_util = Always"
| "module_cfg M_tls = Feature TlsStack"
| "module_cfg M_level4 = Any [Tcp, Udp]"
| "module_cfg M_dns = Feature Dns"
| "module_cfg M_http = Feature Http"
| "module_cfg M_websocket = Feature Ws"
| "module_cfg M_mqtt = Feature Mqtt"
| "module_cfg M_grpc = Feature GRPC"
| "module_cfg M_hls = Feature Hls"
| "module_cfg M_tls_handshake = Feature Tls"
| "module_cfg M_ntp = Feature Ntp"
| "module_cfg M_stun = Any [Stun, Turn]"
| "module_cfg M_turn = Feature Turn"
| "module_cfg M_rtsp = Feature Rtsp"
| "module_cfg M_rtmp = Feature Rtmp"
| "module_cfg M_quic = Feature Quic"

section \<open>Items\<close>

text \<open>
  An item with its own \<open>cfg\<close>, whether it leaves the crate, and the items and crates it names. An import is an
  item too: one that names what it imports and that the code of its module uses. The items of a module
  without \<open>cfg\<close> attributes are one item, with the crate imports of that module, under the name of its pinger;
  a second name that \<open>lib.rs\<close> re-exports from such a module is a use of that item.
\<close>

record item =
  it_module :: rust_module
  it_name :: string
  it_cfg :: cfg
  it_public :: bool
  it_uses :: "(rust_module \<times> string) list"
  it_crates :: "crate_name list"

definition compiled :: "selection \<Rightarrow> item \<Rightarrow> bool" where
  "compiled sel i = (holds sel (module_cfg (it_module i)) \<and> holds sel (it_cfg i))"

definition exported :: "rust_module \<Rightarrow> string \<Rightarrow> cfg \<Rightarrow> (rust_module \<times> string) list \<Rightarrow> crate_name list \<Rightarrow> item" where
  "exported m n c us cs = \<lparr>it_module = m, it_name = n, it_cfg = c, it_public = True, it_uses = us, it_crates = cs\<rparr>"

definition internal :: "rust_module \<Rightarrow> string \<Rightarrow> cfg \<Rightarrow> (rust_module \<times> string) list \<Rightarrow> crate_name list \<Rightarrow> item" where
  "internal m n c us cs = \<lparr>it_module = m, it_name = n, it_cfg = c, it_public = False, it_uses = us, it_crates = cs\<rparr>"

text \<open>\<open>lib.rs\<close>: the re-exports, each under its own \<open>cfg\<close>, and the crate's constants.\<close>

definition lib_items :: "item list" where
  "lib_items =
     [exported M_crate ''pinger::{timed, Pinger}'' Always [(M_pinger, ''Pinger'')] [],
      exported M_crate ''default_client_config'' (Feature TlsStack) [(M_tls, ''default_client_config'')] [],
      exported M_crate ''ClientConfig'' (Feature TlsStack) [] [Rustls],
      exported M_crate ''TcpPinger'' (Feature Tcp) [(M_level4, ''TcpPinger'')] [],
      exported M_crate ''UdpPinger'' (Feature Udp) [(M_level4, ''UdpPinger'')] [],
      exported M_crate ''DnsPinger'' (Feature Dns) [(M_dns, ''DnsPinger'')] [],
      exported M_crate ''RecordType'' (Feature Dns) [(M_dns, ''DnsPinger'')] [],
      exported M_crate ''HttpMethod'' (Feature Http) [(M_http, ''HttpPinger'')] [],
      exported M_crate ''HttpPinger'' (Feature Http) [(M_http, ''HttpPinger'')] [],
      exported M_crate ''WebSocketPinger'' (Feature Ws) [(M_websocket, ''WebSocketPinger'')] [],
      exported M_crate ''MqttPinger'' (Feature Mqtt) [(M_mqtt, ''MqttPinger'')] [],
      exported M_crate ''MqttVersion'' (Feature Mqtt) [(M_mqtt, ''MqttPinger'')] [],
      exported M_crate ''GrpcPinger'' (Feature GRPC) [(M_grpc, ''GrpcPinger'')] [],
      exported M_crate ''GrpcStreamPinger'' (Feature GRPC) [(M_grpc, ''GrpcPinger'')] [],
      exported M_crate ''HlsPinger'' (Feature Hls) [(M_hls, ''HlsPinger'')] [],
      exported M_crate ''TlsPinger'' (Feature Tls) [(M_tls_handshake, ''TlsPinger'')] [],
      exported M_crate ''NtpPinger'' (Feature Ntp) [(M_ntp, ''NtpPinger'')] [],
      exported M_crate ''StunPinger'' (Feature Stun) [(M_stun, ''StunPinger'')] [],
      exported M_crate ''TurnPinger'' (Feature Turn) [(M_turn, ''TurnPinger'')] [],
      exported M_crate ''RtspPinger'' (Feature Rtsp) [(M_rtsp, ''RtspPinger'')] [],
      exported M_crate ''RtmpPinger'' (Feature Rtmp) [(M_rtmp, ''RtmpPinger'')] [],
      exported M_crate ''QuicPinger'' (Feature Quic) [(M_quic, ''QuicPinger'')] [],
      internal M_crate ''BUF_SIZE'' (Any [Tcp, Udp, Http]) [] [],
      internal M_crate ''HTTP_UNCONNECT_STATUS_CODE'' (Feature Http) [] [],
      exported M_crate ''resolve'' Always [(M_uri, ''get_uri'')] [Tokio]]"

text \<open>\<open>util.rs\<close>: the same list of features four times, for the three imports and the function.\<close>

definition util_items :: "item list" where
  "util_items =
     [internal M_util ''io'' (Any [Tcp, Udp, Dns, Http, Ws, Mqtt, Hls, Tls, Ntp, Stun, Turn, Rtsp, Rtmp]) [] [],
      internal M_util ''Duration'' (Any [Tcp, Udp, Dns, Http, Ws, Mqtt, Hls, Tls, Ntp, Stun, Turn, Rtsp, Rtmp]) [] [],
      internal M_util ''timeout'' (Any [Tcp, Udp, Dns, Http, Ws, Mqtt, Hls, Tls, Ntp, Stun, Turn, Rtsp, Rtmp]) [] [Tokio],
      internal M_util ''with_timeout'' (Any [Tcp, Udp, Dns, Http, Ws, Mqtt, Hls, Tls, Ntp, Stun, Turn, Rtsp, Rtmp])
        [(M_util, ''io''), (M_util, ''Duration''), (M_util, ''timeout'')] []]"

text \<open>\<open>level4.rs\<close>\<close>

definition level4_items :: "item list" where
  "level4_items =
     [internal M_level4 ''use with_timeout'' Always [(M_util, ''with_timeout'')] [],
      internal M_level4 ''use BUF_SIZE'' Always [(M_crate, ''BUF_SIZE'')] [],
      internal M_level4 ''use Pinger'' Always [(M_pinger, ''Pinger'')] [],
      internal M_level4 ''use async_trait'' Always [] [Async_trait],
      internal M_level4 ''DEFAULT_TIMEOUT'' (Any [Tcp, Udp]) [] [],
      internal M_level4 ''TcpPinger'' (Feature Tcp)
        [(M_level4, ''use with_timeout''), (M_level4, ''use BUF_SIZE''), (M_level4, ''use Pinger''), (M_level4, ''use async_trait''),
         (M_level4, ''DEFAULT_TIMEOUT'')] [Tokio],
      internal M_level4 ''UdpPinger'' (Feature Udp)
        [(M_level4, ''use with_timeout''), (M_level4, ''use BUF_SIZE''), (M_level4, ''use Pinger''), (M_level4, ''use async_trait''),
         (M_level4, ''DEFAULT_TIMEOUT'')] [Tokio]]"

text \<open>\<open>stun.rs\<close>, half of which is compiled for \<open>turn\<close> alone.\<close>

definition stun_items :: "item list" where
  "stun_items =
     [internal M_stun ''use io'' Always [] [],
      internal M_stun ''use Duration'' (Feature Stun) [] [],
      internal M_stun ''use SystemTime'' Always [] [],
      internal M_stun ''use async_trait'' (Feature Stun) [] [Async_trait],
      internal M_stun ''use UdpSocket'' (Feature Stun) [] [Tokio],
      internal M_stun ''use Pinger'' (Feature Stun) [(M_pinger, ''Pinger'')] [],
      internal M_stun ''use get_uri'' Always [(M_uri, ''get_uri'')] [],
      internal M_stun ''use with_timeout'' (Feature Stun) [(M_util, ''with_timeout'')] [],
      internal M_stun ''DEFAULT_TIMEOUT'' (Feature Stun) [(M_stun, ''use Duration'')] [],
      internal M_stun ''DEFAULT_PORT'' (Feature Stun) [] [],
      internal M_stun ''BUF_SIZE'' (Feature Stun) [] [],
      internal M_stun ''STUN_HEADER_LEN'' Always [] [],
      internal M_stun ''STUN_TXID_LEN'' Always [] [],
      internal M_stun ''MAGIC_COOKIE'' Always [] [],
      internal M_stun ''MSG_BINDING_REQUEST'' (Feature Stun) [] [],
      internal M_stun ''MSG_BINDING_SUCCESS'' (Feature Stun) [] [],
      internal M_stun ''StunPinger'' (Feature Stun)
        [(M_stun, ''use Pinger''), (M_stun, ''use async_trait''), (M_stun, ''use UdpSocket''), (M_stun, ''use Duration''),
         (M_stun, ''use with_timeout''), (M_stun, ''DEFAULT_TIMEOUT''), (M_stun, ''DEFAULT_PORT''), (M_stun, ''BUF_SIZE''),
         (M_stun, ''MSG_BINDING_REQUEST''), (M_stun, ''server_endpoint''), (M_stun, ''random_transaction_id''),
         (M_stun, ''build_header''), (M_stun, ''validate_binding_response'')] [],
      internal M_stun ''server_endpoint'' Always [(M_stun, ''use get_uri''), (M_stun, ''use io'')] [],
      internal M_stun ''build_message'' (Feature Turn)
        [(M_stun, ''build_header''), (M_stun, ''STUN_TXID_LEN''), (M_stun, ''STUN_HEADER_LEN'')] [],
      internal M_stun ''build_header'' (Any [Stun, Turn])
        [(M_stun, ''STUN_TXID_LEN''), (M_stun, ''STUN_HEADER_LEN''), (M_stun, ''MAGIC_COOKIE'')] [],
      internal M_stun ''random_transaction_id'' Always [(M_stun, ''use SystemTime''), (M_stun, ''STUN_TXID_LEN'')] [],
      internal M_stun ''validate_binding_response'' (Feature Stun)
        [(M_stun, ''validate_response_header''), (M_stun, ''MSG_BINDING_SUCCESS''), (M_stun, ''STUN_TXID_LEN'')] [],
      internal M_stun ''validate_response_header'' Always
        [(M_stun, ''STUN_HEADER_LEN''), (M_stun, ''STUN_TXID_LEN''), (M_stun, ''MAGIC_COOKIE''), (M_stun, ''use io'')] []]"

text \<open>
  The modules without \<open>cfg\<close> attributes, each as the item that \<open>lib.rs\<close> or another module names, with the
  imports from the crate and the crates at the top of its file and in its functions; \<open>std\<close> is always there.
\<close>

definition pinger_item :: item where
  "pinger_item = internal M_pinger ''Pinger'' Always [] [Async_trait]"

definition uri_item :: item where
  "uri_item = exported M_uri ''get_uri'' Always [] [Regex_crate]"

definition tls_item :: item where
  "tls_item = internal M_tls ''default_client_config'' Always [] [Rustls, Webpki_roots]"

definition dns_item :: item where
  "dns_item = internal M_dns ''DnsPinger'' Always [(M_pinger, ''Pinger''), (M_uri, ''get_uri''), (M_util, ''with_timeout'')] [Async_trait, Tokio]"

definition http_item :: item where
  "http_item = internal M_http ''HttpPinger'' Always
     [(M_pinger, ''Pinger''), (M_tls, ''default_client_config''), (M_uri, ''get_uri''), (M_util, ''with_timeout''),
     (M_crate, ''BUF_SIZE''), (M_crate, ''HTTP_UNCONNECT_STATUS_CODE'')] [Async_trait, Rustls, Tokio, Tokio_rustls]"

definition websocket_item :: item where
  "websocket_item = internal M_websocket ''WebSocketPinger'' Always
     [(M_pinger, ''Pinger''), (M_tls, ''default_client_config''), (M_uri, ''get_uri''), (M_util, ''with_timeout'')]
     [Async_trait, Futures_util, Rustls, Tokio, Tokio_rustls, Tokio_tungstenite]"

definition mqtt_item :: item where
  "mqtt_item = internal M_mqtt ''MqttPinger'' Always
     [(M_pinger, ''Pinger''), (M_tls, ''default_client_config''), (M_uri, ''get_uri''), (M_util, ''with_timeout'')]
     [Async_trait, Rustls, Tokio, Tokio_rustls]"

definition grpc_item :: item where
  "grpc_item = internal M_grpc ''GrpcPinger'' Always [(M_pinger, ''Pinger''), (M_uri, ''get_uri'')] [Async_trait, Tonic_crate, Tonic_health]"

definition hls_item :: item where
  "hls_item = internal M_hls ''HlsPinger'' Always
     [(M_pinger, ''Pinger''), (M_tls, ''default_client_config''), (M_uri, ''get_uri''), (M_util, ''with_timeout'')]
     [Async_trait, Rustls, Tokio, Tokio_rustls]"

definition tls_handshake_item :: item where
  "tls_handshake_item = internal M_tls_handshake ''TlsPinger'' Always
     [(M_pinger, ''Pinger''), (M_tls, ''default_client_config''), (M_uri, ''get_uri''), (M_util, ''with_timeout'')]
     [Async_trait, Rustls, Tokio, Tokio_rustls]"

definition ntp_item :: item where
  "ntp_item = internal M_ntp ''NtpPinger'' Always [(M_pinger, ''Pinger''), (M_uri, ''get_uri''), (M_util, ''with_timeout'')] [Async_trait, Tokio]"

definition turn_item :: item where
  "turn_item = internal M_turn ''TurnPinger'' Always
     [(M_pinger, ''Pinger''), (M_stun, ''build_message''), (M_stun, ''random_transaction_id''), (M_stun, ''server_endpoint''),
     (M_stun, ''validate_response_header''), (M_stun, ''STUN_HEADER_LEN''), (M_stun, ''STUN_TXID_LEN''), (M_util, ''with_timeout'')]
     [Async_trait, Tokio]"

definition rtsp_item :: item where
  "rtsp_item = internal M_rtsp ''RtspPinger'' Always
     [(M_pinger, ''Pinger''), (M_tls, ''default_client_config''), (M_uri, ''get_uri''), (M_util, ''with_timeout'')]
     [Async_trait, Rustls, Tokio, Tokio_rustls]"

definition rtmp_item :: item where
  "rtmp_item = internal M_rtmp ''RtmpPinger'' Always
     [(M_pinger, ''Pinger''), (M_tls, ''default_client_config''), (M_uri, ''get_uri''), (M_util, ''with_timeout'')]
     [Async_trait, Rustls, Tokio, Tokio_rustls]"

definition quic_item :: item where
  "quic_item = internal M_quic ''QuicPinger'' Always [(M_pinger, ''Pinger''), (M_uri, ''get_uri'')]
     [Async_trait, Quinn_crate, Rustls, Tokio, Webpki_roots]"

definition plain_items :: "item list" where
  "plain_items =
     [pinger_item, uri_item, tls_item, dns_item, http_item, websocket_item, mqtt_item,
      grpc_item, hls_item, tls_handshake_item, ntp_item, turn_item, rtsp_item, rtmp_item,
      quic_item]"

definition items :: "item list" where
  "items = lib_items @ util_items @ level4_items @ stun_items @ plain_items"

text \<open>What a path names, and the items of a module.\<close>

definition named :: "rust_module \<times> string \<Rightarrow> item \<Rightarrow> bool" where
  "named u i = (if it_module i = fst u then it_name i = snd u else False)"

definition in_module :: "rust_module \<Rightarrow> item list" where
  "in_module m = (case m of
     M_crate \<Rightarrow> lib_items | M_util \<Rightarrow> util_items | M_level4 \<Rightarrow> level4_items | M_stun \<Rightarrow> stun_items
   | _ \<Rightarrow> plain_items)"

section \<open>A build\<close>

text \<open>
  What rustc checks of a selection: every name that a compiled item uses is compiled, and every crate
  turned on; and, so that it has nothing to warn about, everything compiled that does not leave the
  crate is used by something compiled.
\<close>

definition resolves_names :: "selection \<Rightarrow> item \<Rightarrow> bool" where
  "resolves_names sel i =
     (list_all (\<lambda>u. list_ex (\<lambda>j. if named u j then compiled sel j else False) (in_module (fst u))) (it_uses i) \<and>
      list_all (\<lambda>c. holds sel (enabled_by c)) (it_crates i))"

definition is_used :: "selection \<Rightarrow> item \<Rightarrow> bool" where
  "is_used sel i = (if it_public i then True
     else list_ex (\<lambda>j. if list_ex (\<lambda>u. named u i) (it_uses j) then compiled sel j else False) items)"

definition builds_clean :: "selection \<Rightarrow> bool" where
  "builds_clean sel = list_all (\<lambda>i. compiled sel i \<longrightarrow> resolves_names sel i \<and> is_used sel i) items"

definition exports :: "selection \<Rightarrow> string list" where
  "exports sel = map it_name (filter (\<lambda>i. compiled sel i \<and> it_public i) lib_items)"


section \<open>One check for each way to turn an item on\<close>

text \<open>The minimal selections under which an item is compiled.\<close>

fun alternatives :: "cfg \<Rightarrow> feature list list" where
  "alternatives Always = [[]]"
| "alternatives (Feature f) = [[f]]"
| "alternatives (Any fs) = map (\<lambda>f. [f]) fs"

definition clauses :: "item \<Rightarrow> feature list list" where
  "clauses i = concat (map (\<lambda>a. map ((@) a) (alternatives (it_cfg i))) (alternatives (module_cfg (it_module i))))"

definition only :: "feature list \<Rightarrow> selection" where
  "only fs f = (f \<in> set fs)"

lemma holds_mono: "holds sel c \<Longrightarrow> sel \<le> sel' \<Longrightarrow> holds sel' c"
  by (cases c) (auto simp: list_ex_iff)

lemma holds_alternatives: "holds sel c \<longleftrightarrow> (\<exists>a \<in> set (alternatives c). list_all sel a)"
  by (cases c) (auto simp: list_ex_iff)

lemma compiled_mono: "compiled sel i \<Longrightarrow> sel \<le> sel' \<Longrightarrow> compiled sel' i"
  unfolding compiled_def by (blast intro: holds_mono)

lemma compiled_clauses: "compiled sel i \<longleftrightarrow> (\<exists>c \<in> set (clauses i). list_all sel c)"
  by (auto simp: compiled_def clauses_def holds_alternatives)

lemma resolves_names_mono: "resolves_names sel i \<Longrightarrow> sel \<le> sel' \<Longrightarrow> resolves_names sel' i"
  unfolding resolves_names_def list_all_iff list_ex_iff by (meson compiled_mono holds_mono)

lemma is_used_mono: "is_used sel i \<Longrightarrow> sel \<le> sel' \<Longrightarrow> is_used sel' i"
  unfolding is_used_def list_ex_iff by (meson compiled_mono)

lemma resolved_least: "list_all (resolved sel) fs \<Longrightarrow> resolved (only fs) \<le> resolved sel"
  by (auto simp: le_fun_def resolved_def only_def list_all_iff)

definition checked :: "item \<Rightarrow> bool" where
  "checked i = list_all (\<lambda>c. resolves_names (resolved (only c)) i \<and> is_used (resolved (only c)) i) (clauses i)"

lemma clauses_suffice:
  assumes "list_all checked items"
  shows "builds_clean (resolved sel)"
  unfolding builds_clean_def list_all_iff
proof (intro ballI impI)
  fix i assume i: "i \<in> set items" "compiled (resolved sel) i"
  then obtain c where c: "c \<in> set (clauses i)" "list_all (resolved sel) c" by (auto simp: compiled_clauses)
  from assms i(1) c(1) have "resolves_names (resolved (only c)) i" "is_used (resolved (only c)) i" by (auto simp: list_all_iff checked_def)
  then show "resolves_names (resolved sel) i \<and> is_used (resolved sel) i"
    using resolved_least [OF c(2)] by (blast intro: resolves_names_mono is_used_mono)
qed

lemma lib_checked: "list_all checked lib_items"
  by code_simp

lemma util_checked: "list_all checked util_items"
  by code_simp

lemma level4_checked: "list_all checked level4_items"
  by code_simp

lemma stun_checked: "list_all checked stun_items"
  by code_simp

lemma plain_checked: "list_all checked plain_items"
  by code_simp

section \<open>Properties\<close>

text \<open>The pinger that each protocol's feature is for.\<close>

definition protocol_pingers :: "(feature \<times> string) list" where
  "protocol_pingers =
     [(Tcp, ''TcpPinger''), (Udp, ''UdpPinger''), (Dns, ''DnsPinger''), (Http, ''HttpPinger''), (Ws, ''WebSocketPinger''), (Mqtt, ''MqttPinger''),
      (GRPC, ''GrpcPinger''), (GRPC, ''GrpcStreamPinger''), (Hls, ''HlsPinger''), (Tls, ''TlsPinger''), (Ntp, ''NtpPinger''), (Stun, ''StunPinger''), (Turn, ''TurnPinger''),
      (Rtsp, ''RtspPinger''), (Rtmp, ''RtmpPinger''), (Quic, ''QuicPinger'')]"

lemma exports_iff:
  "p \<in> set (exports sel) \<longleftrightarrow> list_ex (\<lambda>i. if it_name i = p then compiled sel i \<and> it_public i else False) lib_items"
  by (auto simp: exports_def list_ex_iff)

lemma exports_pingers: "list_all (\<lambda>(f, p). p \<in> set (exports (resolved sel)) \<longleftrightarrow> sel f) protocol_pingers"
  unfolding exports_iff
  by (simp add: protocol_pingers_def lib_items_def exported_def internal_def compiled_def resolved_def)

text \<open>
  C8. Features. Whatever features of \<open>zpinger\<close> are selected, every name used in the code that is compiled is
  compiled, with its crates, nothing private is compiled without a use, and the crate exports the pinger of
  a protocol exactly when its feature is selected; \<open>turn\<close>, which compiles \<open>stun.rs\<close>, does not export
  \<open>StunPinger\<close>. That \<open>http\<close> lists \<open>_tls\<close> in \<open>Cargo.toml\<close> is needed.
\<close>

theorem features_build_clean:
  "builds_clean (resolved sel) \<and>
   list_all (\<lambda>(f, p). p \<in> set (exports (resolved sel)) \<longleftrightarrow> sel f) protocol_pingers \<and>
   \<not> builds_clean (only [Http])"
proof (intro conjI exports_pingers)
  show "builds_clean (resolved sel)"
    by (rule clauses_suffice) (simp add: items_def lib_checked util_checked level4_checked stun_checked plain_checked)
  have "compiled (only [Http]) i \<and> \<not> resolves_names (only [Http]) i" if "i = plain_items ! 4" for i
    unfolding that by code_simp
  moreover have "plain_items ! 4 \<in> set items" by (simp add: items_def plain_items_def)
  ultimately show "\<not> builds_clean (only [Http])" unfolding builds_clean_def list_all_iff by blast
qed

end
