(* ===== verification/TlsHandshake.thy ===== *)
theory TlsHandshake
  imports Lab
begin

text \<open>
  \<open>zpinger/src/tls_handshake.rs\<close>: the TLS pinger. The handshake itself is rustls, a parameter.
\<close>

section \<open>Definitions\<close>

abbreviation TLS_DEFAULT_PORT :: u16 where "TLS_DEFAULT_PORT \<equiv> 443"

record 'c TlsPinger =
  tls_target :: string
  tls_timeout :: duration
  tls_config :: "'c option"

definition TlsPinger_new :: "string \<Rightarrow> 'c TlsPinger" where
  "TlsPinger_new target = \<lparr>tls_target = target, tls_timeout = from_secs 5, tls_config = None\<rparr>"

definition TlsPinger_with_timeout :: "'c TlsPinger \<Rightarrow> duration \<Rightarrow> 'c TlsPinger" where
  "TlsPinger_with_timeout self t = self\<lparr>tls_timeout := t\<rparr>"

definition TlsPinger_with_tls_config :: "'c TlsPinger \<Rightarrow> 'c \<Rightarrow> 'c TlsPinger" where
  "TlsPinger_with_tls_config self config = self\<lparr>tls_config := Some config\<rparr>"

definition tls_ping :: "('w, 'h, 'c) net \<Rightarrow> 'c TlsPinger \<Rightarrow> ('w, unit) io" where
  "tls_ping net self =
     io_bind (io_lift (get_uri (net_regex net) (tls_target self))) (\<lambda>uri.
       if uri_domain uri = [] then io_err (IoError InvalidInput ''TLS target is missing a host'')
       else
         (let port = (if 0 < uri_port uri then as_u16 (uri_port uri) else TLS_DEFAULT_PORT);
              endpoint = uri_domain uri @ '':'' @ dec (unat port)
          in case server_name_error net (uri_domain uri) of
               Some e \<Rightarrow> io_err (IoError InvalidInput e)
             | None \<Rightarrow>
                 (let config = (case tls_config self of Some c \<Rightarrow> c | None \<Rightarrow> default_client_config net)
                  in with_timeout net (tls_timeout self)
                       (io_bind (tcp_connect net endpoint) (\<lambda>tcp.
                        io_bind (tls_connect net config (uri_domain uri) tcp) (\<lambda>_.
                        io_ok ()))))))"

text \<open>The address dialed, as the other pingers compute it.\<close>

definition tls_dial :: "engine \<Rightarrow> string \<Rightarrow> string result" where
  "tls_dial rx s = bind_r (get_uri rx s) (\<lambda>uri.
     if uri_domain uri = [] then err_invalid ''TLS target is missing a host''
     else Ok (uri_domain uri @ '':'' @ dec (unat (if 0 < uri_port uri then as_u16 (uri_port uri) else TLS_DEFAULT_PORT))))"

interpretation tls_addr: dial_address tls_dial "\<lambda>_. TLS_DEFAULT_PORT"
  by unfold_locales (auto simp: tls_dial_def)

section \<open>Properties\<close>

text \<open>
  C34. TLS ping. The ping dials the target's address with the configured trust anchors, or the
  default ones, and the target's domain as the server name; once the connection stands its outcome
  is that of the handshake, error for error, and nothing is written after it.
\<close>

theorem tls_ping_is_handshake:
  assumes "prompt net" and "get_uri (net_regex net) (tls_target p) = Ok uri"
    and "tls_dial (net_regex net) (tls_target p) = Ok ep" and "server_name_error net (uri_domain uri) = None"
    and "tcp_connect net ep w = Some (Ok tcp, w1)"
    and "tls_connect net (case tls_config p of Some c \<Rightarrow> c | None \<Rightarrow> default_client_config net) (uri_domain uri) tcp w1 = Some (r, w2)"
  shows "tls_ping net p w = Some (case r of Ok _ \<Rightarrow> Ok () | Err e \<Rightarrow> Err e | Panic m \<Rightarrow> Panic m, w2)"
proof -
  have ep: "uri_domain uri \<noteq> []" "ep = uri_domain uri @ '':'' @ dec (unat (if 0 < uri_port uri then as_u16 (uri_port uri) else TLS_DEFAULT_PORT))"
    using assms(3) by (auto simp: tls_dial_def assms(2) split: if_splits)
  let ?fut = "io_bind (tcp_connect net ep) (\<lambda>tcp.
      io_bind (tls_connect net (case tls_config p of Some c \<Rightarrow> c | None \<Rightarrow> default_client_config net) (uri_domain uri) tcp)
        (\<lambda>_. io_ok ()))"
  have "?fut w = Some (case r of Ok _ \<Rightarrow> Ok () | Err e \<Rightarrow> Err e | Panic m \<Rightarrow> Panic m, w2)"
    by (simp add: io_bind_def assms(5,6) split: result.splits)
  then show ?thesis
    using with_timeout_prompt [OF assms(1), of ?fut w _ w2 "tls_timeout p"] assms(4) ep by (simp add: tls_ping_def assms(2) Let_def)
qed

lemma tls_ping_is_handshake_witness:
  "tls_ping (lab (\<lambda>_. None)) (TlsPinger_new ''srv:5300'') (lab_start []) = Some (Ok (), lab_start [])"
proof -
  let ?p = "TlsPinger_new ''srv:5300''"
  let ?u = "default_uri\<lparr>uri_host := ''srv:5300'', uri_domain := ''srv'', uri_port := 5300, uri_path := []\<rparr>"
  have u: "get_uri (net_regex (lab (\<lambda>_. None))) (tls_target ?p) = Ok ?u" by (simp add: TlsPinger_new_def)
  have ep: "tls_dial (net_regex (lab (\<lambda>_. None))) (tls_target ?p) = Ok ''srv:5300''"
    by (simp add: TlsPinger_new_def tls_dial_def)
  show ?thesis
    using tls_ping_is_handshake [OF lab_prompt u ep, of "lab_start []" "()" "lab_start []" "Ok ()" "lab_start []"]
    by (simp add: lab_def)
qed

end
