(* ===== verification/Quic.thy ===== *)
theory Quic
  imports Lab
begin

text \<open>
  \<open>zpinger/src/quic.rs\<close>: the QUIC pinger. The QUIC stack is quinn and its TLS configuration rustls,
  both parameters; the endpoint syntax, the choice of the address and of the local socket, the
  configuration and the error mapping are the code's.
\<close>

section \<open>quinn and rustls\<close>

text \<open>
  \<open>'k\<close> is a quinn \<open>ClientConfig\<close>, \<open>'e\<close> an \<open>Endpoint\<close> and \<open>'n\<close> a \<open>Connecting\<close>, which also names the
  \<open>Connection\<close> it turns into. Errors are their \<open>Display\<close> texts. \<open>tls13_config\<close> is the builder with the
  ring provider, TLS 1.3 and the webpki roots.
\<close>

record ('w, 'c, 'k, 'e, 'n) quinn =
  tls13_config :: "string + 'c"
  set_alpn_protocols :: "bytes list \<Rightarrow> 'c \<Rightarrow> 'c"
  quic_client_config :: "'c \<Rightarrow> string + 'k"
  endpoint_client :: "socket_addr \<Rightarrow> 'w \<Rightarrow> (string + 'e) \<times> 'w"
  endpoint_connect :: "'e \<Rightarrow> 'k \<Rightarrow> socket_addr \<Rightarrow> string \<Rightarrow> 'w \<Rightarrow> (string + 'n) \<times> 'w"
  connecting :: "'n \<Rightarrow> 'w \<Rightarrow> ((string + unit) \<times> 'w) option"
  connection_close :: "'n \<Rightarrow> nat \<Rightarrow> bytes \<Rightarrow> 'w \<Rightarrow> 'w"
  wait_idle :: "'e \<Rightarrow> 'w \<Rightarrow> 'w option"

section \<open>Definitions\<close>

abbreviation QUIC_DEFAULT_PORT :: u16 where "QUIC_DEFAULT_PORT \<equiv> 443"
abbreviation DEFAULT_ALPN :: bytes where "DEFAULT_ALPN \<equiv> bytes_of ''h3''"

record 'c QuicPinger =
  quic_endpoint :: string
  quic_timeout :: duration
  quic_alpn :: "bytes list"
  quic_tls_config :: "'c option"

definition QuicPinger_new :: "string \<Rightarrow> 'c QuicPinger" where
  "QuicPinger_new endpoint =
     \<lparr>quic_endpoint = endpoint, quic_timeout = from_secs 5, quic_alpn = [DEFAULT_ALPN], quic_tls_config = None\<rparr>"

definition QuicPinger_with_timeout :: "'c QuicPinger \<Rightarrow> duration \<Rightarrow> 'c QuicPinger" where
  "QuicPinger_with_timeout self t = self\<lparr>quic_timeout := t\<rparr>"

definition QuicPinger_with_alpn :: "'c QuicPinger \<Rightarrow> bytes list \<Rightarrow> 'c QuicPinger" where
  "QuicPinger_with_alpn self alpn = self\<lparr>quic_alpn := alpn\<rparr>"

definition QuicPinger_with_tls_config :: "'c QuicPinger \<Rightarrow> 'c \<Rightarrow> 'c QuicPinger" where
  "QuicPinger_with_tls_config self config = self\<lparr>quic_tls_config := Some config\<rparr>"

definition parse_endpoint :: "engine \<Rightarrow> string \<Rightarrow> (string \<times> u16) result" where
  "parse_endpoint rx endpoint =
     (let trimmed = trim endpoint
      in if trimmed = [] then err_invalid ''QUIC endpoint is empty''
         else bind_r (get_uri rx trimmed) (\<lambda>uri.
           let scheme = to_ascii_lowercase (uri_scheme uri)
           in if scheme = [] \<or> scheme = ''quic'' \<or> scheme = ''https'' \<or> scheme = ''h3''
              then (if uri_domain uri = [] then err_invalid ''QUIC endpoint is missing a host''
                    else
                      (let port = (if 0 < uri_port uri then as_u16 (uri_port uri) else QUIC_DEFAULT_PORT)
                       in Ok (uri_domain uri, port)))
              else err_invalid (''scheme '' @ [CHR 0x27] @ scheme @ [CHR 0x27]
                     @ '' is not supported by QuicPinger (use quic://, https://, or host:port)'')))"

fun is_ipv4 :: "socket_addr \<Rightarrow> bool" where
  "is_ipv4 (SockV4 _ _) = True"
| "is_ipv4 (SockV6 _ _) = False"

text \<open>\<open>addrs.iter().find(|a| a.is_ipv4())\<close>, or the first address.\<close>

definition resolve_first :: "('w, 'h, 'c) net \<Rightarrow> string \<Rightarrow> u16 \<Rightarrow> ('w, socket_addr) io" where
  "resolve_first net host port =
     (let target = host @ '':'' @ dec (unat port)
      in io_bind (lookup_host net target) (\<lambda>addrs.
           case find is_ipv4 addrs of
             Some v4 \<Rightarrow> io_ok v4
           | None \<Rightarrow>
               (case addrs of
                  a # _ \<Rightarrow> io_ok a
                | [] \<Rightarrow> io_err (IoError Other (''DNS lookup returned no addresses for '' @ target)))))"

definition unspecified_for :: "socket_addr \<Rightarrow> socket_addr" where
  "unspecified_for remote = (if \<not> is_ipv4 remote then SockV6 0 0 else SockV4 0 0)"

definition default_quic_config :: "('w, 'c, 'k, 'e, 'n) quinn \<Rightarrow> 'c result" where
  "default_quic_config q =
     (case tls13_config q of Inl e \<Rightarrow> err_other (''rustls protocol: '' @ e) | Inr config \<Rightarrow> Ok config)"

definition build_rustls_config :: "('w, 'c, 'k, 'e, 'n) quinn \<Rightarrow> 'c option \<Rightarrow> bytes list \<Rightarrow> 'c result" where
  "build_rustls_config q inject alpn =
     bind_r (case inject of Some c \<Rightarrow> Ok c | None \<Rightarrow> default_quic_config q)
       (\<lambda>config. Ok (set_alpn_protocols q alpn config))"

text \<open>The handshake as a future of the timer; its error text is kept as the message.\<close>

definition quic_handshake :: "('w, 'c, 'k, 'e, 'n) quinn \<Rightarrow> 'n \<Rightarrow> ('w, unit) io" where
  "quic_handshake q n w = Option.bind (connecting q n w) (\<lambda>(r, w').
     case r of Inl e \<Rightarrow> Some (err_other e, w') | Inr u \<Rightarrow> Some (Ok u, w'))"

text \<open>From \<open>Endpoint::client\<close> on.\<close>

definition quic_connect :: "('w, 'h, 'c) net \<Rightarrow> ('w, 'c, 'k, 'e, 'n) quinn \<Rightarrow> duration \<Rightarrow> string \<Rightarrow> socket_addr \<Rightarrow> 'k \<Rightarrow> ('w, unit) io" where
  "quic_connect net q timeout host server_addr client_config w =
     (case endpoint_client q (unspecified_for server_addr) w of
        (Inl e, w) \<Rightarrow> Some (err_other (''quinn Endpoint::client: '' @ e), w)
      | (Inr endpoint, w) \<Rightarrow>
          (case endpoint_connect q endpoint client_config server_addr host w of
             (Inl e, w) \<Rightarrow> Some (err_other (''quinn connect: '' @ e), w)
           | (Inr n, w) \<Rightarrow>
               (case tokio_timeout net timeout (quic_handshake q n) w of
                  (Some (Ok _), w) \<Rightarrow>
                    Option.bind (wait_idle q endpoint (connection_close q n 0 (bytes_of ''ping done'') w))
                      (\<lambda>w. Some (Ok (), w))
                | (Some (Err e), w) \<Rightarrow> Some (err_other (''quinn handshake: '' @ err_msg e), w)
                | (Some (Panic m), w) \<Rightarrow> Some (Panic m, w)
                | (None, w) \<Rightarrow> Some (Err (IoError TimedOut ''QUIC handshake timed out''), w))))"

definition quic_ping :: "('w, 'h, 'c) net \<Rightarrow> ('w, 'c, 'k, 'e, 'n) quinn \<Rightarrow> 'c QuicPinger \<Rightarrow> ('w, unit) io" where
  "quic_ping net q self =
     io_bind (io_lift (parse_endpoint (net_regex net) (quic_endpoint self))) (\<lambda>(host, port).
     io_bind (resolve_first net host port) (\<lambda>server_addr.
     io_bind (io_lift (build_rustls_config q (quic_tls_config self) (quic_alpn self))) (\<lambda>crypto.
     case quic_client_config q crypto of
       Inl e \<Rightarrow> io_err (IoError Other (''quinn rustls config: '' @ e))
     | Inr client_config \<Rightarrow> quic_connect net q (quic_timeout self) host server_addr client_config)))"

section \<open>Facts\<close>

lemma find_Some_iff_first: "find P xs = Some x \<longleftrightarrow> (\<exists>a b. xs = a @ x # b \<and> P x \<and> (\<forall>y\<in>set a. \<not> P y))"
proof
  show "find P xs = Some x \<Longrightarrow> \<exists>a b. xs = a @ x # b \<and> P x \<and> (\<forall>y\<in>set a. \<not> P y)"
  proof (induction xs)
    case (Cons y ys)
    show ?case
    proof (cases "P y")
      case True
      then show ?thesis using Cons.prems by (intro exI [of _ "[]"] exI [of _ ys]) simp
    next
      case False
      then obtain a b where "ys = a @ x # b \<and> P x \<and> (\<forall>z\<in>set a. \<not> P z)" using Cons by auto
      with False show ?thesis by (intro exI [of _ "y # a"] exI [of _ b]) simp
    qed
  qed simp
next
  assume "\<exists>a b. xs = a @ x # b \<and> P x \<and> (\<forall>y\<in>set a. \<not> P y)"
  then obtain a b where ab: "xs = a @ x # b" "P x" "\<forall>y\<in>set a. \<not> P y" by blast
  have "find P (a @ x # b) = Some x" using ab(2,3) by (induction a) auto
  with ab show "find P xs = Some x" by simp
qed

lemma resolve_first_Ok:
  assumes "lookup_host net (host @ '':'' @ dec (unat port)) w = Some (Ok addrs, w')"
  shows "resolve_first net host port w =
    Some (case find is_ipv4 addrs of Some a \<Rightarrow> Ok a
      | None \<Rightarrow> (case addrs of a # _ \<Rightarrow> Ok a
          | [] \<Rightarrow> err_other (''DNS lookup returned no addresses for '' @ host @ '':'' @ dec (unat port))), w')"
  unfolding resolve_first_def Let_def io_bind_def assms by (simp split: option.split list.split)

lemma resolve_first_None:
  "resolve_first net host port w = None \<longleftrightarrow> lookup_host net (host @ '':'' @ dec (unat port)) w = None"
  by (auto simp: resolve_first_def Let_def io_bind_def split: Option.bind_splits result.splits option.splits list.splits)

section \<open>Properties\<close>

text \<open>
  QUIC address. The address that is dialed is one of those the resolver returned, an IPv4 one
  when there is any, the first of its family, and the local socket is of that family; there is none
  exactly when the resolver returned none.
\<close>

theorem resolve_first_choice:
  assumes "lookup_host net (host @ '':'' @ dec (unat port)) w = Some (Ok addrs, w')"
  shows "resolve_first net host port w = Some (Ok a, w') \<longleftrightarrow>
    (\<exists>before after. addrs = before @ a # after \<and> is_ipv4 (unspecified_for a) = is_ipv4 a \<and>
       (if is_ipv4 a then \<forall>b\<in>set before. \<not> is_ipv4 b else before = [] \<and> filter is_ipv4 addrs = []))"
    (is "?l \<longleftrightarrow> ?r")
proof -
  have fam: "is_ipv4 (unspecified_for a) = is_ipv4 a" by (simp add: unspecified_for_def)
  show ?thesis
  proof (cases "find is_ipv4 addrs")
    case None
    then have none: "\<forall>b\<in>set addrs. \<not> is_ipv4 b" by (simp add: find_None_iff)
    have "?l \<longleftrightarrow> (\<exists>after. addrs = a # after)"
      by (simp add: resolve_first_Ok [OF assms] None split: list.split)
    also have "\<dots> \<longleftrightarrow> ?r" using none fam by (auto simp: filter_empty_conv)
    finally show ?thesis .
  next
    case (Some v)
    then have mem: "v \<in> set addrs" "is_ipv4 v" by (auto simp: find_Some_iff_first)
    have "?l \<longleftrightarrow> find is_ipv4 addrs = Some a"
      by (auto simp: resolve_first_Ok [OF assms] Some)
    also have "\<dots> \<longleftrightarrow> (\<exists>before after. addrs = before @ a # after \<and> is_ipv4 a \<and> (\<forall>b\<in>set before. \<not> is_ipv4 b))"
      by (rule find_Some_iff_first)
    also have "\<dots> \<longleftrightarrow> ?r"
      using mem fam by (auto simp: filter_empty_conv)
    finally show ?thesis .
  qed
qed

lemma resolve_first_choice_witness:
  "resolve_first ((lab (\<lambda>_. None))\<lparr>lookup_host := \<lambda>_. io_ok [SockV6 1 443, SockV4 2 443, SockV4 3 443]\<rparr>) ''srv'' 443 (lab_start []) =
     Some (Ok (SockV4 2 443), lab_start [])"
proof -
  let ?as = "[SockV6 1 443, SockV4 2 443, SockV4 3 443]" and ?a = "SockV4 2 443"
  let ?net = "(lab (\<lambda>_. None))\<lparr>lookup_host := \<lambda>_. io_ok ?as\<rparr>"
  have l: "lookup_host ?net (''srv'' @ '':'' @ dec (unat (443 :: u16))) (lab_start []) = Some (Ok ?as, lab_start [])"
    by simp
  have "?as = [SockV6 1 443] @ ?a # [SockV4 3 443] \<and> is_ipv4 (unspecified_for ?a) = is_ipv4 ?a \<and>
       (if is_ipv4 ?a then \<forall>b\<in>set [SockV6 1 443]. \<not> is_ipv4 b else [SockV6 1 443] = [] \<and> filter is_ipv4 ?as = [])"
    by (simp add: unspecified_for_def)
  then show ?thesis unfolding resolve_first_choice [OF l] by (intro exI)
qed

text \<open>
  C38. QUIC timeout. The timeout covers the handshake only: with a QUIC stack that always flushes its
  last datagrams, the ping of a well-formed endpoint resolves, whatever the server does, if and only
  if the resolver answers; no timeout bounds the lookup.
\<close>

theorem quic_resolves_iff_lookup:
  assumes "parse_endpoint (net_regex net) (quic_endpoint p) = Ok (host, port)"
    and "\<And>e w. wait_idle q e w \<noteq> None"
  shows "quic_ping net q p w = None \<longleftrightarrow> lookup_host net (host @ '':'' @ dec (unat port)) w = None"
proof -
  have idle: "\<exists>a b. Option.bind (wait_idle q e w') (\<lambda>w. Some (Ok (), w)) = Some (a, b)" for e w'
    using assms(2) [of e w'] by (cases "wait_idle q e w'") auto
  have tail: "\<exists>a b. quic_connect net q d host addr k w' = Some (a, b)" for d addr k w'
    using idle by (auto simp: quic_connect_def split: sum.split prod.split option.split result.split)
  have "quic_ping net q p w = None \<longleftrightarrow> resolve_first net host port w = None"
    by (auto simp: quic_ping_def assms(1) tail io_bind_def [of "resolve_first _ _ _"]
        split: result.split sum.split Option.bind_split)
  then show ?thesis unfolding resolve_first_None .
qed

lemma quic_resolves_iff_lookup_witness:
  "quic_ping ((lab (\<lambda>_. None))\<lparr>lookup_host := \<lambda>_ _. None\<rparr>)
     \<lparr>tls13_config = Inr (), set_alpn_protocols = \<lambda>_ c. c, quic_client_config = Inr, endpoint_client = \<lambda>_ w. (Inr (), w),
       endpoint_connect = \<lambda>_ _ _ _ w. (Inr (), w), connecting = \<lambda>_ w. Some (Inr (), w), connection_close = \<lambda>_ _ _ w. w,
       wait_idle = \<lambda>_. Some\<rparr>
     (QuicPinger_new ''srv:5300'') (lab_start []) = None"
proof -
  let ?net = "(lab (\<lambda>_. None))\<lparr>lookup_host := \<lambda>_ _. None\<rparr>" and ?p = "QuicPinger_new ''srv:5300'' :: unit QuicPinger"
  have "trim ''srv:5300'' = ''srv:5300''" by (rule trim_id) (simp_all add: graphic_def)
  then have e: "parse_endpoint (net_regex ?net) (quic_endpoint ?p) = Ok (''srv'', as_u16 5300)"
    by (simp add: parse_endpoint_def QuicPinger_new_def Let_def)
  show ?thesis by (subst quic_resolves_iff_lookup [OF e]) simp_all
qed

end
