(* ===== verification/Pingers.thy ===== *)
theory Pingers
  imports Ntp Dns Turn Level4 Mqtt Rtmp Rtsp Http TlsHandshake Hls WebSocket Quic Grpc
begin

text \<open>
  \<open>Box<dyn Pinger>\<close>: the sixteen pingers as one type with the \<open>ping\<close> of the trait, over one
  environment. Used by the command line tool and by the MCP server.
\<close>

section \<open>Definitions\<close>

datatype 'c any_pinger =
    PTcp TcpPinger | PUdp UdpPinger | PHttp "'c HttpPinger" | PWs "'c WebSocketPinger" | PDns DnsPinger
  | PGrpc GrpcPinger | PGrpcStream GrpcStreamPinger | PHls "'c HlsPinger" | PMqtt "'c MqttPinger"
  | PTls "'c TlsPinger" | PNtp NtpPinger | PStun StunPinger | PTurn TurnPinger | PRtsp "'c RtspPinger"
  | PRtmp "'c RtmpPinger" | PQuic "'c QuicPinger"

record ('w, 'h, 'c, 's, 'k, 'e, 'n, 'ep, 't, 'ch, 'st) stack =
  sk_net :: "('w, 'h, 'c) net"
  sk_ws :: "('w, 'h, 's) tungstenite"
  sk_quinn :: "('w, 'c, 'k, 'e, 'n) quinn"
  sk_tonic :: "('w, 'ep, 't, 'ch, 'st) tonic"

fun dyn_ping :: "('w, 'h, 'c, 's, 'k, 'e, 'n, 'ep, 't, 'ch, 'st) stack \<Rightarrow> 'c any_pinger \<Rightarrow> ('w, unit) io" where
  "dyn_ping sk (PTcp p) = tcp_ping (sk_net sk) p"
| "dyn_ping sk (PUdp p) = udp_ping (sk_net sk) p"
| "dyn_ping sk (PHttp p) = http_ping (sk_net sk) p"
| "dyn_ping sk (PWs p) = ws_ping (sk_net sk) (sk_ws sk) p"
| "dyn_ping sk (PDns p) = dns_ping (sk_net sk) p"
| "dyn_ping sk (PGrpc p) = grpc_ping (net_regex (sk_net sk)) (sk_tonic sk) p"
| "dyn_ping sk (PGrpcStream p) = grpc_stream_ping (net_regex (sk_net sk)) (sk_tonic sk) p"
| "dyn_ping sk (PHls p) = hls_ping (sk_net sk) p"
| "dyn_ping sk (PMqtt p) = mqtt_ping (sk_net sk) p"
| "dyn_ping sk (PTls p) = tls_ping (sk_net sk) p"
| "dyn_ping sk (PNtp p) = ntp_ping (sk_net sk) p"
| "dyn_ping sk (PStun p) = stun_ping (sk_net sk) p"
| "dyn_ping sk (PTurn p) = turn_ping (sk_net sk) p"
| "dyn_ping sk (PRtsp p) = rtsp_ping (sk_net sk) p"
| "dyn_ping sk (PRtmp p) = rtmp_ping (sk_net sk) p"
| "dyn_ping sk (PQuic p) = quic_ping (sk_net sk) (sk_quinn sk) p"

text \<open>The field every pinger has: where it pings, and for how long at most.\<close>

fun pinger_target :: "'c any_pinger \<Rightarrow> string" where
  "pinger_target (PTcp p) = tcp_target p"
| "pinger_target (PUdp p) = udp_target p"
| "pinger_target (PHttp p) = http_target p"
| "pinger_target (PWs p) = ws_target p"
| "pinger_target (PDns p) = dns_server p"
| "pinger_target (PGrpc p) = grpc_endpoint p"
| "pinger_target (PGrpcStream p) = gs_endpoint p"
| "pinger_target (PHls p) = hls_url p"
| "pinger_target (PMqtt p) = mqtt_server p"
| "pinger_target (PTls p) = tls_target p"
| "pinger_target (PNtp p) = ntp_server p"
| "pinger_target (PStun p) = stun_server p"
| "pinger_target (PTurn p) = turn_server p"
| "pinger_target (PRtsp p) = rtsp_target p"
| "pinger_target (PRtmp p) = rtmp_target p"
| "pinger_target (PQuic p) = quic_endpoint p"

fun pinger_timeout :: "'c any_pinger \<Rightarrow> duration" where
  "pinger_timeout (PTcp p) = tcp_timeout p"
| "pinger_timeout (PUdp p) = udp_timeout p"
| "pinger_timeout (PHttp p) = http_timeout p"
| "pinger_timeout (PWs p) = ws_timeout p"
| "pinger_timeout (PDns p) = dns_timeout p"
| "pinger_timeout (PGrpc p) = grpc_timeout p"
| "pinger_timeout (PGrpcStream p) = gs_timeout p"
| "pinger_timeout (PHls p) = hls_timeout p"
| "pinger_timeout (PMqtt p) = mqtt_timeout p"
| "pinger_timeout (PTls p) = tls_timeout p"
| "pinger_timeout (PNtp p) = ntp_timeout p"
| "pinger_timeout (PStun p) = stun_timeout p"
| "pinger_timeout (PTurn p) = turn_timeout p"
| "pinger_timeout (PRtsp p) = rtsp_timeout p"
| "pinger_timeout (PRtmp p) = rtmp_timeout p"
| "pinger_timeout (PQuic p) = quic_timeout p"

fun pinger_tls :: "'c any_pinger \<Rightarrow> bool" where
  "pinger_tls (PHttp p) = (http_tls_config p \<noteq> None)"
| "pinger_tls (PWs p) = (ws_tls_config p \<noteq> None)"
| "pinger_tls (PGrpc p) = (grpc_ca_cert_pem p \<noteq> None)"
| "pinger_tls (PGrpcStream p) = (gs_ca_cert_pem p \<noteq> None)"
| "pinger_tls (PHls p) = (hls_tls_config p \<noteq> None)"
| "pinger_tls (PMqtt p) = (mqtt_tls_config p \<noteq> None)"
| "pinger_tls (PTls p) = (tls_config p \<noteq> None)"
| "pinger_tls (PRtsp p) = (rtsp_tls_config p \<noteq> None)"
| "pinger_tls (PRtmp p) = (rtmp_tls_config p \<noteq> None)"
| "pinger_tls (PQuic p) = (quic_tls_config p \<noteq> None)"
| "pinger_tls _ = False"

section \<open>Timeouts\<close>

text \<open>Everything before the deadline is synchronous, so the ping resolves.\<close>

lemma resolves_lift: "(\<And>x. r = Ok x \<Longrightarrow> f x w \<noteq> None) \<Longrightarrow> io_bind (io_lift r) f w \<noteq> None"
  by (simp split: result.split)

lemma resolves_timeout: "with_timeout net d fut w \<noteq> None"
  using with_timeout_total by (metis option.distinct(1))

lemma resolves_server_name:
  "(server_name_error net n = None \<Longrightarrow> f w \<noteq> None) \<Longrightarrow>
   (case server_name_error net n of Some e \<Rightarrow> io_err (IoError InvalidInput e) | None \<Rightarrow> f) w \<noteq> None"
  by (simp split: option.split)

lemmas resolves = resolves_lift resolves_timeout resolves_server_name

section \<open>A run of pings\<close>

text \<open>
  The outcomes of \<open>n\<close> pings, one after the other. Both reports, the command line's and the MCP
  server's, are functions of them. A panic ends the program.
\<close>

type_synonym outcome = "io_error + duration"

fun attempts :: "('w, duration) io \<Rightarrow> nat \<Rightarrow> ('w, outcome list) io" where
  "attempts timed_ping 0 = io_ok []"
| "attempts timed_ping (Suc n) =
     io_catch timed_ping
       (\<lambda>d. io_bind (attempts timed_ping n) (\<lambda>rs. io_ok (Inr d # rs)))
       (\<lambda>e. io_bind (attempts timed_ping n) (\<lambda>rs. io_ok (Inl e # rs)))"

fun round_trip :: "outcome \<Rightarrow> duration" where
  "round_trip (Inl e) = 0"
| "round_trip (Inr d) = d"

definition received :: "outcome list \<Rightarrow> nat" where
  "received rs = length (filter (\<lambda>r. \<not> isl r) rs)"

definition lost :: "outcome list \<Rightarrow> nat" where
  "lost rs = length (filter isl rs)"

definition total_elapsed :: "outcome list \<Rightarrow> duration" where
  "total_elapsed rs = sum_list (map round_trip rs)"

text \<open>\<open>Duration += Duration\<close>: the seconds are a \<open>u64\<close>, and the addition panics beyond it.\<close>

definition MAX_DURATION :: nat where
  "MAX_DURATION = 2 ^ 64 * 10 ^ 9"

definition add_duration :: "duration \<Rightarrow> duration \<Rightarrow> duration result" where
  "add_duration a b = (if a + b < MAX_DURATION then Ok (a + b) else Panic ''overflow when adding durations'')"

text \<open>\<open>u64\<close> multiplication, with the overflow check of the debug profile.\<close>

definition mul_u64 :: "nat \<Rightarrow> nat \<Rightarrow> nat result" where
  "mul_u64 a b = (if a * b < 2 ^ 64 then Ok (a * b) else Panic ''attempt to multiply with overflow'')"

lemma outcome_counts [simp]:
  "received [] = 0" "received (Inr d # rs) = Suc (received rs)" "received (Inl e # rs) = received rs"
  "lost [] = 0" "lost (Inr d # rs) = lost rs" "lost (Inl e # rs) = Suc (lost rs)"
  "total_elapsed [] = 0" "total_elapsed (Inr d # rs) = d + total_elapsed rs" "total_elapsed (Inl e # rs) = total_elapsed rs"
  by (simp_all add: received_def lost_def total_elapsed_def)

lemma received_lost: "received rs + lost rs = length rs"
  unfolding received_def lost_def by (induction rs) auto

lemma attempts_Suc_Ok:
  assumes "attempts tp (Suc n) w = Some (Ok rs, w')"
  obtains (Ok) d rs' w1 where "rs = Inr d # rs'" "tp w = Some (Ok d, w1)" "attempts tp n w1 = Some (Ok rs', w')"
    | (Err) e rs' w1 where "rs = Inl e # rs'" "tp w = Some (Err e, w1)" "attempts tp n w1 = Some (Ok rs', w')"
  using assms by (auto simp: io_catch_def io_bind_Ok_iff split: Option.bind_splits result.splits)

lemma attempts_length: "attempts tp n w = Some (Ok rs, w') \<Longrightarrow> length rs = n"
proof (induction n arbitrary: w rs)
  case (Suc n)
  from Suc.prems show ?case by (cases rule: attempts_Suc_Ok) (use Suc.IH in auto)
qed simp

text \<open>A run of pings that resolve without a panic resolves, whatever they find.\<close>

lemma attempts_resolve:
  assumes "\<And>w. \<exists>r w'. tp w = Some (r, w') \<and> \<not> is_panic r"
  shows "\<exists>rs w'. attempts tp n w = Some (Ok rs, w')"
proof (induction n arbitrary: w)
  case (Suc n)
  obtain r w1 where r: "tp w = Some (r, w1)" "\<not> is_panic r" using assms by blast
  obtain rs w2 where "attempts tp n w1 = Some (Ok rs, w2)" using Suc by blast
  with r show ?case by (cases r) (auto simp: io_catch_def io_bind_def)
qed simp

section \<open>Properties\<close>

text \<open>
  C30. Every ping resolves. Whatever the network does, servers that never answer included, every ping but
  the gRPC and QUIC ones resolves: nothing but the deadline-bounded part waits.
\<close>

theorem every_ping_resolves:
  "case p of PGrpc _ \<Rightarrow> True | PGrpcStream _ \<Rightarrow> True | PQuic _ \<Rightarrow> True | _ \<Rightarrow> dyn_ping sk p w \<noteq> None"
proof (cases p)
  case (PTcp x)
  then show ?thesis by (simp add: tcp_ping_def resolves del: not_None_eq)
next
  case (PUdp x)
  then show ?thesis by (simp add: udp_ping_def resolves del: not_None_eq)
next
  case (PHttp x)
  then show ?thesis
    by (simp add: http_ping_def http_ping_plain_def http_ping_tls_def Let_def resolves split: result.split option.split del: not_None_eq)
next
  case (PWs x)
  then show ?thesis
    by (simp add: ws_ping_def ws_ping_plain_def ws_ping_tls_def Let_def resolves split: result.split option.split del: not_None_eq)
next
  case (PDns x)
  then show ?thesis by (simp add: dns_ping_def Let_def resolves split: result.split del: not_None_eq)
next
  case (PHls x)
  then show ?thesis by (simp add: hls_ping_def Let_def resolves del: not_None_eq)
next
  case (PMqtt x)
  then show ?thesis
    by (simp add: mqtt_ping_def mqtt_ping_plain_def mqtt_ping_tls_def Let_def resolves split: result.split option.split del: not_None_eq)
next
  case (PTls x)
  then show ?thesis by (simp add: tls_ping_def Let_def resolves split: result.split option.split del: not_None_eq)
next
  case (PNtp x)
  then show ?thesis by (simp add: ntp_ping_def Let_def resolves split: result.split del: not_None_eq)
next
  case (PStun x)
  then show ?thesis by (simp add: stun_ping_def Let_def resolves split: result.split del: not_None_eq)
next
  case (PTurn x)
  then show ?thesis by (simp add: turn_ping_def Let_def resolves split: result.split del: not_None_eq)
next
  case (PRtsp x)
  then show ?thesis
    by (simp add: rtsp_ping_def rtsp_ping_plain_def rtsp_ping_tls_def Let_def resolves split: result.split option.split del: not_None_eq)
next
  case (PRtmp x)
  then show ?thesis
    by (simp add: rtmp_ping_def rtmp_ping_plain_def rtmp_ping_tls_def Let_def resolves split: result.split option.split del: not_None_eq)
qed simp_all

end
