(* ===== verification/Cli.thy ===== *)
theory Cli
  imports Pingers
begin

text \<open>
  \<open>knockknock/src/main.rs\<close>: the subcommands as clap delivers them, the pinger built for each, the
  address shown in the "DNS lookup" line, the ping loop and the statistic. Printing is the list of
  things shown; clap, colours and number formatting are left out.
\<close>

section \<open>Definitions\<close>

datatype DnsType = DnsA | DnsAaaa | DnsCname | DnsMx | DnsNs | DnsTxt

fun record_type_of :: "DnsType \<Rightarrow> RecordType" where
  "record_type_of DnsA = A"
| "record_type_of DnsAaaa = Aaaa"
| "record_type_of DnsCname = Cname"
| "record_type_of DnsMx = Mx"
| "record_type_of DnsNs = Ns"
| "record_type_of DnsTxt = Txt"

text \<open>The \<open>http\<close> subcommand: the method and its target.\<close>

datatype http_command =
    HttpConnect string | HttpGet string | HttpPost string | HttpPut string | HttpDelete string | HttpPatch string

datatype Command =
    CmdTcp string
  | CmdUdp string
  | CmdHttp http_command
  | CmdWs string
  | CmdDns (cmd_server: string) (cmd_query: string) DnsType
  | CmdGrpc (cmd_endpoint: string) (cmd_service: string) (cmd_watch: bool)
  | CmdHls string
  | CmdMqtt string "string option" bool
  | CmdTls string
  | CmdNtp string
  | CmdStun string
  | CmdTurn string
  | CmdRtsp string
  | CmdRtmp string
  | CmdQuic string string

fun http_parts :: "http_command \<Rightarrow> HttpMethod \<times> string" where
  "http_parts (HttpConnect target) = (Connect, target)"
| "http_parts (HttpGet target) = (Get, target)"
| "http_parts (HttpPost target) = (Post, target)"
| "http_parts (HttpPut target) = (Put, target)"
| "http_parts (HttpDelete target) = (Delete, target)"
| "http_parts (HttpPatch target) = (Patch, target)"

fun target_of :: "Command \<Rightarrow> string" where
  "target_of (CmdTcp target) = target"
| "target_of (CmdUdp target) = target"
| "target_of (CmdWs target) = target"
| "target_of (CmdDns server _ _) = server"
| "target_of (CmdMqtt broker _ _) = broker"
| "target_of (CmdGrpc endpoint _ _) = endpoint"
| "target_of (CmdHls url) = url"
| "target_of (CmdTls target) = target"
| "target_of (CmdNtp server) = server"
| "target_of (CmdStun server) = server"
| "target_of (CmdTurn server) = server"
| "target_of (CmdRtsp target) = target"
| "target_of (CmdRtmp target) = target"
| "target_of (CmdQuic endpoint _) = endpoint"
| "target_of (CmdHttp method) =
     (case method of
        HttpConnect target \<Rightarrow> target | HttpGet target \<Rightarrow> target | HttpPost target \<Rightarrow> target
      | HttpPut target \<Rightarrow> target | HttpDelete target \<Rightarrow> target | HttpPatch target \<Rightarrow> target)"

text \<open>\<open>alpn.split(',').filter(|s| !s.is_empty())\<close> as bytes.\<close>

definition alpn_list :: "string \<Rightarrow> bytes list" where
  "alpn_list alpn = map bytes_of (filter (\<lambda>s. s \<noteq> []) (split_char (CHR '','') alpn))"

fun build_pinger :: "Command \<Rightarrow> 'c any_pinger" where
  "build_pinger (CmdTcp target) = PTcp (TcpPinger_new target)"
| "build_pinger (CmdUdp target) = PUdp (UdpPinger_new target)"
| "build_pinger (CmdWs target) = PWs (WebSocketPinger_new target)"
| "build_pinger (CmdDns server query record_type) =
     PDns (DnsPinger_with_record_type (DnsPinger_new server query) (record_type_of record_type))"
| "build_pinger (CmdGrpc endpoint service watch) =
     (if watch then PGrpcStream (GrpcStreamPinger_with_service (GrpcStreamPinger_new endpoint) service)
      else PGrpc (GrpcPinger_with_service (GrpcPinger_new endpoint) service))"
| "build_pinger (CmdHls url) = PHls (HlsPinger_new url)"
| "build_pinger (CmdTls target) = PTls (TlsPinger_new target)"
| "build_pinger (CmdNtp server) = PNtp (NtpPinger_new server)"
| "build_pinger (CmdStun server) = PStun (StunPinger_new server)"
| "build_pinger (CmdTurn server) = PTurn (TurnPinger_new server)"
| "build_pinger (CmdRtsp target) = PRtsp (RtspPinger_new target)"
| "build_pinger (CmdRtmp target) = PRtmp (RtmpPinger_new target)"
| "build_pinger (CmdQuic endpoint alpn) =
     (let alpns = alpn_list alpn;
          p = QuicPinger_new endpoint;
          p = (if alpns \<noteq> [] then QuicPinger_with_alpn p alpns else p)
      in PQuic p)"
| "build_pinger (CmdMqtt broker client_id v5) =
     (let p = MqttPinger_new broker;
          p = (case client_id of Some cid \<Rightarrow> MqttPinger_with_client_id p cid | None \<Rightarrow> p);
          p = (if v5 then MqttPinger_with_version p V5 else p)
      in PMqtt p)"
| "build_pinger (CmdHttp method) =
     (let (m, target) = http_parts method in PHttp (HttpPinger_new m target))"

definition default_port_target :: "engine \<Rightarrow> string \<Rightarrow> u16 \<Rightarrow> string result" where
  "default_port_target rx target default_port =
     bind_r (get_uri rx target) (\<lambda>uri.
       if uri_port uri = 0 \<and> uri_domain uri \<noteq> []
       then Ok (uri_domain uri @ '':'' @ dec (unat default_port))
       else Ok target)"

fun resolve_target :: "engine \<Rightarrow> Command \<Rightarrow> string result" where
  "resolve_target rx (CmdDns server _ _) = default_port_target rx server 53"
| "resolve_target rx (CmdMqtt broker _ _) =
     bind_r (get_uri rx broker) (\<lambda>uri.
       let scheme_default = (if eq_ignore_ascii_case (uri_scheme uri) ''mqtts'' then 8883 else 1883)
       in default_port_target rx broker scheme_default)"
| "resolve_target rx (CmdGrpc endpoint _ _) =
     (case strip_prefix ''grpcs://'' endpoint of
        Some rest \<Rightarrow> Ok (''https://'' @ rest)
      | None \<Rightarrow> (case strip_prefix ''grpc://'' endpoint of
          Some rest \<Rightarrow> Ok (''http://'' @ rest)
        | None \<Rightarrow> Ok endpoint))"
| "resolve_target rx (CmdTls target) =
     (if contains ''://'' target \<or> contains '':'' target then Ok target else Ok (''https://'' @ target))"
| "resolve_target rx (CmdNtp server) = default_port_target rx server 123"
| "resolve_target rx (CmdStun server) = default_port_target rx server 3478"
| "resolve_target rx (CmdTurn server) = default_port_target rx server 3478"
| "resolve_target rx (CmdRtsp target) =
     bind_r (get_uri rx target) (\<lambda>uri.
       let p = (if to_ascii_lowercase (uri_scheme uri) = ''rtsps'' then 322 else 554)
       in default_port_target rx target p)"
| "resolve_target rx (CmdRtmp target) =
     bind_r (get_uri rx target) (\<lambda>uri.
       let p = (if to_ascii_lowercase (uri_scheme uri) = ''rtmps'' then 443 else 1935)
       in default_port_target rx target p)"
| "resolve_target rx (CmdQuic endpoint _) =
     (case strip_prefix ''quic://'' endpoint of
        Some rest \<Rightarrow> Ok (''https://'' @ rest)
      | None \<Rightarrow> default_port_target rx endpoint 443)"
| "resolve_target rx cmd = Ok (target_of cmd)"

section \<open>The loop\<close>

text \<open>What is shown. The statistic has the counts and the two percentages.\<close>

datatype display =
    DnsLookup "socket_addr list"
  | PingInfo string duration
  | PingFail string
  | Statistic duration nat nat nat nat nat

definition percent :: "nat \<Rightarrow> nat \<Rightarrow> nat result" where
  "percent n count = (if n = 0 then Ok 0 else bind_r (mul_u64 n 100) (\<lambda>m. Ok (m div count)))"

definition display_statistic :: "duration \<Rightarrow> nat \<Rightarrow> nat \<Rightarrow> nat \<Rightarrow> display result" where
  "display_statistic total_time count recv_count lose_count =
     bind_r (percent recv_count count) (\<lambda>r.
     bind_r (percent lose_count count) (\<lambda>l.
     Ok (Statistic total_time count recv_count r lose_count l)))"

fun ping_loop :: "('w, duration) io \<Rightarrow> string \<Rightarrow> nat \<Rightarrow> duration \<Rightarrow> nat \<Rightarrow> ('w, display list \<times> duration \<times> nat) io" where
  "ping_loop timed_ping target 0 total_time lose_count = io_ok ([], total_time, lose_count)"
| "ping_loop timed_ping target (Suc n) total_time lose_count =
     io_catch timed_ping
       (\<lambda>elapsed_time.
          io_bind (io_lift (add_duration total_time elapsed_time)) (\<lambda>total_time.
          io_bind (ping_loop timed_ping target n total_time lose_count) (\<lambda>(shown, t, l).
          io_ok (PingInfo target elapsed_time # shown, t, l))))
       (\<lambda>_.
          io_bind (ping_loop timed_ping target n total_time (lose_count + 1)) (\<lambda>(shown, t, l).
          io_ok (PingFail target # shown, t, l)))"

definition cli_main :: "('w, 'h, 'c, 's, 'k, 'e, 'n, 'ep, 't, 'ch, 'st) stack \<Rightarrow> Command \<Rightarrow> nat \<Rightarrow> ('w, display list) io" where
  "cli_main sk command count =
     (let target = target_of command;
          pinger = build_pinger command
      in io_bind (io_lift (resolve_target (net_regex (sk_net sk)) command)) (\<lambda>shown_target.
         io_bind (resolve (sk_net sk) shown_target) (\<lambda>server.
         io_bind (ping_loop (timed (sk_net sk) (dyn_ping sk pinger)) target count 0 0) (\<lambda>(shown, total_time, lose_count).
         io_bind (io_lift (display_statistic total_time count (count - lose_count) lose_count)) (\<lambda>stat.
         io_ok (DnsLookup server # shown @ [stat]))))))"

section \<open>The report\<close>

fun shown_outcome :: "string \<Rightarrow> outcome \<Rightarrow> display" where
  "shown_outcome target (Inr d) = PingInfo target d"
| "shown_outcome target (Inl e) = PingFail target"

lemma ping_loop_attempts:
  assumes "attempts tp n w = Some (Ok rs, w')" and "t + total_elapsed rs < MAX_DURATION"
  shows "ping_loop tp target n t l w = Some (Ok (map (shown_outcome target) rs, t + total_elapsed rs, l + lost rs), w')"
  using assms
proof (induction n arbitrary: w rs t l)
  case (Suc n)
  from Suc.prems(1) show ?case
  proof (cases rule: attempts_Suc_Ok)
    case (Ok d rs' w1)
    with Suc.IH [of w1 rs' "t + d" l] Suc.prems(2) show ?thesis
      by (simp add: io_catch_def io_bind_def add_duration_def add.assoc)
  next
    case (Err e rs' w1)
    with Suc.IH [of w1 rs' t "l + 1"] Suc.prems(2) show ?thesis
      by (simp add: io_catch_def io_bind_def)
  qed
qed simp

text \<open>\<open>as u64\<close> products that fit, and the quotient by a count of at least the numerator.\<close>

lemma percent_fits: "n * 100 < 2 ^ 64 \<Longrightarrow> percent n count = Ok (n * 100 div count)"
  by (simp add: percent_def mul_u64_def)

lemma percent_sum:
  assumes "r + l = (count :: nat)" and "0 < count"
  shows "r * 100 div count + l * 100 div count \<in> {99, 100}"
proof -
  have "r * 100 + l * 100 = 100 * count" using assms(1) by (simp add: algebra_simps)
  then have s: "(r * 100 + l * 100) div count = 100" using assms(2) by simp
  show ?thesis
  proof (cases "count \<le> (r * 100) mod count + (l * 100) mod count")
    case True
    have "(r * 100) mod count + (l * 100) mod count < 2 * count" using assms(2) by (simp add: add_strict_mono mult_2)
    then have "((r * 100) mod count + (l * 100) mod count) div count = 1" using True by (simp add: div_nat_eqI)
    then show ?thesis using s div_add1_eq [of "r * 100" "l * 100" count] by simp
  next
    case False
    then have "((r * 100) mod count + (l * 100) mod count) div count = 0" by simp
    then show ?thesis using s div_add1_eq [of "r * 100" "l * 100" count] by simp
  qed
qed

section \<open>Properties\<close>

lemma cli_main_reports_fact:
  assumes "resolve_target (net_regex (sk_net sk)) c = Ok s" and "resolve (sk_net sk) s w = Some (Ok addrs, w1)"
    and "attempts (timed (sk_net sk) (dyn_ping sk (build_pinger c))) n w1 = Some (Ok rs, w2)"
    and "total_elapsed rs < MAX_DURATION" and "n * 100 < 2 ^ 64"
  shows "cli_main sk c n w = Some (Ok (DnsLookup addrs # map (shown_outcome (target_of c)) rs @
      [Statistic (total_elapsed rs) n (received rs) (received rs * 100 div n) (lost rs) (lost rs * 100 div n)]), w2) \<and>
    received rs + lost rs = n \<and> (0 < n \<longrightarrow> received rs * 100 div n + lost rs * 100 div n \<in> {99, 100})"
proof (intro conjI impI)
  show n: "received rs + lost rs = n"
    using received_lost attempts_length [OF assms(3)] by metis
  show "received rs * 100 div n + lost rs * 100 div n \<in> {99, 100}" if "0 < n"
    using percent_sum [OF n that] .
  have p: "percent (received rs) n = Ok (received rs * 100 div n)" "percent (lost rs) n = Ok (lost rs * 100 div n)"
    using n assms(5) by (intro percent_fits; linarith)+
  have r: "n - lost rs = received rs" using n by simp
  have loop: "ping_loop (timed (sk_net sk) (dyn_ping sk (build_pinger c))) (target_of c) n 0 0 w1 =
      Some (Ok (map (shown_outcome (target_of c)) rs, total_elapsed rs, lost rs), w2)"
    using ping_loop_attempts [OF assms(3), of 0 "target_of c" 0] assms(4) by simp
  show "cli_main sk c n w = Some (Ok (DnsLookup addrs # map (shown_outcome (target_of c)) rs @
      [Statistic (total_elapsed rs) n (received rs) (received rs * 100 div n) (lost rs) (lost rs * 100 div n)]), w2)"
    unfolding cli_main_def Let_def
    by (simp add: assms(1,2) loop io_bind_def display_statistic_def p r)
qed

text \<open>
  C31. The command line's report. When the lookup and the pings of a run resolve without a panic, the
  output is the lookup line, one line per ping in order, and the statistic: sent, received and lost
  add up, the total is the sum of the round trips, the two percentages are rounded down and add up to
  99 or 100. The bounds are those of \<open>u64\<close>, past which the multiplication or the \<open>Duration\<close> sum panics.
\<close>

theorem cli_main_reports:
  assumes "resolve_target (net_regex (sk_net sk)) c = Ok s" and "resolve (sk_net sk) s w = Some (Ok addrs, w1)"
    and "attempts (timed (sk_net sk) (dyn_ping sk (build_pinger c))) n w1 = Some (Ok rs, w2)"
    and "total_elapsed rs < MAX_DURATION" and "n * 100 < 2 ^ 64"
  shows "cli_main sk c n w = Some (Ok (DnsLookup addrs # map (shown_outcome (target_of c)) rs @
      [Statistic (total_elapsed rs) n (received rs) (received rs * 100 div n) (lost rs) (lost rs * 100 div n)]), w2) \<and>
    received rs + lost rs = n \<and> (0 < n \<longrightarrow> received rs * 100 div n + lost rs * 100 div n \<in> {99, 100})"
  by (rule cli_main_reports_fact [OF assms])

text \<open>A run in the lab: one datagram is waiting and nothing answers, so one ping of three gets through.\<close>

definition lab_stack :: "(bytes \<Rightarrow> bytes option) \<Rightarrow> (lab_world, unit, 's) tungstenite \<Rightarrow> (lab_world, unit, 'k, 'e, 'n) quinn \<Rightarrow>
    (lab_world, 'ep, 't, 'ch, 'st) tonic \<Rightarrow> (lab_world, unit, unit, 's, 'k, 'e, 'n, 'ep, 't, 'ch, 'st) stack" where
  "lab_stack answer ws q t = \<lparr>sk_net = lab answer, sk_ws = ws, sk_quinn = q, sk_tonic = t\<rparr>"

lemma lab_stack_net [simp]: "sk_net (lab_stack answer ws q t) = lab answer"
  by (simp add: lab_stack_def)

definition one_datagram :: lab_world where
  "one_datagram = (lab_start [])\<lparr>inbox := [[7]]\<rparr>"

lemma udp_lab:
  "timed (lab (\<lambda>_. None)) (udp_ping (lab (\<lambda>_. None)) p) w =
     (case inbox w of [] \<Rightarrow> Some (Err (IoError TimedOut ''operation timed out''), w) | d # q \<Rightarrow> Some (Ok 0, w\<lparr>inbox := q\<rparr>))"
  by (simp add: timed_def udp_ping_def with_timeout_def udp_exchange_def io_bind_def lab_def lab_send_def lab_recv_def Let_def
      split: list.split)

lemma one_datagram_attempts:
  "attempts (timed (lab (\<lambda>_. None)) (udp_ping (lab (\<lambda>_. None)) p)) 3 one_datagram =
    Some (Ok [Inr 0, Inl (IoError TimedOut ''operation timed out''), Inl (IoError TimedOut ''operation timed out'')], lab_start [])"
  by (simp add: numeral_3_eq_3 io_catch_def io_bind_def udp_lab one_datagram_def lab_start_def)

lemma cli_main_reports_witness:
  "\<forall>ws q t. cli_main (lab_stack (\<lambda>_. None) ws q t) (CmdUdp ''srv:5300'') 3 one_datagram =
    Some (Ok [DnsLookup [], PingInfo ''srv:5300'' 0, PingFail ''srv:5300'', PingFail ''srv:5300'', Statistic 0 3 1 33 2 66], lab_start [])"
proof (intro allI)
  fix ws q t
  have r: "resolve (lab (\<lambda>_. None)) ''srv:5300'' one_datagram = Some (Ok [], one_datagram)"
    unfolding resolve_def by (simp add: lab_def [of "\<lambda>_. None"])
  show "cli_main (lab_stack (\<lambda>_. None) ws q t) (CmdUdp ''srv:5300'') 3 one_datagram =
    Some (Ok [DnsLookup [], PingInfo ''srv:5300'' 0, PingFail ''srv:5300'', PingFail ''srv:5300'', Statistic 0 3 1 33 2 66], lab_start [])"
    using cli_main_reports [of "lab_stack (\<lambda>_. None) ws q t" "CmdUdp ''srv:5300''", simplified, OF refl r one_datagram_attempts]
    by (simp add: MAX_DURATION_def)
qed

end
