(* ===== verification/CommandLine.thy ===== *)
theory CommandLine
  imports Cli
begin

text \<open>
  The command line of \<open>knockknock\<close>: what \<open>Cli\<close>, \<open>Command\<close>, \<open>HttpMethod\<close> and \<open>DnsType\<close> of \<open>knockknock/src/main.rs\<close>
  declare to clap, and how the matches become a \<open>Cli\<close>. clap is a parameter; what is relied on is stated for
  command lines in plain form, as its documentation has it.
\<close>

section \<open>Declarations\<close>

text \<open>
  An argument as the derive macros see it: a positional one, an option that is required, has a default, or may be left
  out, or a switch; and the values it takes.
\<close>

datatype shape = Positional | Required | Defaulted string | Optional | Switch

datatype value_kind = AnyText | Number64 | OneOf "string list"

record arg =
  arg_id :: string
  arg_short :: "char option"
  arg_long :: "string option"
  arg_shape :: shape
  arg_kind :: value_kind

datatype command_spec = Leaf "arg list" | Group "(string \<times> command_spec) list"

text \<open>\<open>long\<close> without a name is the field's, in kebab case.\<close>

definition kebab :: "string \<Rightarrow> string" where
  "kebab = map (\<lambda>c. if c = CHR ''_'' then CHR ''-'' else c)"

definition positional :: "string \<Rightarrow> arg" where
  "positional x = \<lparr>arg_id = x, arg_short = None, arg_long = None, arg_shape = Positional, arg_kind = AnyText\<rparr>"

definition option_arg :: "string \<Rightarrow> char option \<Rightarrow> shape \<Rightarrow> value_kind \<Rightarrow> arg" where
  "option_arg x c s k = \<lparr>arg_id = x, arg_short = c, arg_long = Some (kebab x), arg_shape = s, arg_kind = k\<rparr>"

text \<open>\<open>Cli\<close>: \<open>count\<close> is global, so every subcommand takes it too.\<close>

record Cli =
  cli_command :: Command
  cli_count :: nat

definition count_arg :: arg where
  "count_arg = option_arg ''count'' (Some (CHR ''c'')) (Defaulted ''3'') Number64"

text \<open>\<open>DnsType\<close>, by the names of its variants, and the names of \<open>HttpMethod\<close>'s.\<close>

definition dns_types :: "(string \<times> DnsType) list" where
  "dns_types = [(''a'', DnsA), (''aaaa'', DnsAaaa), (''cname'', DnsCname), (''mx'', DnsMx), (''ns'', DnsNs), (''txt'', DnsTxt)]"

definition http_methods :: "(string \<times> (string \<Rightarrow> http_command)) list" where
  "http_methods = [(''connect'', HttpConnect), (''get'', HttpGet), (''post'', HttpPost), (''put'', HttpPut),
     (''delete'', HttpDelete), (''patch'', HttpPatch)]"

definition cli_spec :: command_spec where
  "cli_spec = Group
     [(''tcp'', Leaf [positional ''target'']),
      (''udp'', Leaf [positional ''target'']),
      (''http'', Group (map (\<lambda>(x, _). (x, Leaf [positional ''target''])) http_methods)),
      (''ws'', Leaf [positional ''target'']),
      (''dns'', Leaf [positional ''server'', option_arg ''query'' (Some (CHR ''q'')) Required AnyText,
         option_arg ''record_type'' (Some (CHR ''t'')) (Defaulted ''a'') (OneOf (map fst dns_types))]),
      (''grpc'', Leaf [positional ''endpoint'', option_arg ''service'' None (Defaulted []) AnyText,
         option_arg ''watch'' None Switch AnyText]),
      (''hls'', Leaf [positional ''url'']),
      (''mqtt'', Leaf [positional ''broker'', option_arg ''client_id'' None Optional AnyText,
         option_arg ''v5'' None Switch AnyText]),
      (''tls'', Leaf [positional ''target'']),
      (''ntp'', Leaf [positional ''server'']),
      (''stun'', Leaf [positional ''server'']),
      (''turn'', Leaf [positional ''server'']),
      (''rtsp'', Leaf [positional ''target'']),
      (''rtmp'', Leaf [positional ''target'']),
      (''quic'', Leaf [positional ''endpoint'', option_arg ''alpn'' None (Defaulted ''h3'') AnyText])]"

section \<open>From matches to a command\<close>

text \<open>
  What clap yields: the subcommands chosen, and the value of each argument by its id (a switch is \<open>true\<close>
  or \<open>false\<close>). The derived code takes each field from the argument of its name.
\<close>

type_synonym matches = "string \<Rightarrow> string option"

text \<open>\<open>u64::from_str\<close>\<close>

definition parse_u64 :: "string \<Rightarrow> nat option" where
  "parse_u64 s =
     (let ds = (if starts_with ''+'' s then tl s else s)
      in if ds = [] \<or> \<not> list_all is_digit ds \<or> 2 ^ 64 \<le> dec_val ds then None else Some (dec_val ds))"

abbreviation one_field :: "(string \<Rightarrow> Command) \<Rightarrow> string \<Rightarrow> matches \<Rightarrow> Command option" where
  "one_field k x m \<equiv> map_option k (m x)"

definition variants :: "(string list \<times> (matches \<Rightarrow> Command option)) list" where
  "variants =
     [([''tcp''], one_field CmdTcp ''target''),
      ([''udp''], one_field CmdUdp ''target''),
      ([''ws''], one_field CmdWs ''target''),
      ([''dns''], \<lambda>m. Option.bind (m ''server'') (\<lambda>server. Option.bind (m ''query'') (\<lambda>q.
         Option.bind (m ''record_type'') (\<lambda>t. map_option (CmdDns server q) (map_of dns_types t))))),
      ([''grpc''], \<lambda>m. Option.bind (m ''endpoint'') (\<lambda>e. Option.bind (m ''service'') (\<lambda>s.
         map_option (\<lambda>watch. CmdGrpc e s (watch = ''true'')) (m ''watch'')))),
      ([''hls''], one_field CmdHls ''url''),
      ([''mqtt''], \<lambda>m. Option.bind (m ''broker'') (\<lambda>b. map_option (\<lambda>v5. CmdMqtt b (m ''client_id'') (v5 = ''true'')) (m ''v5''))),
      ([''tls''], one_field CmdTls ''target''),
      ([''ntp''], one_field CmdNtp ''server''),
      ([''stun''], one_field CmdStun ''server''),
      ([''turn''], one_field CmdTurn ''server''),
      ([''rtsp''], one_field CmdRtsp ''target''),
      ([''rtmp''], one_field CmdRtmp ''target''),
      ([''quic''], \<lambda>m. Option.bind (m ''endpoint'') (\<lambda>e. map_option (CmdQuic e) (m ''alpn'')))] @
     map (\<lambda>(x, k). ([''http'', x], one_field (\<lambda>t. CmdHttp (k t)) ''target'')) http_methods"

definition from_matches :: "string list \<times> matches \<Rightarrow> Cli option" where
  "from_matches pm =
     (case pm of (path, m) \<Rightarrow>
        Option.bind (Option.bind (map_of variants path) (\<lambda>build. build m)) (\<lambda>c.
        map_option (\<lambda>n. \<lparr>cli_command = c, cli_count = n\<rparr>) (Option.bind (m ''count'') parse_u64)))"

text \<open>
  \<open>Cli::try_parse_from\<close>, without the program's name in front, and \<open>main\<close>. \<open>clap\<close> yields \<open>None\<close> for its error, which
  \<open>Cli::parse\<close> prints before it ends the process; \<open>main\<close>'s result is then \<open>None\<close>.
\<close>

type_synonym clap = "string list \<Rightarrow> (string list \<times> matches) option"

definition Cli_try_parse :: "clap \<Rightarrow> string list \<Rightarrow> Cli option" where
  "Cli_try_parse clap argv = Option.bind (clap argv) from_matches"

definition knockknock_main :: "clap \<Rightarrow> ('w, 'h, 'c, 's, 'k, 'e, 'n, 'ep, 't, 'ch, 'st) stack \<Rightarrow> string list \<Rightarrow> ('w, display list option) io" where
  "knockknock_main clap sk argv =
     (case Cli_try_parse clap argv of
        None \<Rightarrow> io_ok None
      | Some cli \<Rightarrow> io_bind (cli_main sk (cli_command cli) (cli_count cli)) (\<lambda>shown. io_ok (Some shown)))"

section \<open>Command lines in plain form\<close>

text \<open>
  The documented reading of a command line whose words are subcommands, values that do not begin with a
  dash, and declared options in the form \<open>--long\<close> or \<open>-s\<close>, the value in the next word. An option may be given once;
  a required one must be; positional arguments are filled in order; a value must be one its argument takes.
\<close>

definition dashed :: "string \<Rightarrow> bool" where
  "dashed w = starts_with ''-'' w"

fun valid_value :: "value_kind \<Rightarrow> string \<Rightarrow> bool" where
  "valid_value AnyText v = True"
| "valid_value Number64 v = (parse_u64 v \<noteq> None)"
| "valid_value (OneOf vs) v = (v \<in> set vs)"

definition named_by :: "string \<Rightarrow> arg \<Rightarrow> bool" where
  "named_by w a = ((case arg_long a of Some l \<Rightarrow> w = ''--'' @ l | None \<Rightarrow> False) \<or>
     (case arg_short a of Some c \<Rightarrow> w = [CHR ''-'', c] | None \<Rightarrow> False))"

fun default_value :: "shape \<Rightarrow> string option" where
  "default_value (Defaulted d) = Some d"
| "default_value Switch = Some ''false''"
| "default_value _ = None"

definition with_defaults :: "arg list \<Rightarrow> matches \<Rightarrow> matches option" where
  "with_defaults args m =
     (if list_ex (\<lambda>a. arg_shape a \<in> {Positional, Required} \<and> m (arg_id a) = None) args then None
      else Some (\<lambda>x. case m x of Some v \<Rightarrow> Some v
        | None \<Rightarrow> Option.bind (find (\<lambda>a. arg_id a = x) args) (\<lambda>a. default_value (arg_shape a))))"

fun own_args :: "command_spec \<Rightarrow> arg list" where
  "own_args (Leaf args) = args"
| "own_args (Group _) = []"

function plain_parse :: "arg list \<Rightarrow> command_spec \<Rightarrow> matches \<Rightarrow> clap" where
  "plain_parse globals spec m [] =
     (case spec of Group _ \<Rightarrow> None | Leaf args \<Rightarrow> map_option (Pair []) (with_defaults (globals @ args) m))"
| "plain_parse globals spec m (w # ws) =
     (if dashed w then
        (case find (named_by w) (globals @ own_args spec) of
           None \<Rightarrow> None
         | Some a \<Rightarrow>
             if m (arg_id a) \<noteq> None then None
             else if arg_shape a = Switch then plain_parse globals spec (m(arg_id a \<mapsto> ''true'')) ws
             else (case ws of
                 [] \<Rightarrow> None
               | v # ws' \<Rightarrow> if dashed v \<or> \<not> valid_value (arg_kind a) v then None
                   else plain_parse globals spec (m(arg_id a \<mapsto> v)) ws'))
      else
        (case spec of
           Group subs \<Rightarrow> (case map_of subs w of
               None \<Rightarrow> None
             | Some sub \<Rightarrow> map_option (apfst ((#) w)) (plain_parse globals sub m ws))
         | Leaf args \<Rightarrow> (case find (\<lambda>a. arg_shape a = Positional \<and> m (arg_id a) = None) args of
               None \<Rightarrow> None
             | Some a \<Rightarrow> if valid_value (arg_kind a) w then plain_parse globals spec (m(arg_id a \<mapsto> w)) ws else None)))"
  by pat_completeness auto
termination by (relation "measure (\<lambda>(_, _, _, ws). length ws)") auto

fun all_args :: "command_spec \<Rightarrow> arg list" where
  "all_args (Leaf args) = args"
| "all_args (Group subs) = concat (map (\<lambda>(_, sub). all_args sub) subs)"

definition plain :: "string list \<Rightarrow> bool" where
  "plain argv = (list_all (\<lambda>w. dashed w \<longrightarrow> list_ex (named_by w) (count_arg # all_args cli_spec)) argv \<and>
     length (filter (\<lambda>w. named_by w count_arg) argv) \<le> 1)"

definition reads_plain_lines :: "clap \<Rightarrow> bool" where
  "reads_plain_lines clap = (\<forall>argv. plain argv \<longrightarrow> clap argv = plain_parse [count_arg] cli_spec Map.empty argv)"

section \<open>Reading arguments in any order\<close>

text \<open>
  An argument with its value as it is written: \<open>short\<close> asks for the short name where there is one.
\<close>

definition arg_name :: "bool \<Rightarrow> arg \<Rightarrow> string" where
  "arg_name short a =
     (case arg_short a of
        Some c \<Rightarrow> if short then [CHR ''-'', c] else ''--'' @ the (arg_long a)
      | None \<Rightarrow> ''--'' @ the (arg_long a))"

fun written :: "arg \<times> bool \<times> string \<Rightarrow> string list" where
  "written (a, short, v) =
     (case arg_shape a of Positional \<Rightarrow> [v] | Switch \<Rightarrow> [arg_name short a] | _ \<Rightarrow> [arg_name short a, v])"

definition writable :: "arg list \<Rightarrow> arg \<times> string \<Rightarrow> bool" where
  "writable args av =
     (case av of (a, v) \<Rightarrow> a \<in> set args \<and> (if arg_shape a = Switch then v = ''true'' else \<not> dashed v \<and> valid_value (arg_kind a) v))"

text \<open>Arguments that can be told apart: by their ids, their names, and at most one of them positional.\<close>

definition distinguishable :: "arg list \<Rightarrow> bool" where
  "distinguishable args =
     (distinct (map arg_id args) \<and> length (filter (\<lambda>a. arg_shape a = Positional) args) \<le> 1 \<and>
      list_all (\<lambda>a. arg_shape a = Positional \<longleftrightarrow> arg_long a = None) args \<and>
      list_all (\<lambda>a. arg_shape a = Positional \<or>
        find (named_by (arg_name True a)) args = Some a \<and> find (named_by (arg_name False a)) args = Some a) args)"

lemma dashed_name: "dashed (arg_name s a)"
  by (simp add: dashed_def arg_name_def starts_with_def split: option.split)

lemma find_unique:
  assumes "length (filter P xs) \<le> 1" and "x \<in> set xs" and "P x"
  shows "find P xs = Some x"
  using assms by (induction xs) (auto simp: filter_empty_conv split: if_splits)

lemma find_positional:
  assumes "length (filter (\<lambda>a. arg_shape a = Positional) args) \<le> 1"
    and "a \<in> set args" and "arg_shape a = Positional" and "m (arg_id a) = None"
  shows "find (\<lambda>a. arg_shape a = Positional \<and> m (arg_id a) = None) args = Some a"
proof (rule find_unique)
  have "filter (\<lambda>a. arg_shape a = Positional \<and> m (arg_id a) = None) args =
      filter (\<lambda>a. m (arg_id a) = None) (filter (\<lambda>a. arg_shape a = Positional) args)"
    by (simp add: conj_commute)
  then show "length (filter (\<lambda>a. arg_shape a = Positional \<and> m (arg_id a) = None) args) \<le> 1"
    using assms(1) length_filter_le [of "\<lambda>a. m (arg_id a) = None" "filter (\<lambda>a. arg_shape a = Positional) args"]
    by (metis order_trans)
qed (use assms in auto)

text \<open>\<open>globals\<close> are options, so that a positional argument of the two lists together is one of the leaf's.\<close>

lemma plain_parse_option:
  assumes "distinguishable (globals @ own_args spec)" and "writable (globals @ own_args spec) (a, v)" and "arg_shape a \<noteq> Positional"
    and "m (arg_id a) = None"
  shows "plain_parse globals spec m (written (a, s, v) @ ws) = plain_parse globals spec (m(arg_id a \<mapsto> v)) ws"
proof -
  have "a \<in> set (globals @ own_args spec)" using assms(2) by (simp add: writable_def)
  moreover have "list_all (\<lambda>a. arg_shape a = Positional \<or>
      find (named_by (arg_name True a)) (globals @ own_args spec) = Some a \<and>
      find (named_by (arg_name False a)) (globals @ own_args spec) = Some a) (globals @ own_args spec)"
    using assms(1) unfolding distinguishable_def by (elim conjE)
  ultimately have "find (named_by (arg_name s a)) (globals @ own_args spec) = Some a"
    using assms(3) unfolding list_all_iff by (cases s) (drule (1) bspec, simp only: simp_thms)+
  then show ?thesis using assms(2-4) by (cases "arg_shape a") (auto simp: writable_def dashed_name)
qed

lemma plain_parse_written:
  assumes "distinguishable (globals @ args)" and "list_all (\<lambda>a. arg_shape a \<noteq> Positional) globals"
    and "writable (globals @ args) (a, v)" and "m (arg_id a) = None"
  shows "plain_parse globals (Leaf args) m (written (a, s, v) @ ws) = plain_parse globals (Leaf args) (m(arg_id a \<mapsto> v)) ws"
proof (cases "arg_shape a = Positional")
  case True
  then have a: "a \<in> set args" using assms(2,3) by (auto simp: writable_def list_all_iff)
  have "length (filter (\<lambda>a. arg_shape a = Positional) args) \<le> 1" using assms(1) by (simp add: distinguishable_def)
  then have "find (\<lambda>a. arg_shape a = Positional \<and> m (arg_id a) = None) args = Some a"
    using a True assms(4) by (rule find_positional)
  then show ?thesis using assms(3) True by (simp add: writable_def)
next
  case False
  then show ?thesis using plain_parse_option [of globals "Leaf args"] assms by simp
qed

abbreviation strip :: "arg \<times> bool \<times> string \<Rightarrow> arg \<times> string" where
  "strip p \<equiv> (fst p, snd (snd p))"

abbreviation entry :: "arg \<times> string \<Rightarrow> string \<times> string" where
  "entry av \<equiv> (arg_id (fst av), snd av)"

lemma map_add_entry: "x \<notin> fst ` set es \<Longrightarrow> m(x \<mapsto> v) ++ map_of es = m ++ map_of ((x, v) # es)"
  by (simp add: map_add_upd_left dom_map_of_conv_image_fst)

lemma plain_parse_pieces:
  assumes "distinguishable (globals @ args)" and "list_all (\<lambda>a. arg_shape a \<noteq> Positional) globals"
    and "list_all (\<lambda>p. writable (globals @ args) (strip p)) ps" and "distinct (map (\<lambda>p. arg_id (fst p)) ps)"
    and "list_all (\<lambda>p. m (arg_id (fst p)) = None) ps"
  shows "plain_parse globals (Leaf args) m (concat (map written ps) @ ws) =
    plain_parse globals (Leaf args) (m ++ map_of (map (\<lambda>p. entry (strip p)) ps)) ws"
  using assms(3-5)
proof (induction ps arbitrary: m)
  case (Cons p ps)
  obtain a s v where p: "p = (a, s, v)" by (cases p)
  let ?m = "m(arg_id a \<mapsto> v)"
  have "plain_parse globals (Leaf args) m (written p @ concat (map written ps) @ ws) =
      plain_parse globals (Leaf args) ?m (concat (map written ps) @ ws)"
    using plain_parse_written [OF assms(1,2)] Cons.prems unfolding p by simp
  also have "\<dots> = plain_parse globals (Leaf args) (?m ++ map_of (map (\<lambda>p. entry (strip p)) ps)) ws"
  proof (rule Cons.IH)
    show "list_all (\<lambda>p. ?m (arg_id (fst p)) = None) ps"
      using Cons.prems unfolding p by (auto simp: list_all_iff image_iff)
  qed (use Cons.prems in simp_all)
  also have "?m ++ map_of (map (\<lambda>p. entry (strip p)) ps) = m ++ map_of (map (\<lambda>p. entry (strip p)) (p # ps))"
    using Cons.prems(2) map_add_entry [of "arg_id a" "map (\<lambda>p. entry (strip p)) ps" m v] unfolding p by (force simp: image_iff)
  finally show ?case by (simp only: list.map concat.simps append_assoc)
qed simp

text \<open>The words before the arguments.\<close>

fun spec_at :: "command_spec \<Rightarrow> string list \<Rightarrow> command_spec option" where
  "spec_at spec [] = Some spec"
| "spec_at (Group subs) (w # path) = Option.bind (map_of subs w) (\<lambda>sub. spec_at sub path)"
| "spec_at (Leaf args) (w # path) = None"

lemma spec_at_append: "spec_at spec (p @ q) = Option.bind (spec_at spec p) (\<lambda>sub. spec_at sub q)"
  by (induction spec p rule: spec_at.induct) (auto split: Option.bind_splits)

lemma plain_parse_path:
  assumes "spec_at spec path = Some sub" and "list_all (\<lambda>w. \<not> dashed w) path"
  shows "plain_parse globals spec m (path @ ws) = map_option (apfst ((@) path)) (plain_parse globals sub m ws)"
  using assms
proof (induction spec path rule: spec_at.induct)
  case (2 subs w path)
  then obtain c where c: "map_of subs w = Some c" "spec_at c path = Some sub" by (auto split: Option.bind_splits)
  with 2 show ?case by (simp add: option.map_comp comp_def apfst_def map_prod_def case_prod_beta)
qed (simp_all add: apfst_def map_prod_def case_prod_beta id_def option.map_ident)

text \<open>What was left out is filled in.\<close>

lemma with_defaults_all:
  assumes "distinct (map arg_id args)" and "fst ` set all \<subseteq> set args" and "distinct (map (\<lambda>av. arg_id (fst av)) all)"
    and "list_all (\<lambda>a. arg_shape a \<noteq> Optional \<longrightarrow> a \<in> fst ` set all) args"
    and "set given \<subseteq> set all" and "distinct (map (\<lambda>av. arg_id (fst av)) given)"
    and "list_all (\<lambda>av. av \<in> set given \<or> default_value (arg_shape (fst av)) = Some (snd av)) all"
  shows "with_defaults args (map_of (map entry given)) = Some (map_of (map entry all))"
proof -
  let ?m = "map_of (map entry given)"
  have in_all: "map_of (map entry all) (arg_id a) = Some v" if "(a, v) \<in> set all" for a v
    using that assms(3) by (intro map_of_is_SomeI) (force simp: comp_def)+
  have in_given: "?m (arg_id a) = Some v" if "(a, v) \<in> set given" for a v
    using that assms(6) by (intro map_of_is_SomeI) (force simp: comp_def)+
  have same: "a = b" if "a \<in> set args" "b \<in> set args" "arg_id a = arg_id b" for a b
    using that assms(1) by (meson distinct_map inj_onD)
  have none_left: "\<not> list_ex (\<lambda>a. arg_shape a \<in> {Positional, Required} \<and> ?m (arg_id a) = None) args"
  proof
    assume "list_ex (\<lambda>a. arg_shape a \<in> {Positional, Required} \<and> ?m (arg_id a) = None) args"
    then obtain a where a: "a \<in> set args" "arg_shape a \<in> {Positional, Required}" "?m (arg_id a) = None" by (auto simp: list_ex_iff)
    then obtain v where "(a, v) \<in> set all" using assms(4) by (force simp: list_all_iff)
    with a assms(7) in_given show False by (fastforce simp: list_all_iff)
  qed
  have "(case ?m x of Some v \<Rightarrow> Some v
      | None \<Rightarrow> Option.bind (find (\<lambda>a. arg_id a = x) args) (\<lambda>a. default_value (arg_shape a))) = map_of (map entry all) x" for x
  proof (cases "?m x")
    case (Some v)
    then obtain a where "(a, v) \<in> set given" "x = arg_id a" by (force dest: map_of_SomeD)
    then show ?thesis using Some in_all assms(5) by auto
  next
    case None
    show ?thesis
    proof (cases "find (\<lambda>a. arg_id a = x) args")
      case f: None
      then have "map_of (map entry all) x = None" using assms(2) by (force simp: find_None_iff map_of_eq_None_iff)
      with None f show ?thesis by simp
    next
      case f: (Some a)
      then have a: "a \<in> set args" "arg_id a = x" by (auto simp: find_Some_iff)
      show ?thesis
      proof (cases "a \<in> fst ` set all")
        case True
        then obtain v where v: "(a, v) \<in> set all" by force
        then have "default_value (arg_shape a) = Some v"
          using assms(7) None in_given a(2) by (fastforce simp: list_all_iff)
        with None f in_all [OF v] a(2) show ?thesis by simp
      next
        case False
        then have "arg_shape a = Optional" using a(1) assms(4) by (auto simp: list_all_iff)
        moreover have "x \<noteq> arg_id (fst av)" if "av \<in> set all" for av
          using same [OF a(1), of "fst av"] a(2) False assms(2) that by blast
        then have "x \<notin> (\<lambda>av. arg_id (fst av)) ` set all" by blast
        then have "map_of (map entry all) x = None" by (simp add: map_of_eq_None_iff image_image)
        ultimately show ?thesis using None f by simp
      qed
    qed
  qed
  with none_left show ?thesis by (simp add: with_defaults_def)
qed

section \<open>The command lines of a command\<close>

text \<open>
  The subcommands of a command, and the value of every argument it has a value for; of these, a command
  line may leave out those that are the default.
\<close>

fun method_name :: "http_command \<Rightarrow> string" where
  "method_name (HttpConnect _) = ''connect''"
| "method_name (HttpGet _) = ''get''"
| "method_name (HttpPost _) = ''post''"
| "method_name (HttpPut _) = ''put''"
| "method_name (HttpDelete _) = ''delete''"
| "method_name (HttpPatch _) = ''patch''"

fun path_of :: "Command \<Rightarrow> string list" where
  "path_of (CmdTcp _) = [''tcp'']"
| "path_of (CmdUdp _) = [''udp'']"
| "path_of (CmdHttp m) = [''http'', method_name m]"
| "path_of (CmdWs _) = [''ws'']"
| "path_of (CmdDns _ _ _) = [''dns'']"
| "path_of (CmdGrpc _ _ _) = [''grpc'']"
| "path_of (CmdHls _) = [''hls'']"
| "path_of (CmdMqtt _ _ _) = [''mqtt'']"
| "path_of (CmdTls _) = [''tls'']"
| "path_of (CmdNtp _) = [''ntp'']"
| "path_of (CmdStun _) = [''stun'']"
| "path_of (CmdTurn _) = [''turn'']"
| "path_of (CmdRtsp _) = [''rtsp'']"
| "path_of (CmdRtmp _) = [''rtmp'']"
| "path_of (CmdQuic _ _) = [''quic'']"

definition query_arg where "query_arg = option_arg ''query'' (Some (CHR ''q'')) Required AnyText"
definition dns_type_arg where
  "dns_type_arg = option_arg ''record_type'' (Some (CHR ''t'')) (Defaulted ''a'') (OneOf (map fst dns_types))"
definition service_arg where "service_arg = option_arg ''service'' None (Defaulted []) AnyText"
definition watch_arg where "watch_arg = option_arg ''watch'' None Switch AnyText"
definition client_id_arg where "client_id_arg = option_arg ''client_id'' None Optional AnyText"
definition v5_arg where "v5_arg = option_arg ''v5'' None Switch AnyText"
definition alpn_arg where "alpn_arg = option_arg ''alpn'' None (Defaulted ''h3'') AnyText"

fun dns_type_name :: "DnsType \<Rightarrow> string" where
  "dns_type_name DnsA = ''a''"
| "dns_type_name DnsAaaa = ''aaaa''"
| "dns_type_name DnsCname = ''cname''"
| "dns_type_name DnsMx = ''mx''"
| "dns_type_name DnsNs = ''ns''"
| "dns_type_name DnsTxt = ''txt''"

definition switch :: "bool \<Rightarrow> string" where
  "switch b = (if b then ''true'' else ''false'')"

fun own_values :: "Command \<Rightarrow> (arg \<times> string) list" where
  "own_values (CmdDns server q t) = [(positional ''server'', server), (query_arg, q), (dns_type_arg, dns_type_name t)]"
| "own_values (CmdGrpc endpoint service watch) =
     [(positional ''endpoint'', endpoint), (service_arg, service), (watch_arg, switch watch)]"
| "own_values (CmdMqtt broker client_id v5) =
     [(positional ''broker'', broker)] @ (case client_id of None \<Rightarrow> [] | Some cid \<Rightarrow> [(client_id_arg, cid)]) @ [(v5_arg, switch v5)]"
| "own_values (CmdQuic endpoint alpn) = [(positional ''endpoint'', endpoint), (alpn_arg, alpn)]"
| "own_values (CmdHls url) = [(positional ''url'', url)]"
| "own_values (CmdNtp server) = [(positional ''server'', server)]"
| "own_values (CmdStun server) = [(positional ''server'', server)]"
| "own_values (CmdTurn server) = [(positional ''server'', server)]"
| "own_values c = [(positional ''target'', target_of c)]"

fun own_specs :: "Command \<Rightarrow> arg list" where
  "own_specs (CmdDns _ _ _) = [positional ''server'', query_arg, dns_type_arg]"
| "own_specs (CmdGrpc _ _ _) = [positional ''endpoint'', service_arg, watch_arg]"
| "own_specs (CmdMqtt _ _ _) = [positional ''broker'', client_id_arg, v5_arg]"
| "own_specs (CmdQuic _ _) = [positional ''endpoint'', alpn_arg]"
| "own_specs (CmdHls _) = [positional ''url'']"
| "own_specs (CmdNtp _) = [positional ''server'']"
| "own_specs (CmdStun _) = [positional ''server'']"
| "own_specs (CmdTurn _) = [positional ''server'']"
| "own_specs _ = [positional ''target'']"

lemmas own_args_defs = query_arg_def dns_type_arg_def service_arg_def watch_arg_def client_id_arg_def v5_arg_def alpn_arg_def

lemma spec_at_path: "spec_at cli_spec (path_of c) = Some (Leaf (own_specs c))"
proof (cases c)
  case (CmdHttp m)
  then show ?thesis by (cases m) (simp_all add: cli_spec_def http_methods_def)
qed (simp_all add: cli_spec_def own_args_defs)

lemma path_not_dashed: "list_all (\<lambda>w. \<not> dashed w) (path_of c)"
proof (cases c)
  case (CmdHttp m)
  then show ?thesis by (cases m) (simp_all add: dashed_def starts_with_def)
qed (simp_all add: dashed_def starts_with_def)

lemma distinguishable_lists:
  "distinguishable [count_arg, positional ''target'']" "distinguishable [count_arg, positional ''server'']"
  "distinguishable [count_arg, positional ''url'']" "distinguishable [count_arg, positional ''endpoint'', alpn_arg]"
  "distinguishable [count_arg, positional ''broker'', client_id_arg, v5_arg]"
  "distinguishable [count_arg, positional ''endpoint'', service_arg, watch_arg]"
  "distinguishable [count_arg, positional ''server'', query_arg, dns_type_arg]" "distinguishable [count_arg]"
  by code_simp+

lemma specs_distinguishable: "distinguishable (count_arg # own_specs c)"
  by (cases c) (simp_all add: distinguishable_lists)

lemma arg_ids:
  "arg_id count_arg = ''count''" "arg_id (positional x) = x" "arg_id query_arg = ''query''" "arg_id dns_type_arg = ''record_type''"
  "arg_id service_arg = ''service''" "arg_id watch_arg = ''watch''" "arg_id client_id_arg = ''client_id''" "arg_id v5_arg = ''v5''"
  "arg_id alpn_arg = ''alpn''" "arg_shape client_id_arg = Optional"
  by (simp_all add: own_args_defs positional_def option_arg_def count_arg_def)

lemma values_declared:
  "fst ` set (own_values c) \<subseteq> set (own_specs c)" "distinct (map (\<lambda>av. arg_id (fst av)) (own_values c))"
  "list_all (\<lambda>a. arg_shape a \<noteq> Optional \<longrightarrow> a \<in> fst ` set (own_values c)) (own_specs c)"
  "list_all (\<lambda>a. arg_id a \<noteq> ''count'') (own_specs c)"
  by (cases c; auto simp: arg_ids split: option.split)+

text \<open>The values of a command with its count, and what is built from them.\<close>

definition all_values :: "Command \<Rightarrow> nat \<Rightarrow> (arg \<times> string) list" where
  "all_values c n = (count_arg, dec n) # own_values c"

lemma parse_u64_dec: "n < 2 ^ 64 \<Longrightarrow> parse_u64 (dec n) = Some n"
proof -
  assume n: "n < 2 ^ 64"
  have "\<not> starts_with ''+'' (dec n)"
    using dec_digits [of n] dec_ne_Nil [of n] by (cases "dec n") (auto simp: starts_with_def is_digit_def)
  then show ?thesis using n by (simp add: parse_u64_def Let_def dec_digits dec_ne_Nil)
qed

lemma from_all_values:
  assumes "n < 2 ^ 64"
  shows "from_matches (path_of c, map_of (map entry (all_values c n))) = Some \<lparr>cli_command = c, cli_count = n\<rparr>"
proof (cases c)
  case (CmdHttp m)
  then show ?thesis
    using assms by (cases m) (simp_all add: from_matches_def variants_def http_methods_def all_values_def count_arg_def option_arg_def positional_def parse_u64_dec)
next
  case (CmdDns server q t)
  then show ?thesis
    using assms by (cases t) (simp_all add: from_matches_def variants_def all_values_def count_arg_def own_args_defs
        option_arg_def positional_def parse_u64_dec dns_types_def)
next
  case (CmdMqtt broker cid v5)
  then show ?thesis
    using assms by (cases cid) (simp_all add: from_matches_def variants_def all_values_def count_arg_def own_args_defs
        option_arg_def positional_def parse_u64_dec switch_def)
qed (use assms in \<open>simp_all add: from_matches_def variants_def all_values_def count_arg_def own_args_defs
      option_arg_def positional_def parse_u64_dec switch_def\<close>)

text \<open>
  \<open>ps\<close> writes a command with its count: each argument once, in any order and by either of its names, with its value
  in a form that can be written, and nothing left out but defaults.
\<close>

definition writes :: "Command \<Rightarrow> nat \<Rightarrow> (arg \<times> bool \<times> string) list \<Rightarrow> bool" where
  "writes c n ps =
     (distinct (map (\<lambda>p. arg_id (fst p)) ps) \<and> list_all (\<lambda>p. writable (count_arg # own_specs c) (strip p)) ps \<and>
      list_all (\<lambda>p. strip p \<in> set (all_values c n)) ps \<and>
      list_all (\<lambda>av. av \<in> set (map strip ps) \<or> default_value (arg_shape (fst av)) = Some (snd av)) (all_values c n))"

lemma entries_distinct: "distinct (map (\<lambda>av. arg_id (fst av)) (all_values c n))"
proof -
  have "''count'' \<notin> (\<lambda>av. arg_id (fst av)) ` set (own_values c)"
    using values_declared(1) [of c] values_declared(4) [of c] unfolding list_all_iff by (smt (verit) image_iff subset_iff)
  then show ?thesis using values_declared(2) [of c] by (simp add: all_values_def arg_ids)
qed

lemma plain_parse_writes:
  assumes "writes c n (early @ ps)" and "list_all (\<lambda>p. fst p = count_arg) early"
  shows "plain_parse [count_arg] cli_spec Map.empty
      (take i (path_of c) @ concat (map written early) @ drop i (path_of c) @ concat (map written ps)) =
    Some (path_of c, map_of (map entry (all_values c n)))"
proof -
  let ?leaf = "Leaf (own_specs c)" and ?m = "map_of (map (\<lambda>p. entry (strip p)) early)"
  obtain mid where mid: "spec_at cli_spec (take i (path_of c)) = Some mid" "spec_at mid (drop i (path_of c)) = Some ?leaf"
    using spec_at_append [of cli_spec "take i (path_of c)" "drop i (path_of c)"] spec_at_path [of c] by (auto split: Option.bind_splits)
  have nd: "list_all (\<lambda>w. \<not> dashed w) (take i (path_of c))" "list_all (\<lambda>w. \<not> dashed w) (drop i (path_of c))"
    using path_not_dashed [of c] by (auto simp: list_all_iff dest: in_set_takeD in_set_dropD)
  have ps: "list_all (\<lambda>p. writable (count_arg # own_specs c) (strip p)) ps" "distinct (map (\<lambda>p. arg_id (fst p)) ps)"
    using assms(1) by (simp_all add: writes_def)
  have fresh: "?m (arg_id (fst p)) = None" if "p \<in> set ps" for p
  proof -
    have "arg_id (fst p) \<notin> (\<lambda>p. arg_id (fst p)) ` set early" using assms(1) that by (auto simp: writes_def)
    then show ?thesis by (simp add: map_of_eq_None_iff image_image)
  qed
  have "plain_parse [count_arg] ?leaf ?m (concat (map written ps) @ []) =
      plain_parse [count_arg] ?leaf (?m ++ map_of (map (\<lambda>p. entry (strip p)) ps)) []"
  proof (rule plain_parse_pieces)
    show "list_all (\<lambda>p. ?m (arg_id (fst p)) = None) ps" using fresh by (simp add: list_all_iff)
  qed (use ps specs_distinguishable [of c] in \<open>simp_all add: count_arg_def option_arg_def\<close>)
  moreover have "with_defaults (count_arg # own_specs c) (map_of (map entry (map strip (ps @ early)))) = Some (map_of (map entry (all_values c n)))"
  proof (rule with_defaults_all [OF _ _ entries_distinct])
    show "distinct (map arg_id (count_arg # own_specs c))" using specs_distinguishable [of c] by (simp add: distinguishable_def)
    show "fst ` set (all_values c n) \<subseteq> set (count_arg # own_specs c)" using values_declared(1) [of c] by (auto simp: all_values_def)
    show "list_all (\<lambda>a. arg_shape a \<noteq> Optional \<longrightarrow> a \<in> fst ` set (all_values c n)) (count_arg # own_specs c)"
      using values_declared(3) [of c] by (auto simp: all_values_def list_all_iff)
    show "set (map strip (ps @ early)) \<subseteq> set (all_values c n)" using assms(1) by (auto simp: writes_def list_all_iff)
    show "distinct (map (\<lambda>av. arg_id (fst av)) (map strip (ps @ early)))" using assms(1) by (auto simp: writes_def comp_def)
    show "list_all (\<lambda>av. av \<in> set (map strip (ps @ early)) \<or> default_value (arg_shape (fst av)) = Some (snd av)) (all_values c n)"
      using assms(1) by (auto simp: writes_def list_all_iff)
  qed
  moreover have "?m ++ map_of (map (\<lambda>p. entry (strip p)) ps) = map_of (map entry (map strip (ps @ early)))"
    by (simp add: comp_def)
  ultimately have leaf: "plain_parse [count_arg] ?leaf ?m (concat (map written ps)) = Some ([], map_of (map entry (all_values c n)))"
    by simp
  have "plain_parse [count_arg] mid Map.empty (concat (map written early) @ ws) = plain_parse [count_arg] mid ?m ws" for ws
  proof (cases early)
    case (Cons p rest)
    have "rest = []"
      using assms Cons by (cases rest) (auto simp: writes_def)
    moreover obtain s v where p: "p = (count_arg, s, v)" using assms(2) Cons by (cases p) auto
    have own: "own_args mid = [] \<or> mid = ?leaf"
      using mid(2) by (cases mid; cases "drop i (path_of c)") auto
    have "plain_parse [count_arg] mid Map.empty (written (count_arg, s, v) @ ws) = plain_parse [count_arg] mid [arg_id count_arg \<mapsto> v] ws"
    proof (rule plain_parse_option)
      show "distinguishable ([count_arg] @ own_args mid)"
        using own specs_distinguishable [of c] distinguishable_lists(8) by auto
      show "writable ([count_arg] @ own_args mid) (count_arg, v)"
        using assms(1) Cons p by (auto simp: writes_def writable_def)
    qed (simp_all add: count_arg_def option_arg_def)
    ultimately show ?thesis by (simp add: Cons p)
  qed simp
  then have "plain_parse [count_arg] mid Map.empty (concat (map written early) @ drop i (path_of c) @ concat (map written ps)) =
      Some (drop i (path_of c), map_of (map entry (all_values c n)))"
    using plain_parse_path [OF mid(2) nd(2), of "[count_arg]" ?m "concat (map written ps)"] leaf by simp
  then show ?thesis
    using plain_parse_path [OF mid(1) nd(1), of "[count_arg]" Map.empty "concat (map written early) @ drop i (path_of c) @ concat (map written ps)"]
    by simp
qed

text \<open>Such a command line is in plain form.\<close>

lemma named_dashed: "named_by w a \<Longrightarrow> dashed w"
  by (auto simp: named_by_def dashed_def starts_with_def split: option.splits)

lemma own_specs_declared: "set (own_specs c) \<subseteq> set (all_args cli_spec)"
  by (cases c) (simp_all add: cli_spec_def http_methods_def own_args_defs)

lemma arg_name_names:
  assumes "distinguishable args" and "a \<in> set args" and "arg_shape a \<noteq> Positional"
  shows "find (named_by (arg_name s a)) args = Some a" and "named_by (arg_name s a) a"
proof -
  have "list_all (\<lambda>a. arg_shape a = Positional \<or>
      find (named_by (arg_name True a)) args = Some a \<and> find (named_by (arg_name False a)) args = Some a) args"
    using assms(1) unfolding distinguishable_def by (elim conjE)
  then show f: "find (named_by (arg_name s a)) args = Some a"
    using assms(2,3) unfolding list_all_iff by (cases s) (drule (1) bspec, simp only: simp_thms)+
  show "named_by (arg_name s a) a" using f by (auto simp: find_Some_iff)
qed

lemma written_dashed:
  assumes "writable args (a, v)" and "w \<in> set (written (a, s, v))" and "dashed w"
  shows "w = arg_name s a \<and> arg_shape a \<noteq> Positional"
  using assms by (auto simp: writable_def split: shape.splits if_splits)

lemma written_names_count:
  assumes "distinguishable (count_arg # args)" and "writable (count_arg # args) (a, v)"
  shows "filter (\<lambda>w. named_by w count_arg) (written (a, s, v)) = (if a = count_arg then [arg_name s a] else [])"
proof -
  have v: "\<not> named_by v count_arg" if "arg_shape a \<noteq> Switch"
    using assms(2) that named_dashed [of v] by (auto simp: writable_def)
  have n: "named_by (arg_name s a) count_arg \<longleftrightarrow> a = count_arg" if "arg_shape a \<noteq> Positional"
    using arg_name_names [OF assms(1) _ that, of s] assms(2) by (auto simp: writable_def split: if_splits)
  have "arg_shape count_arg = Defaulted ''3''" by (simp add: count_arg_def option_arg_def)
  with v n show ?thesis by (cases "arg_shape a") auto
qed

lemma written_count:
  assumes "distinguishable (count_arg # args)" and "list_all (\<lambda>p. writable (count_arg # args) (strip p)) ps"
    and "distinct (map (\<lambda>p. arg_id (fst p)) ps)"
  shows "length (filter (\<lambda>w. named_by w count_arg) (concat (map written ps))) \<le> 1"
proof -
  have "length (filter (\<lambda>w. named_by w count_arg) (concat (map written ps))) = length (filter (\<lambda>p. fst p = count_arg) ps)"
    using assms(2)
  proof (induction ps)
    case (Cons p ps)
    then show ?case using written_names_count [OF assms(1), of "fst p" "snd (snd p)" "fst (snd p)"] by simp
  qed simp
  also have "length (filter (\<lambda>p. fst p = count_arg) ps) \<le> 1"
    using assms(3)
  proof (induction ps)
    case (Cons p ps)
    have "filter (\<lambda>p. fst p = count_arg) ps = []" if "fst p = count_arg"
      using Cons.prems that by (auto simp: filter_empty_conv image_iff)
    then show ?case using Cons by simp
  qed simp
  finally show ?thesis .
qed

lemma plain_writes:
  assumes "writes c n (early @ ps)"
  shows "plain (take i (path_of c) @ concat (map written early) @ drop i (path_of c) @ concat (map written ps))"
proof -
  note d = specs_distinguishable [of c]
  have w: "list_all (\<lambda>p. writable (count_arg # own_specs c) (strip p)) (early @ ps)" "distinct (map (\<lambda>p. arg_id (fst p)) (early @ ps))"
    using assms by (simp_all add: writes_def)
  have declared: "list_ex (named_by w) (count_arg # all_args cli_spec)"
    if "p \<in> set (early @ ps)" "w \<in> set (written p)" "dashed w" for p w
  proof -
    obtain a s v where p: "p = (a, s, v)" by (cases p)
    have wr: "writable (count_arg # own_specs c) (a, v)" using w(1) that(1) unfolding list_all_iff p by fastforce
    then have "a \<in> set (count_arg # own_specs c)" by (simp add: writable_def)
    moreover have "named_by w a"
      using written_dashed [OF wr _ that(3)] that(2) arg_name_names(2) [OF d calculation, of s] by (auto simp: p)
    ultimately show ?thesis using own_specs_declared [of c] by (auto simp: list_ex_iff)
  qed
  have path: "\<not> dashed x" if "x \<in> set (path_of c)" for x using path_not_dashed [of c] that by (simp add: list_all_iff)
  have "filter (\<lambda>w. named_by w count_arg) xs = []" if "set xs \<subseteq> set (path_of c)" for xs
    using that path named_dashed by (auto simp: filter_empty_conv)
  then have "filter (\<lambda>w. named_by w count_arg) (take i (path_of c)) = []" "filter (\<lambda>w. named_by w count_arg) (drop i (path_of c)) = []"
    by (simp_all add: set_take_subset set_drop_subset)
  then have "length (filter (\<lambda>w. named_by w count_arg)
      (take i (path_of c) @ concat (map written early) @ drop i (path_of c) @ concat (map written ps))) \<le> 1"
    using written_count [OF d w] by simp
  moreover have "list_all (\<lambda>w. dashed w \<longrightarrow> list_ex (named_by w) (count_arg # all_args cli_spec))
      (take i (path_of c) @ concat (map written early) @ drop i (path_of c) @ concat (map written ps))"
    unfolding list_all_iff using declared path by (auto dest: in_set_takeD in_set_dropD)
  ultimately show ?thesis by (simp add: plain_def)
qed

text \<open>A line for every command whose texts do not begin with a dash: everything by its long name, and no switch that is off.\<close>

definition canonical :: "Command \<Rightarrow> nat \<Rightarrow> (arg \<times> bool \<times> string) list" where
  "canonical c n = map (\<lambda>(a, v). (a, False, v)) (filter (\<lambda>(a, v). arg_shape a \<noteq> Switch \<or> v = ''true'') (all_values c n))"

definition dashless :: "Command \<Rightarrow> bool" where
  "dashless c = list_all (\<lambda>(a, v). \<not> dashed v) (own_values c)"

lemma values_valid: "(a, v) \<in> set (own_values c) \<Longrightarrow> arg_shape a \<noteq> Switch \<Longrightarrow> valid_value (arg_kind a) v"
  "(a, v) \<in> set (own_values c) \<Longrightarrow> arg_shape a = Switch \<Longrightarrow> v = ''true'' \<or> default_value (arg_shape a) = Some v"
proof -
  have t: "dns_type_name t \<in> fst ` set dns_types" for t by (cases t) (simp_all add: dns_types_def)
  show "(a, v) \<in> set (own_values c) \<Longrightarrow> arg_shape a \<noteq> Switch \<Longrightarrow> valid_value (arg_kind a) v"
    by (cases c) (auto simp: own_args_defs option_arg_def positional_def t split: option.splits)
  show "(a, v) \<in> set (own_values c) \<Longrightarrow> arg_shape a = Switch \<Longrightarrow> v = ''true'' \<or> default_value (arg_shape a) = Some v"
    by (cases c) (auto simp: own_args_defs option_arg_def positional_def switch_def split: option.splits if_splits)
qed

lemma dec_not_dashed: "\<not> dashed (dec n)"
  using dec_digits [of n] by (cases "dec n") (auto simp: dashed_def starts_with_def is_digit_def)

lemma canonical_writes:
  assumes "n < 2 ^ 64" and "dashless c"
  shows "writes c n (canonical c n)"
proof -
  let ?keep = "\<lambda>(a, v). arg_shape a \<noteq> Switch \<or> v = ''true''"
  have strip: "map strip (canonical c n) = filter ?keep (all_values c n)"
    by (simp add: canonical_def comp_def case_prod_beta)
  have ids: "map (\<lambda>p. arg_id (fst p)) (canonical c n) = map (\<lambda>av. arg_id (fst av)) (filter ?keep (all_values c n))"
    by (simp add: canonical_def comp_def case_prod_beta)
  have "writable (count_arg # own_specs c) av" if mem: "av \<in> set (filter ?keep (all_values c n))" for av
  proof -
    obtain a v where av: "av = (a, v)" by (cases av)
    consider "a = count_arg" "v = dec n" | "(a, v) \<in> set (own_values c)" "arg_shape a \<noteq> Switch \<or> v = ''true''"
      using mem by (auto simp: av all_values_def split: if_splits)
    then show ?thesis
    proof cases
      case 1
      then show ?thesis
        using assms(1) parse_u64_dec [of n] by (simp add: av writable_def dec_not_dashed count_arg_def option_arg_def)
    next
      case 2
      then have "a \<in> set (own_specs c)" using values_declared(1) [of c] by force
      then show ?thesis using 2 values_valid(1) [OF 2(1)] assms(2) by (auto simp: av writable_def dashless_def list_all_iff)
    qed
  qed
  then have "list_all (writable (count_arg # own_specs c)) (map strip (canonical c n))" unfolding strip by (simp add: list_all_iff)
  moreover have "distinct (map (\<lambda>av. arg_id (fst av)) (filter ?keep (all_values c n)))"
    using entries_distinct [of c n] by (rule distinct_map_filter)
  moreover have "list_all (\<lambda>av. av \<in> set (map strip (canonical c n)) \<or> default_value (arg_shape (fst av)) = Some (snd av)) (all_values c n)"
    unfolding strip list_all_iff using values_valid(2) [of _ _ c] by (auto simp: all_values_def count_arg_def option_arg_def) blast+
  moreover have "list_all (\<lambda>av. av \<in> set (all_values c n)) (map strip (canonical c n))" unfolding strip by (auto simp: list_all_iff)
  ultimately show ?thesis unfolding writes_def ids by (simp add: list_all_iff)
qed

section \<open>Reading a command line back\<close>

lemma try_parse_writes:
  assumes "reads_plain_lines clap" and "n < 2 ^ 64" and "writes c n (early @ ps)" and "list_all (\<lambda>p. fst p = count_arg) early"
  shows "Cli_try_parse clap (take i (path_of c) @ concat (map written early) @ drop i (path_of c) @ concat (map written ps)) =
    Some \<lparr>cli_command = c, cli_count = n\<rparr>"
  using assms(1) plain_writes [OF assms(3), of i]
  by (simp add: Cli_try_parse_def reads_plain_lines_def plain_parse_writes [OF assms(3,4)] from_all_values [OF assms(2)])

text \<open>So \<open>main\<close> runs what was written; the canonical line is one that runs a command.\<close>

lemma main_runs_command:
  assumes "reads_plain_lines clap" and "n < 2 ^ 64" and "dashless c"
  shows "knockknock_main clap sk (path_of c @ concat (map written (canonical c n))) =
    io_bind (cli_main sk c n) (\<lambda>shown. io_ok (Some shown))"
  using try_parse_writes [OF assms(1,2), of c "[]" "canonical c n" "length (path_of c)"] canonical_writes [OF assms(2,3)]
  by (simp add: knockknock_main_def)

end
