(* ===== verification/LineLaws.thy ===== *)
theory LineLaws
  imports CommandLine
begin

text \<open>
  The laws of the command line: what a parser of plain lines accepts always becomes a command, and every
  command is read back from the lines that write it.
\<close>

section \<open>What is accepted becomes a command\<close>

text \<open>Arguments of one id take the same values in every subcommand.\<close>

definition declared_args :: "arg list" where
  "declared_args = [count_arg, positional ''target'', positional ''server'', positional ''url'', positional ''endpoint'', positional ''broker'',
     query_arg, dns_type_arg, service_arg, watch_arg, client_id_arg, v5_arg, alpn_arg]"

lemma all_declared: "set (count_arg # all_args cli_spec) = set declared_args"
  by (simp add: cli_spec_def http_methods_def declared_args_def own_args_defs) blast

lemma declared_ids: "distinct (map arg_id declared_args)"
  by (simp add: declared_args_def arg_ids)

definition value_of :: "arg \<Rightarrow> string \<Rightarrow> bool" where
  "value_of a v = (if arg_shape a = Switch then v = ''true'' \<or> v = ''false'' else valid_value (arg_kind a) v)"

definition well_valued :: "matches \<Rightarrow> bool" where
  "well_valued m = list_all (\<lambda>a. pred_option (value_of a) (m (arg_id a))) declared_args"

lemma well_valued_upd:
  assumes "well_valued m" and "a \<in> set declared_args" and "value_of a v"
  shows "well_valued (m(arg_id a \<mapsto> v))"
  using assms declared_ids by (auto simp: well_valued_def list_all_iff distinct_map dest: inj_onD)

lemma find_in: "find P xs = Some x \<Longrightarrow> x \<in> set xs \<and> P x"
  by (induction xs) (auto split: if_splits)

lemma plain_parse_sound:
  assumes "plain_parse globals spec m ws = Some (path, m')" and "set (globals @ all_args spec) \<subseteq> set declared_args" and "well_valued m"
  shows "\<exists>args m0. spec_at spec path = Some (Leaf args) \<and> with_defaults (globals @ args) m0 = Some m' \<and> well_valued m0"
  using assms
proof (induction globals spec m ws arbitrary: path rule: plain_parse.induct)
  case (1 globals spec m)
  then show ?case by (auto split: command_spec.splits)
next
  case (2 globals spec m w ws)
  have own: "set (own_args spec) \<subseteq> set (all_args spec)" by (cases spec) simp_all
  show ?case
  proof (cases "dashed w")
    case d: True
    obtain a where a: "find (named_by w) (globals @ own_args spec) = Some a" "m (arg_id a) = None"
      using "2.prems"(1) d by (auto split: option.splits if_splits)
    then have mem: "a \<in> set declared_args" using own "2.prems"(2) find_in [OF a(1)] by auto
    show ?thesis
    proof (cases "arg_shape a = Switch")
      case True
      have run: "plain_parse globals spec (m(arg_id a \<mapsto> ''true'')) ws = Some (path, m')" using "2.prems"(1) d a True by simp
      have "well_valued (m(arg_id a \<mapsto> ''true''))" by (rule well_valued_upd [OF "2.prems"(3) mem]) (simp add: value_of_def True)
      with "2.IH"(1) [OF d a(1) _ True run "2.prems"(2)] a(2) show ?thesis by blast
    next
      case False
      then obtain v ws' where v: "ws = v # ws'" "\<not> dashed v" "valid_value (arg_kind a) v"
        using "2.prems"(1) d a by (auto split: list.splits if_splits)
      have run: "plain_parse globals spec (m(arg_id a \<mapsto> v)) ws' = Some (path, m')" using "2.prems"(1) d a False v by simp
      have "well_valued (m(arg_id a \<mapsto> v))" by (rule well_valued_upd [OF "2.prems"(3) mem]) (simp add: value_of_def False v(3))
      with "2.IH"(2) [OF d a(1) _ False v(1) _ run "2.prems"(2)] a(2) v(2,3) show ?thesis by blast
    qed
  next
    case d: False
    show ?thesis
    proof (cases spec)
      case (Group subs)
      then obtain sub p where s: "map_of subs w = Some sub" "plain_parse globals sub m ws = Some (p, m')" "path = w # p"
        using "2.prems"(1) d by (auto split: option.splits)
      have "set (all_args sub) \<subseteq> set (all_args spec)" using map_of_SomeD [OF s(1)] by (force simp: Group)
      then have "set (globals @ all_args sub) \<subseteq> set declared_args" using "2.prems"(2) by auto
      from "2.IH"(4) [OF d Group s(1,2) this "2.prems"(3)] show ?thesis by (simp add: Group s)
    next
      case (Leaf args)
      then obtain a where a: "find (\<lambda>a. arg_shape a = Positional \<and> m (arg_id a) = None) args = Some a" "valid_value (arg_kind a) w"
        using "2.prems"(1) d by (auto split: option.splits if_splits)
      then have "a \<in> set args" "arg_shape a = Positional" by (auto simp: find_Some_iff)
      moreover from this have "a \<in> set declared_args" using "2.prems"(2) by (auto simp: Leaf)
      ultimately have "well_valued (m(arg_id a \<mapsto> w))"
        using a(2) by (intro well_valued_upd [OF "2.prems"(3)]) (simp_all add: value_of_def)
      moreover have "plain_parse globals spec (m(arg_id a \<mapsto> w)) ws = Some (path, m')" using "2.prems"(1) d a by (simp add: Leaf)
      ultimately show ?thesis using "2.IH"(3) [OF d Leaf a _ "2.prems"(2)] by blast
    qed
  qed
qed

text \<open>The leaves are the commands'.\<close>

lemma leaf_is_command:
  assumes "spec_at cli_spec path = Some (Leaf args)"
  shows "\<exists>c. path = path_of c \<and> args = own_specs c"
proof -
  have leaf: "spec_at (Leaf as) p = Some (Leaf bs) \<longleftrightarrow> p = [] \<and> as = bs" for as bs :: "arg list" and p by (cases p) auto
  obtain w p where path: "path = w # p" using assms by (cases path) (auto simp: cli_spec_def)
  show ?thesis
  proof (cases "w = ''http''")
    case True
    then have "spec_at (Group (map (\<lambda>(x, _). (x, Leaf [positional ''target''])) http_methods)) p = Some (Leaf args)"
      using assms by (simp add: path cli_spec_def)
    then obtain x where x: "p = [x]" "x \<in> fst ` set http_methods" "args = [positional ''target'']"
      by (cases p) (auto simp: http_methods_def leaf split: if_splits)
    then obtain k where "(x, k) \<in> set http_methods" by force
    then have "x = method_name (k [])" by (auto simp: http_methods_def)
    then show ?thesis using x True by (intro exI [of _ "CmdHttp (k [])"]) (simp add: path)
  next
    case False
    let ?cs = "[CmdTcp [], CmdUdp [], CmdWs [], CmdDns [] [] DnsA, CmdGrpc [] [] False, CmdHls [], CmdMqtt [] None False, CmdTls [], CmdNtp [],
      CmdStun [], CmdTurn [], CmdRtsp [], CmdRtmp [], CmdQuic [] []]"
    have "\<exists>c \<in> set ?cs. path = path_of c \<and> args = own_specs c"
      using assms False by (auto simp: path cli_spec_def leaf own_args_defs split: if_splits)
    then show ?thesis by blast
  qed
qed

lemma defaults_valid: "list_all (\<lambda>a. pred_option (value_of a) (default_value (arg_shape a))) declared_args"
  by (simp add: declared_args_def value_of_def own_args_defs count_arg_def option_arg_def positional_def dns_types_def
      parse_u64_def Let_def starts_with_def is_digit_def dec_val_def digit_val_def)

lemma with_defaults_values:
  assumes "with_defaults args m = Some m'" and "set args \<subseteq> set declared_args" and "well_valued m" and "a \<in> set args" and "arg_shape a \<noteq> Optional"
  shows "\<exists>v. m' (arg_id a) = Some v \<and> value_of a v"
proof (cases "m (arg_id a)")
  case (Some v)
  then have "pred_option (value_of a) (Some v)" using assms(2,3,4) unfolding well_valued_def list_all_iff by (metis subsetD)
  then show ?thesis using Some assms(1) by (auto simp: with_defaults_def split: if_splits)
next
  case None
  have f: "find (\<lambda>b. arg_id b = arg_id a) args = Some a"
  proof (cases "find (\<lambda>b. arg_id b = arg_id a) args")
    case None
    then show ?thesis using assms(4) by (auto simp: find_None_iff)
  next
    case (Some b)
    then have "b \<in> set declared_args" "a \<in> set declared_args" "arg_id b = arg_id a" using find_in [OF Some] assms(2,4) by auto
    with declared_ids Some show ?thesis by (metis distinct_map inj_onD)
  qed
  have "\<not> list_ex (\<lambda>a. arg_shape a \<in> {Positional, Required} \<and> m (arg_id a) = None) args"
    using assms(1) unfolding with_defaults_def by (metis option.distinct(1))
  then have "arg_shape a \<notin> {Positional, Required}" using assms(4) None unfolding list_ex_iff by blast
  then obtain d where d: "default_value (arg_shape a) = Some d" using assms(5) by (cases "arg_shape a") auto
  then have "value_of a d" using defaults_valid assms(2,4) by (force simp: list_all_iff)
  then show ?thesis using assms(1) None f d by (auto simp: with_defaults_def split: if_splits)
qed

lemma parse_u64_range: "parse_u64 s = Some n \<Longrightarrow> n < 2 ^ 64"
  by (auto simp: parse_u64_def Let_def split: if_splits)

text \<open>A command's fields, from values of its arguments.\<close>

lemma fields_build:
  assumes "list_all (\<lambda>a. arg_shape a \<noteq> Optional \<longrightarrow> (\<exists>v. m (arg_id a) = Some v \<and> value_of a v)) (own_specs c)"
  shows "\<exists>k. Option.bind (map_of variants (path_of c)) (\<lambda>build. build m) = Some k \<and> path_of k = path_of c"
proof (cases c)
  case (CmdHttp x)
  then show ?thesis
    using assms by (cases x) (auto simp: variants_def http_methods_def positional_def)
next
  case (CmdDns server q t)
  then obtain s' q' t' where "m ''server'' = Some s'" "m ''query'' = Some q'" "m ''record_type'' = Some t'" "value_of dns_type_arg t'"
    using assms by (auto simp: arg_ids own_args_defs option_arg_def positional_def)
  moreover from this have "t' \<in> fst ` set dns_types" by (simp add: value_of_def own_args_defs option_arg_def)
  then obtain t'' where "map_of dns_types t' = Some t''" by (auto simp: dns_types_def)
  ultimately show ?thesis using CmdDns by (simp add: variants_def)
qed (use assms in \<open>auto simp: variants_def own_args_defs option_arg_def positional_def\<close>)

lemma accepted_becomes_command:
  assumes "plain_parse [count_arg] cli_spec Map.empty argv = Some pm"
  shows "\<exists>cli. from_matches pm = Some cli \<and> path_of (cli_command cli) = fst pm \<and> cli_count cli < 2 ^ 64"
proof -
  obtain path m where pm: "pm = (path, m)" by (cases pm)
  have "well_valued Map.empty" by (simp add: well_valued_def list_all_iff)
  then obtain args m0 where p: "spec_at cli_spec path = Some (Leaf args)" "with_defaults (count_arg # args) m0 = Some m" "well_valued m0"
    using plain_parse_sound [of "[count_arg]" cli_spec Map.empty argv path m] assms all_declared by (auto simp: pm)
  obtain c where c: "path = path_of c" "args = own_specs c" using leaf_is_command [OF p(1)] by blast
  have sub: "set (count_arg # args) \<subseteq> set declared_args" using own_specs_declared [of c] all_declared by (auto simp: c)
  have v: "\<exists>v. m (arg_id a) = Some v \<and> value_of a v" if "a \<in> set (count_arg # args)" "arg_shape a \<noteq> Optional" for a
    using with_defaults_values [OF p(2) sub p(3) that] .
  then obtain k where k: "Option.bind (map_of variants path) (\<lambda>build. build m) = Some k" "path_of k = path"
    using fields_build [of m c] by (auto simp: c list_all_iff)
  obtain n where "m ''count'' = Some n" "parse_u64 n \<noteq> None"
    using v [of count_arg] by (auto simp: arg_ids value_of_def count_arg_def option_arg_def)
  then obtain y where y: "Option.bind (m ''count'') parse_u64 = Some y" "y < 2 ^ 64" using parse_u64_range by auto
  have "from_matches pm = Some \<lparr>cli_command = k, cli_count = y\<rparr>" unfolding from_matches_def pm prod.case k(1) y(1) by simp
  then show ?thesis using k(2) y(2) by (simp add: pm)
qed

section \<open>Properties\<close>

text \<open>
  C7. The command line. With any parser that reads plain lines as clap documents, a command and a count are read
  back from every way to write them: the arguments in any order, by their short or long names, defaults
  left out or not, the count before, between or after the subcommands. Every command whose texts do not begin with
  a dash can be written; and whatever plain line the parser accepts becomes a command of the subcommands it
  names, with a count that fits a \<open>u64\<close>: the derived conversion never refuses what clap has accepted.
\<close>

theorem command_line_roundtrip:
  assumes "reads_plain_lines clap" and "n < 2 ^ 64"
  shows "(writes c n (early @ ps) \<and> list_all (\<lambda>p. fst p = count_arg) early \<longrightarrow>
      Cli_try_parse clap (take i (path_of c) @ concat (map written early) @ drop i (path_of c) @ concat (map written ps)) =
        Some \<lparr>cli_command = c, cli_count = n\<rparr>) \<and>
    (dashless c \<longrightarrow> writes c n (canonical c n)) \<and>
    (plain argv \<and> clap argv = Some pm \<longrightarrow>
      (\<exists>cli. Cli_try_parse clap argv = Some cli \<and> path_of (cli_command cli) = fst pm \<and> cli_count cli < 2 ^ 64))"
proof (intro conjI impI; (elim conjE)?)
  assume "plain argv" and accepted: "clap argv = Some pm"
  then have "plain_parse [count_arg] cli_spec Map.empty argv = Some pm" using assms(1) by (simp add: reads_plain_lines_def)
  from accepted_becomes_command [OF this]
  show "\<exists>cli. Cli_try_parse clap argv = Some cli \<and> path_of (cli_command cli) = fst pm \<and> cli_count cli < 2 ^ 64"
    by (simp add: Cli_try_parse_def accepted)
qed (rule try_parse_writes [OF assms] canonical_writes [OF assms(2)]; assumption)+

lemma command_line_roundtrip_witness:
  "Cli_try_parse (plain_parse [count_arg] cli_spec Map.empty) [''-c'', ''5'', ''dns'', ''--query'', ''example.com'', ''8.8.8.8''] =
    Some \<lparr>cli_command = CmdDns ''8.8.8.8'' ''example.com'' DnsA, cli_count = 5\<rparr> \<and>
   writes (CmdTcp ''srv:80'') 5 (canonical (CmdTcp ''srv:80'') 5) \<and>
   (\<exists>cli. Cli_try_parse (plain_parse [count_arg] cli_spec Map.empty) [''tcp'', ''srv:80''] = Some cli \<and> path_of (cli_command cli) = [''tcp''])"
proof -
  let ?clap = "plain_parse [count_arg] cli_spec Map.empty"
  let ?early = "[(count_arg, True, ''5'')]" and ?ps = "[(query_arg, False, ''example.com''), (positional ''server'', False, ''8.8.8.8'')]"
  have five: "dec 5 = ''5''" by (simp add: dec.simps digit_char_def)
  have "parse_u64 ''5'' \<noteq> None" using parse_u64_dec [of 5] five by simp
  then have "list_all (\<lambda>p. writable (count_arg # own_specs (CmdDns ''8.8.8.8'' ''example.com'' DnsA)) (strip p)) (?early @ ?ps)"
    by (simp add: writable_def own_args_defs count_arg_def option_arg_def positional_def dashed_def starts_with_def)
  then have w: "writes (CmdDns ''8.8.8.8'' ''example.com'' DnsA) 5 (?early @ ?ps)"
    by (simp add: writes_def all_values_def five arg_ids) (simp add: dns_type_arg_def option_arg_def)
  have r: "reads_plain_lines ?clap" by (simp add: reads_plain_lines_def)
  have n: "(5 :: nat) < 2 ^ 64" by simp
  have d: "dashless (CmdTcp ''srv:80'')" by (simp add: dashless_def dashed_def starts_with_def)
  have p: "plain [''tcp'', ''srv:80'']" by (simp add: plain_def dashed_def starts_with_def named_by_def count_arg_def option_arg_def)
  have a: "\<exists>m. ?clap [''tcp'', ''srv:80''] = Some ([''tcp''], m)"
    by (simp add: cli_spec_def dashed_def starts_with_def with_defaults_def count_arg_def option_arg_def positional_def)
  then obtain m where m: "?clap [''tcp'', ''srv:80''] = Some ([''tcp''], m)" by blast
  note law = command_line_roundtrip [OF r n]
  have "Cli_try_parse ?clap [''-c'', ''5'', ''dns'', ''--query'', ''example.com'', ''8.8.8.8''] =
      Some \<lparr>cli_command = CmdDns ''8.8.8.8'' ''example.com'' DnsA, cli_count = 5\<rparr>"
    using law [THEN conjunct1, of "CmdDns ''8.8.8.8'' ''example.com'' DnsA" ?early ?ps 0] w
    by (simp add: arg_name_def own_args_defs count_arg_def option_arg_def positional_def kebab_def)
  moreover have "writes (CmdTcp ''srv:80'') 5 (canonical (CmdTcp ''srv:80'') 5)"
    using law [THEN conjunct2, THEN conjunct1, of "CmdTcp ''srv:80''"] d by blast
  moreover have "\<exists>cli. Cli_try_parse ?clap [''tcp'', ''srv:80''] = Some cli \<and> path_of (cli_command cli) = [''tcp'']"
    using law [THEN conjunct2, THEN conjunct2, of "[''tcp'', ''srv:80'']" "([''tcp''], m)"] p m by auto
  ultimately show ?thesis by blast
qed

end
