(* ===== verification/Conformance.thy ===== *)
theory Conformance
  imports Pingers UriRange
begin

text \<open>
  The unit tests of \<open>zpinger\<close>, translated: each test of the repository as a Boolean over the definitions that
  model the functions it calls, with the test's own inputs and expectations. An \<open>unwrap\<close> that would panic makes
  its test false. Tests that parse a target are functions of the regex engine. The tests that drive a stream get
  their bytes from a script, whole, as a \<open>Cursor\<close> or a slice gives them.
\<close>

section \<open>Definitions\<close>

definition unwrap_then :: "'a result \<Rightarrow> ('a \<Rightarrow> bool) \<Rightarrow> bool" where
  "unwrap_then r f = (case r of Ok x \<Rightarrow> f x | Err _ \<Rightarrow> False | Panic _ \<Rightarrow> False)"

definition unwrap_eq :: "'a result \<Rightarrow> 'a \<Rightarrow> bool" where
  "unwrap_eq r y = unwrap_then r (\<lambda>x. x = y)"

subsection \<open>\<open>ntp.rs\<close>\<close>

definition ntp_build_request_packet_shape :: bool where
  "ntp_build_request_packet_shape =
     (let p = ntp_build_request
      in length p = NTP_PACKET_LEN \<and> p ! 0 = 0x23 \<and> list_all (\<lambda>b. b = 0) (drop 1 p))"

definition ntp_validate_response_accepts_well_formed_server_reply :: bool where
  "ntp_validate_response_accepts_well_formed_server_reply =
     is_ok (ntp_validate_response ((replicate NTP_PACKET_LEN 0)[0 := push_bit 3 NTP_VERSION OR MODE_SERVER]))"

definition ntp_validate_response_accepts_broadcast_mode :: bool where
  "ntp_validate_response_accepts_broadcast_mode =
     is_ok (ntp_validate_response ((replicate NTP_PACKET_LEN 0)[0 := push_bit 3 NTP_VERSION OR MODE_BROADCAST]))"

definition ntp_validate_response_rejects_short_packet :: bool where
  "ntp_validate_response_rejects_short_packet = is_err (ntp_validate_response (replicate (NTP_PACKET_LEN - 1) 0))"

definition ntp_validate_response_rejects_long_packet :: bool where
  "ntp_validate_response_rejects_long_packet = is_err (ntp_validate_response (replicate (NTP_PACKET_LEN + 1) 0))"

definition ntp_validate_response_rejects_client_mode :: bool where
  "ntp_validate_response_rejects_client_mode =
     is_err (ntp_validate_response ((replicate NTP_PACKET_LEN 0)[0 := push_bit 3 NTP_VERSION OR MODE_CLIENT]))"

definition ntp_validate_response_rejects_version_mismatch :: bool where
  "ntp_validate_response_rejects_version_mismatch =
     is_err (ntp_validate_response ((replicate NTP_PACKET_LEN 0)[0 := push_bit 3 2 OR MODE_SERVER]))"

definition ntp_server_endpoint_applies_default_port :: "engine \<Rightarrow> bool" where
  "ntp_server_endpoint_applies_default_port rx =
     unwrap_eq (ntp_server_endpoint rx ''time.example.com'') ''time.example.com:123''"

definition ntp_server_endpoint_keeps_explicit_port :: "engine \<Rightarrow> bool" where
  "ntp_server_endpoint_keeps_explicit_port rx =
     unwrap_eq (ntp_server_endpoint rx ''time.example.com:1234'') ''time.example.com:1234''"

subsection \<open>\<open>dns.rs\<close>\<close>

definition dns_encode_name_simple :: bool where
  "dns_encode_name_simple =
     unwrap_eq (encode_name ''example.com'') ([7] @ bytes_of ''example'' @ [3] @ bytes_of ''com'' @ [0])"

definition dns_encode_name_strips_trailing_dot :: bool where
  "dns_encode_name_strips_trailing_dot =
     unwrap_then (encode_name ''example.com.'') (\<lambda>with_dot.
     unwrap_then (encode_name ''example.com'') (\<lambda>without_dot. with_dot = without_dot))"

definition dns_encode_name_rejects_empty_label :: bool where
  "dns_encode_name_rejects_empty_label = is_err (encode_name ''foo..bar'')"

definition dns_encode_name_rejects_oversize_label :: bool where
  "dns_encode_name_rejects_oversize_label = is_err (encode_name (replicate 64 CHR ''a''))"

definition dns_build_query_lengths :: bool where
  "dns_build_query_lengths =
     unwrap_then (build_query 0x1234 ''a.b'' 1) (\<lambda>q.
       length q = 12 + 5 + 4 \<and> slice 0 2 q = be16 0x1234 \<and> slice 2 4 q = be16 0x0100 \<and> slice 4 6 q = be16 1)"

definition dns_well_formed_response :: "bytes \<Rightarrow> u16 \<Rightarrow> bytes" where
  "dns_well_formed_response request id' =
     (let buf = request;
          buf = copy_at 0 (be16 id') buf
      in copy_at 2 (be16 0x8000) buf)"

definition dns_validate_response_rejects_short_buffer :: bool where
  "dns_validate_response_rejects_short_buffer =
     unwrap_then (build_query 0xDEAD ''a.b'' 1) (\<lambda>request. is_err (dns_validate_response (replicate 5 0) request 0))"

definition dns_validate_response_rejects_id_mismatch :: bool where
  "dns_validate_response_rejects_id_mismatch =
     unwrap_then (build_query 0xDEAD ''a.b'' 1) (\<lambda>request.
       let buf = dns_well_formed_response request 0xBEEF;
           buf = copy_at 2 (be16 0x8000) buf
       in is_err (dns_validate_response buf request 0xDEAD))"

definition dns_validate_response_rejects_query_qr :: bool where
  "dns_validate_response_rejects_query_qr =
     unwrap_then (build_query 0xDEAD ''a.b'' 1) (\<lambda>request.
       let buf = dns_well_formed_response request 0xDEAD;
           buf = copy_at 2 (be16 0) buf
       in is_err (dns_validate_response buf request 0xDEAD))"

definition dns_validate_response_rejects_nonzero_rcode :: bool where
  "dns_validate_response_rejects_nonzero_rcode =
     unwrap_then (build_query 0xDEAD ''a.b'' 1) (\<lambda>request.
       let buf = dns_well_formed_response request 0xDEAD;
           buf = copy_at 2 (be16 0x8003) buf
       in is_err (dns_validate_response buf request 0xDEAD))"

definition dns_validate_response_rejects_question_mismatch :: bool where
  "dns_validate_response_rejects_question_mismatch =
     unwrap_then (build_query 0xDEAD ''a.b'' 1) (\<lambda>request.
       let buf = dns_well_formed_response request 0xDEAD;
           buf = buf[13 := (buf ! 13) XOR 0xFF]
       in is_err (dns_validate_response buf request 0xDEAD))"

definition dns_validate_response_rejects_zero_qdcount :: bool where
  "dns_validate_response_rejects_zero_qdcount =
     unwrap_then (build_query 0xDEAD ''a.b'' 1) (\<lambda>request.
       let buf = dns_well_formed_response request 0xDEAD;
           buf = copy_at 4 (be16 0) buf
       in is_err (dns_validate_response buf request 0xDEAD))"

definition dns_validate_response_rejects_truncated_question :: bool where
  "dns_validate_response_rejects_truncated_question =
     unwrap_then (build_query 0xDEAD ''a.b'' 1) (\<lambda>request.
       let buf = dns_well_formed_response request 0xDEAD;
           cut = take (length buf - 2) buf
       in is_err (dns_validate_response cut request 0xDEAD))"

definition dns_validate_response_accepts_well_formed :: bool where
  "dns_validate_response_accepts_well_formed =
     unwrap_then (build_query 0xDEAD ''a.b'' 1) (\<lambda>request.
       let buf = dns_well_formed_response request 0xDEAD
       in is_ok (dns_validate_response buf request 0xDEAD))"

definition dns_server_endpoint_applies_default_port :: "engine \<Rightarrow> bool" where
  "dns_server_endpoint_applies_default_port rx = unwrap_eq (dns_server_endpoint rx ''8.8.8.8'') ''8.8.8.8:53''"

definition dns_server_endpoint_keeps_explicit_port :: "engine \<Rightarrow> bool" where
  "dns_server_endpoint_keeps_explicit_port rx = unwrap_eq (dns_server_endpoint rx ''8.8.8.8:5353'') ''8.8.8.8:5353''"

subsection \<open>\<open>stun.rs\<close>\<close>

definition stun_build_message_no_attributes :: bool where
  "stun_build_message_no_attributes =
     (let txid = replicate STUN_TXID_LEN 0xAB
      in unwrap_then (build_message MSG_BINDING_REQUEST [] txid) (\<lambda>pkt.
           length pkt = STUN_HEADER_LEN \<and> slice 0 2 pkt = be16 MSG_BINDING_REQUEST \<and> slice 2 4 pkt = be16 0 \<and>
           slice 4 8 pkt = be32 MAGIC_COOKIE \<and> slice 8 20 pkt = txid))"

definition stun_build_message_with_attributes :: bool where
  "stun_build_message_with_attributes =
     (let txid = replicate STUN_TXID_LEN 0; attrs = [1, 2, 3, 4]
      in unwrap_then (build_message 0x0003 attrs txid) (\<lambda>pkt.
           length pkt = STUN_HEADER_LEN + 4 \<and> u16_of_be (pkt ! 2) (pkt ! 3) = 4 \<and> drop STUN_HEADER_LEN pkt = attrs))"

text \<open>The buffer most of the tests poke together.\<close>

definition stun_test_response :: "u16 \<Rightarrow> u32 \<Rightarrow> bytes \<Rightarrow> bytes" where
  "stun_test_response ty cookie txid =
     (let buf = replicate STUN_HEADER_LEN 0;
          buf = copy_at 0 (be16 ty) buf;
          buf = copy_at 4 (be32 cookie) buf
      in copy_at 8 txid buf)"

definition stun_validate_accepts_well_formed :: bool where
  "stun_validate_accepts_well_formed =
     (let txid = replicate STUN_TXID_LEN 0x55
      in is_ok (validate_binding_response (stun_test_response MSG_BINDING_SUCCESS MAGIC_COOKIE txid) txid))"

definition stun_validate_rejects_short_buffer :: bool where
  "stun_validate_rejects_short_buffer =
     is_err (validate_binding_response (replicate (STUN_HEADER_LEN - 1) 0) (replicate STUN_TXID_LEN 0))"

definition stun_validate_rejects_wrong_type :: bool where
  "stun_validate_rejects_wrong_type =
     (let txid = replicate STUN_TXID_LEN 0x55
      in is_err (validate_binding_response (stun_test_response MSG_BINDING_REQUEST MAGIC_COOKIE txid) txid))"

definition stun_validate_rejects_bad_cookie :: bool where
  "stun_validate_rejects_bad_cookie =
     (let txid = replicate STUN_TXID_LEN 0x55
      in is_err (validate_binding_response (stun_test_response MSG_BINDING_SUCCESS 0xDEADBEEF txid) txid))"

definition stun_validate_rejects_txid_mismatch :: bool where
  "stun_validate_rejects_txid_mismatch =
     (let sent = replicate STUN_TXID_LEN 0x55; other = replicate STUN_TXID_LEN 0x66
      in is_err (validate_binding_response (stun_test_response MSG_BINDING_SUCCESS MAGIC_COOKIE other) sent))"

definition stun_server_endpoint_applies_default_port :: "engine \<Rightarrow> bool" where
  "stun_server_endpoint_applies_default_port rx =
     unwrap_eq (stun_server_endpoint STUN_DEFAULT_PORT rx ''stun.example.com'') ''stun.example.com:3478''"

definition stun_server_endpoint_keeps_explicit_port :: "engine \<Rightarrow> bool" where
  "stun_server_endpoint_keeps_explicit_port rx =
     unwrap_eq (stun_server_endpoint STUN_DEFAULT_PORT rx ''stun.example.com:19302'') ''stun.example.com:19302''"

subsection \<open>\<open>turn.rs\<close>\<close>

definition turn_requested_transport_is_udp_17 :: bool where
  "turn_requested_transport_is_udp_17 =
     (let attr = build_requested_transport_attribute
      in u16_of_be (attr ! 0) (attr ! 1) = 0x0019 \<and> u16_of_be (attr ! 2) (attr ! 3) = 4 \<and> attr ! 4 = 17 \<and>
         slice 5 8 attr = [0, 0, 0])"

definition turn_make_response_with_error :: "bytes \<Rightarrow> u8 \<Rightarrow> u8 \<Rightarrow> bytes" where
  "turn_make_response_with_error txid cls number =
     (let body = be16 ATTR_ERROR_CODE @ be16 4 @ [0] @ [0] @ [cls AND 0x07] @ [number]
      in be16 MSG_ALLOCATE_ERROR @ be16 (of_nat (length body)) @ be32 MAGIC_COOKIE @ txid @ body)"

definition turn_validates_401_unauthorized :: bool where
  "turn_validates_401_unauthorized =
     (let txid = replicate STUN_TXID_LEN 0xAA
      in is_ok (validate_allocate_error_response (turn_make_response_with_error txid 4 1) txid))"

definition turn_rejects_other_error_codes :: bool where
  "turn_rejects_other_error_codes =
     (let txid = replicate STUN_TXID_LEN 0xAA
      in is_err (validate_allocate_error_response (turn_make_response_with_error txid 4 0) txid))"

definition turn_rejects_missing_error_code_attribute :: bool where
  "turn_rejects_missing_error_code_attribute =
     (let txid = replicate STUN_TXID_LEN 0xAA;
          pkt = be16 MSG_ALLOCATE_ERROR @ be16 0 @ be32 MAGIC_COOKIE @ txid
      in is_err (validate_allocate_error_response pkt txid))"

definition turn_rejects_wrong_message_type :: bool where
  "turn_rejects_wrong_message_type =
     (let txid = replicate STUN_TXID_LEN 0xAA;
          pkt = turn_make_response_with_error txid 4 1;
          pkt = copy_at 0 (be16 0x0103) pkt
      in is_err (validate_allocate_error_response pkt txid))"

subsection \<open>\<open>mqtt.rs\<close>\<close>

definition mqtt_varint_one_byte :: bool where
  "mqtt_varint_one_byte = (encode_varint 0 = [0x00] \<and> encode_varint 1 = [0x01] \<and> encode_varint 127 = [0x7F])"

definition mqtt_varint_two_bytes :: bool where
  "mqtt_varint_two_bytes = (encode_varint 128 = [0x80, 0x01] \<and> encode_varint 16383 = [0xFF, 0x7F])"

definition mqtt_build_connect_v3_1_1_smallest_client_id :: bool where
  "mqtt_build_connect_v3_1_1_smallest_client_id =
     (let pkt = build_connect ''a'' 30 V3_1_1
      in length pkt = 15 \<and> pkt ! 0 = TYPE_CONNECT \<and> pkt ! 1 = 13 \<and>
         slice 2 4 pkt = be16 (of_nat (length (bytes_of ''MQTT''))) \<and> slice 4 8 pkt = bytes_of ''MQTT'' \<and>
         pkt ! 8 = 4 \<and> pkt ! 9 = CONNECT_FLAGS_CLEAN_SESSION \<and> slice 10 12 pkt = be16 30 \<and>
         slice 12 14 pkt = be16 1 \<and> pkt ! 14 = of_char CHR ''a'')"

definition mqtt_build_connect_v5_includes_empty_properties :: bool where
  "mqtt_build_connect_v5_includes_empty_properties =
     (let pkt = build_connect ''a'' 30 V5
      in length pkt = 16 \<and> pkt ! 0 = TYPE_CONNECT \<and> pkt ! 1 = 14 \<and>
         pkt ! 8 = 5 \<and> pkt ! 9 = CONNECT_FLAGS_CLEAN_SESSION \<and> slice 10 12 pkt = be16 30 \<and>
         pkt ! 12 = 0x00 \<and> slice 13 15 pkt = be16 1 \<and> pkt ! 15 = of_char CHR ''a'')"

definition mqtt_validate_connack_v5_with_properties_tail_is_accepted :: bool where
  "mqtt_validate_connack_v5_with_properties_tail_is_accepted =
     is_ok (validate_connack \<lparr>packet_type = TYPE_CONNACK,
       packet_body = [0x00, 0x00, 0x05, 0x11, 0x00, 0x00, 0x00, 0x10]\<rparr>)"

definition mqtt_read_one :: "bytes \<Rightarrow> MqttPacket option" where
  "mqtt_read_one bytes =
     (case read_packet script_io () \<lparr>chunks = [bytes], sent = []\<rparr> of Some (Ok p, _) \<Rightarrow> Some p | _ \<Rightarrow> None)"

definition mqtt_read_packet_roundtrip :: bool where
  "mqtt_read_packet_roundtrip =
     (case mqtt_read_one [TYPE_CONNACK, 0x02, 0x00, 0x00] of
        Some p \<Rightarrow> packet_type p = TYPE_CONNACK \<and> packet_body p = [0x00, 0x00] | None \<Rightarrow> False)"

definition mqtt_read_packet_zero_body :: bool where
  "mqtt_read_packet_zero_body =
     (case mqtt_read_one [TYPE_PINGRESP, 0x00] of
        Some p \<Rightarrow> packet_type p = TYPE_PINGRESP \<and> packet_body p = [] | None \<Rightarrow> False)"

definition mqtt_validate_connack_accepts_zero_return_code :: bool where
  "mqtt_validate_connack_accepts_zero_return_code =
     is_ok (validate_connack \<lparr>packet_type = TYPE_CONNACK, packet_body = [0x00, 0x00]\<rparr>)"

definition mqtt_validate_connack_rejects_nonzero_return_code :: bool where
  "mqtt_validate_connack_rejects_nonzero_return_code =
     is_err (validate_connack \<lparr>packet_type = TYPE_CONNACK, packet_body = [0x00, 0x05]\<rparr>)"

definition mqtt_validate_connack_rejects_wrong_packet_type :: bool where
  "mqtt_validate_connack_rejects_wrong_packet_type =
     is_err (validate_connack \<lparr>packet_type = TYPE_PINGRESP, packet_body = [0x00, 0x00]\<rparr>)"

definition mqtt_validate_pingresp_accepts_empty_body :: bool where
  "mqtt_validate_pingresp_accepts_empty_body = is_ok (validate_pingresp \<lparr>packet_type = TYPE_PINGRESP, packet_body = []\<rparr>)"

definition mqtt_validate_pingresp_rejects_payload :: bool where
  "mqtt_validate_pingresp_rejects_payload = is_err (validate_pingresp \<lparr>packet_type = TYPE_PINGRESP, packet_body = [0xFF]\<rparr>)"

definition mqtt_validate_pingresp_rejects_wrong_type :: bool where
  "mqtt_validate_pingresp_rejects_wrong_type = is_err (validate_pingresp \<lparr>packet_type = TYPE_CONNACK, packet_body = []\<rparr>)"

definition mqtt_endpoint_for_applies_default_port :: "engine \<Rightarrow> bool" where
  "mqtt_endpoint_for_applies_default_port rx =
     unwrap_then (get_uri rx ''broker.example.com'') (\<lambda>uri.
       unwrap_eq (mqtt_endpoint_for uri DEFAULT_PORT_PLAIN) ''broker.example.com:1883'')"

definition mqtt_endpoint_for_keeps_explicit_port :: "engine \<Rightarrow> bool" where
  "mqtt_endpoint_for_keeps_explicit_port rx =
     unwrap_then (get_uri rx ''mqtt://broker.example.com:11883'') (\<lambda>uri.
       unwrap_eq (mqtt_endpoint_for uri DEFAULT_PORT_PLAIN) ''broker.example.com:11883'')"

definition mqtt_endpoint_for_rejects_empty_host :: "engine \<Rightarrow> bool" where
  "mqtt_endpoint_for_rejects_empty_host rx =
     unwrap_then (get_uri rx []) (\<lambda>uri. is_err (mqtt_endpoint_for uri DEFAULT_PORT_PLAIN))"

subsection \<open>\<open>rtsp.rs\<close>\<close>

definition ends_with :: "'a list \<Rightarrow> 'a list \<Rightarrow> bool" where
  "ends_with p s = starts_with (rev p) (rev s)"

definition rtsp_build_request_includes_explicit_url :: bool where
  "rtsp_build_request_includes_explicit_url =
     (let s = build_options_request ''example.com'' 554
      in starts_with (bytes_of (''OPTIONS rtsp://example.com:554/ RTSP/1.0'' @ crlf)) s \<and>
         contains (bytes_of (''CSeq: 1'' @ crlf)) s \<and> contains (bytes_of ''User-Agent: zpinger/'') s \<and>
         ends_with (bytes_of (crlf @ crlf)) s)"

definition rtsp_build_request_uses_explicit_port :: bool where
  "rtsp_build_request_uses_explicit_port =
     starts_with (bytes_of (''OPTIONS rtsp://host:8554/ RTSP/1.0'' @ crlf)) (build_options_request ''host'' 8554)"

definition rtsp_validates :: "string \<Rightarrow> unit result option" where
  "rtsp_validates canned = map_option fst (rtsp_validate_response (lab (\<lambda>_. None)) () (lab_start [bytes_of canned]))"

definition rtsp_validate_response_accepts_200_with_body :: bool where
  "rtsp_validate_response_accepts_200_with_body =
     (rtsp_validates (''RTSP/1.0 200 OK'' @ crlf @ ''CSeq: 1'' @ crlf @ ''Public: OPTIONS, DESCRIBE'' @ crlf @ crlf) = Some (Ok ()))"

definition rtsp_validate_response_rejects_4xx :: bool where
  "rtsp_validate_response_rejects_4xx =
     (case rtsp_validates (''RTSP/1.0 404 Not Found'' @ crlf @ ''CSeq: 1'' @ crlf @ crlf) of
        Some (Err (IoError k m)) \<Rightarrow> contains ''RTSP/1.0 200'' m | _ \<Rightarrow> False)"

definition rtsp_validate_response_rejects_http :: bool where
  "rtsp_validate_response_rejects_http =
     (case rtsp_validates (''HTTP/1.1 200 OK'' @ crlf @ ''Content-Length: 0'' @ crlf @ crlf) of Some r \<Rightarrow> is_err r | None \<Rightarrow> False)"

definition rtsp_validate_response_rejects_eof :: bool where
  "rtsp_validate_response_rejects_eof = (case rtsp_validates [] of Some r \<Rightarrow> is_err r | None \<Rightarrow> False)"

subsection \<open>\<open>rtmp.rs\<close>\<close>

text \<open>The pipe of the tests: what the other end writes is the script, what it reads is checked in \<open>sent\<close>.\<close>

definition rtmp_runs :: "(nat \<times> nat) option \<Rightarrow> bytes \<Rightarrow> (unit result \<times> bytes) option" where
  "rtmp_runs now bs =
     map_option (\<lambda>(r, w). (r, sent w)) (run_handshake ((lab (\<lambda>_. None))\<lparr>system_time := \<lambda>_. now\<rparr>) () (lab_start [bs]))"

definition rtmp_c1_is_1536_bytes :: "(nat \<times> nat) option \<Rightarrow> bool" where
  "rtmp_c1_is_1536_bytes now =
     (let c1 = build_c1 now in length c1 = HANDSHAKE_PAYLOAD_LEN \<and> slice 4 8 c1 = replicate 4 0)"

definition rtmp_handshake_round_trip :: "(nat \<times> nat) option \<Rightarrow> bool" where
  "rtmp_handshake_round_trip now =
     (let s1 = replicate HANDSHAKE_PAYLOAD_LEN 0xAB; c1 = build_c1 now
      in rtmp_runs now ([RTMP_VERSION] @ s1 @ c1) = Some (Ok (), [RTMP_VERSION] @ c1 @ s1))"

definition rtmp_handshake_rejects_wrong_s0_version :: "(nat \<times> nat) option \<Rightarrow> bool" where
  "rtmp_handshake_rejects_wrong_s0_version now =
     (case rtmp_runs now ([0xFF] @ replicate HANDSHAKE_PAYLOAD_LEN 0 @ replicate HANDSHAKE_PAYLOAD_LEN 0) of
        Some (Err (IoError k m), _) \<Rightarrow> contains ''S0 returned version 255'' m | _ \<Rightarrow> False)"

definition rtmp_handshake_rejects_eof :: "(nat \<times> nat) option \<Rightarrow> bool" where
  "rtmp_handshake_rejects_eof now = (case rtmp_runs now [] of Some (r, _) \<Rightarrow> is_err r | None \<Rightarrow> False)"

subsection \<open>\<open>grpc.rs\<close>\<close>

definition grpc_normalize_endpoint_passes_http_through :: bool where
  "grpc_normalize_endpoint_passes_http_through = unwrap_eq (normalize_endpoint ''http://localhost:50051'') ''http://localhost:50051''"

definition grpc_normalize_endpoint_passes_https_through :: bool where
  "grpc_normalize_endpoint_passes_https_through = unwrap_eq (normalize_endpoint ''https://broker:443'') ''https://broker:443''"

definition grpc_normalize_endpoint_rewrites_grpc_to_http :: bool where
  "grpc_normalize_endpoint_rewrites_grpc_to_http = unwrap_eq (normalize_endpoint ''grpc://localhost:50051'') ''http://localhost:50051''"

definition grpc_normalize_endpoint_rewrites_grpcs_to_https :: bool where
  "grpc_normalize_endpoint_rewrites_grpcs_to_https = unwrap_eq (normalize_endpoint ''grpcs://broker:443'') ''https://broker:443''"

definition grpc_normalize_endpoint_defaults_schemeless_to_http :: bool where
  "grpc_normalize_endpoint_defaults_schemeless_to_http = unwrap_eq (normalize_endpoint ''localhost:50051'') ''http://localhost:50051''"

definition grpc_normalize_endpoint_rejects_empty :: bool where
  "grpc_normalize_endpoint_rejects_empty = (is_err (normalize_endpoint []) \<and> is_err (normalize_endpoint ''   ''))"

subsection \<open>\<open>hls.rs\<close>\<close>

definition text_lines :: "string list \<Rightarrow> string" where
  "text_lines ls = concat (map (\<lambda>l. l @ [CHR 0x0A]) ls)"

definition hls_first_variant_url_picks_line_after_stream_inf :: bool where
  "hls_first_variant_url_picks_line_after_stream_inf =
     (first_variant_url (text_lines [''#EXTM3U'', ''#EXT-X-VERSION:3'', ''#EXT-X-STREAM-INF:BANDWIDTH=800000'', ''low.m3u8'',
        ''#EXT-X-STREAM-INF:BANDWIDTH=2400000'', ''high.m3u8'']) = Some ''low.m3u8'')"

definition hls_first_variant_url_returns_none_for_media_playlist :: bool where
  "hls_first_variant_url_returns_none_for_media_playlist =
     (first_variant_url (text_lines [''#EXTM3U'', ''#EXTINF:10.0,'', ''seg0.ts'']) = None)"

definition hls_first_segment_url_picks_line_after_extinf :: bool where
  "hls_first_segment_url_picks_line_after_extinf =
     (first_segment_url (text_lines [''#EXTM3U'', ''#EXT-X-TARGETDURATION:10'', ''#EXTINF:10.0,'', ''seg0.ts'',
        ''#EXTINF:10.0,'', ''seg1.ts'', ''#EXT-X-ENDLIST'']) = Some ''seg0.ts'')"

definition hls_first_segment_url_handles_absolute_segment_url :: bool where
  "hls_first_segment_url_handles_absolute_segment_url =
     (first_segment_url (text_lines [''#EXTM3U'', ''#EXTINF:5.0,'', ''https://cdn.example.com/seg0.ts'']) =
        Some ''https://cdn.example.com/seg0.ts'')"

definition hls_resolve_relative_passes_absolute_through :: "engine \<Rightarrow> bool" where
  "hls_resolve_relative_passes_absolute_through rx =
     unwrap_eq (resolve_relative rx ''https://cdn.example.com/path/playlist.m3u8'' ''https://other.example.com/seg.ts'')
       ''https://other.example.com/seg.ts''"

definition hls_resolve_relative_root_relative :: "engine \<Rightarrow> bool" where
  "hls_resolve_relative_root_relative rx =
     unwrap_eq (resolve_relative rx ''https://cdn.example.com:8443/path/playlist.m3u8'' ''/cdn/seg.ts'')
       ''https://cdn.example.com:8443/cdn/seg.ts''"

definition hls_resolve_relative_same_directory :: "engine \<Rightarrow> bool" where
  "hls_resolve_relative_same_directory rx =
     unwrap_eq (resolve_relative rx ''https://cdn.example.com:8443/path/playlist.m3u8'' ''seg.ts'')
       ''https://cdn.example.com:8443/path/seg.ts''"

subsection \<open>\<open>quic.rs\<close>\<close>

definition quic_parse_endpoint_handles_schemes :: "engine \<Rightarrow> bool" where
  "quic_parse_endpoint_handles_schemes rx =
     (unwrap_eq (parse_endpoint rx ''quic://example.com:8443'') (''example.com'', 8443) \<and>
      unwrap_eq (parse_endpoint rx ''https://example.com'') (''example.com'', 443) \<and>
      unwrap_eq (parse_endpoint rx ''example.com:443'') (''example.com'', 443) \<and>
      unwrap_eq (parse_endpoint rx ''example.com'') (''example.com'', 443))"

definition quic_parse_endpoint_rejects_unsupported_scheme :: "engine \<Rightarrow> bool" where
  "quic_parse_endpoint_rejects_unsupported_scheme rx =
     (case parse_endpoint rx ''ws://example.com'' of
        Err (IoError k m) \<Rightarrow> contains (''scheme '' @ [CHR 0x27] @ ''ws'' @ [CHR 0x27]) m | _ \<Rightarrow> False)"

definition quic_parse_endpoint_rejects_empty :: "engine \<Rightarrow> bool" where
  "quic_parse_endpoint_rejects_empty rx = (is_err (parse_endpoint rx []) \<and> is_err (parse_endpoint rx ''   ''))"

definition quic_unspecified_for_picks_v4_or_v6 :: bool where
  "quic_unspecified_for_picks_v4_or_v6 =
     (unspecified_for (SockV4 0x01020304 443) = SockV4 0 0 \<and>
      unspecified_for (SockV6 0x20010db8000000000000000000000001 443) = SockV6 0 0)"

subsection \<open>The suite\<close>

definition unit_tests :: "engine \<Rightarrow> (nat \<times> nat) option \<Rightarrow> (string \<times> bool list) list" where
  "unit_tests rx now =
    [(''ntp.rs'',
       [ntp_build_request_packet_shape,
        ntp_validate_response_accepts_well_formed_server_reply,
        ntp_validate_response_accepts_broadcast_mode,
        ntp_validate_response_rejects_short_packet,
        ntp_validate_response_rejects_long_packet,
        ntp_validate_response_rejects_client_mode,
        ntp_validate_response_rejects_version_mismatch,
        ntp_server_endpoint_applies_default_port rx,
        ntp_server_endpoint_keeps_explicit_port rx]),
     (''dns.rs'',
       [dns_encode_name_simple,
        dns_encode_name_strips_trailing_dot,
        dns_encode_name_rejects_empty_label,
        dns_encode_name_rejects_oversize_label,
        dns_build_query_lengths,
        dns_validate_response_rejects_short_buffer,
        dns_validate_response_rejects_id_mismatch,
        dns_validate_response_rejects_query_qr,
        dns_validate_response_rejects_nonzero_rcode,
        dns_validate_response_rejects_question_mismatch,
        dns_validate_response_rejects_zero_qdcount,
        dns_validate_response_rejects_truncated_question,
        dns_validate_response_accepts_well_formed,
        dns_server_endpoint_applies_default_port rx,
        dns_server_endpoint_keeps_explicit_port rx]),
     (''stun.rs'',
       [stun_build_message_no_attributes,
        stun_build_message_with_attributes,
        stun_validate_accepts_well_formed,
        stun_validate_rejects_short_buffer,
        stun_validate_rejects_wrong_type,
        stun_validate_rejects_bad_cookie,
        stun_validate_rejects_txid_mismatch,
        stun_server_endpoint_applies_default_port rx,
        stun_server_endpoint_keeps_explicit_port rx]),
     (''turn.rs'',
       [turn_requested_transport_is_udp_17,
        turn_validates_401_unauthorized,
        turn_rejects_other_error_codes,
        turn_rejects_missing_error_code_attribute,
        turn_rejects_wrong_message_type]),
     (''mqtt.rs'',
       [mqtt_varint_one_byte,
        mqtt_varint_two_bytes,
        mqtt_build_connect_v3_1_1_smallest_client_id,
        mqtt_build_connect_v5_includes_empty_properties,
        mqtt_validate_connack_v5_with_properties_tail_is_accepted,
        mqtt_read_packet_roundtrip,
        mqtt_read_packet_zero_body,
        mqtt_validate_connack_accepts_zero_return_code,
        mqtt_validate_connack_rejects_nonzero_return_code,
        mqtt_validate_connack_rejects_wrong_packet_type,
        mqtt_validate_pingresp_accepts_empty_body,
        mqtt_validate_pingresp_rejects_payload,
        mqtt_validate_pingresp_rejects_wrong_type,
        mqtt_endpoint_for_applies_default_port rx,
        mqtt_endpoint_for_keeps_explicit_port rx,
        mqtt_endpoint_for_rejects_empty_host rx]),
     (''rtsp.rs'',
       [rtsp_build_request_includes_explicit_url,
        rtsp_build_request_uses_explicit_port,
        rtsp_validate_response_accepts_200_with_body,
        rtsp_validate_response_rejects_4xx,
        rtsp_validate_response_rejects_http,
        rtsp_validate_response_rejects_eof]),
     (''rtmp.rs'',
       [rtmp_c1_is_1536_bytes now,
        rtmp_handshake_round_trip now,
        rtmp_handshake_rejects_wrong_s0_version now,
        rtmp_handshake_rejects_eof now]),
     (''grpc.rs'',
       [grpc_normalize_endpoint_passes_http_through,
        grpc_normalize_endpoint_passes_https_through,
        grpc_normalize_endpoint_rewrites_grpc_to_http,
        grpc_normalize_endpoint_rewrites_grpcs_to_https,
        grpc_normalize_endpoint_defaults_schemeless_to_http,
        grpc_normalize_endpoint_rejects_empty]),
     (''hls.rs'',
       [hls_first_variant_url_picks_line_after_stream_inf,
        hls_first_variant_url_returns_none_for_media_playlist,
        hls_first_segment_url_picks_line_after_extinf,
        hls_first_segment_url_handles_absolute_segment_url,
        hls_resolve_relative_passes_absolute_through rx,
        hls_resolve_relative_root_relative rx,
        hls_resolve_relative_same_directory rx]),
     (''quic.rs'',
       [quic_parse_endpoint_handles_schemes rx,
        quic_parse_endpoint_rejects_unsupported_scheme rx,
        quic_parse_endpoint_rejects_empty rx,
        quic_unspecified_for_picks_v4_or_v6])]"

section \<open>The tests pass\<close>

lemma ntp_tests:
  "ntp_build_request_packet_shape" "ntp_validate_response_accepts_well_formed_server_reply"
  "ntp_validate_response_accepts_broadcast_mode" "ntp_validate_response_rejects_short_packet"
  "ntp_validate_response_rejects_long_packet" "ntp_validate_response_rejects_client_mode"
  "ntp_validate_response_rejects_version_mismatch"
  by code_simp+

lemma dns_tests:
  "dns_encode_name_simple" "dns_encode_name_strips_trailing_dot" "dns_encode_name_rejects_empty_label"
  "dns_encode_name_rejects_oversize_label" "dns_build_query_lengths" "dns_validate_response_rejects_short_buffer"
  "dns_validate_response_rejects_query_qr" "dns_validate_response_rejects_nonzero_rcode"
  "dns_validate_response_rejects_question_mismatch" "dns_validate_response_rejects_zero_qdcount"
  "dns_validate_response_rejects_truncated_question" "dns_validate_response_accepts_well_formed"
  by code_simp+

lemma stun_tests:
  "stun_validate_accepts_well_formed" "stun_validate_rejects_short_buffer" "stun_validate_rejects_wrong_type"
  "stun_validate_rejects_txid_mismatch"
  by code_simp+

lemma turn_tests:
  "turn_requested_transport_is_udp_17" "turn_validates_401_unauthorized" "turn_rejects_other_error_codes"
  "turn_rejects_missing_error_code_attribute" "turn_rejects_wrong_message_type"
  by code_simp+

lemma mqtt_tests:
  "mqtt_varint_one_byte" "mqtt_build_connect_v3_1_1_smallest_client_id"
  "mqtt_build_connect_v5_includes_empty_properties" "mqtt_validate_connack_v5_with_properties_tail_is_accepted"
  "mqtt_read_packet_roundtrip" "mqtt_read_packet_zero_body" "mqtt_validate_connack_accepts_zero_return_code"
  "mqtt_validate_connack_rejects_nonzero_return_code" "mqtt_validate_connack_rejects_wrong_packet_type"
  "mqtt_validate_pingresp_accepts_empty_body" "mqtt_validate_pingresp_rejects_payload"
  "mqtt_validate_pingresp_rejects_wrong_type"
  by code_simp+

lemma quic_address_test: "quic_unspecified_for_picks_v4_or_v6"
  by code_simp

lemma rtsp_request_test: "rtsp_build_request_includes_explicit_url"
  by code_simp

text \<open>Numbers are printed by rewriting; evaluating a large \<open>nat\<close> is slow.\<close>

lemma dns_id_test: "dns_validate_response_rejects_id_mismatch"
proof -
  have q: "build_query 0xDEAD ''a.b'' 1 = Ok [0xDE, 0xAD, 1, 0, 0, 1, 0, 0, 0, 0, 0, 0, 1, 0x61, 1, 0x62, 0, 0, 1, 0, 1]"
    by code_simp
  show ?thesis
    unfolding dns_validate_response_rejects_id_mismatch_def q unwrap_then_def
    by (simp add: dns_well_formed_response_def copy_at_def be16_def dns_validate_response_def Let_def u16_of_be_def)
qed

lemma stun_build_message_tests:
  "stun_build_message_no_attributes" "stun_build_message_with_attributes"
  by (simp_all add: stun_build_message_no_attributes_def stun_build_message_with_attributes_def build_message_def
      build_header_eq unwrap_then_def Let_def slice_def be16_def be32_def u16_of_be_def)

lemma stun_cookie_test: "stun_validate_rejects_bad_cookie"
proof -
  have "stun_test_response MSG_BINDING_SUCCESS 0xDEADBEEF (replicate STUN_TXID_LEN 0x55) =
      [1, 1, 0, 0, 0xDE, 0xAD, 0xBE, 0xEF] @ replicate STUN_TXID_LEN 0x55" by code_simp
  then show ?thesis
    by (simp add: stun_validate_rejects_bad_cookie_def Let_def validate_binding_response_def validate_response_header_def
        u16_of_be_def u32_of_be_def)
qed

lemma mqtt_varint_test: "mqtt_varint_two_bytes"
  by (simp add: mqtt_varint_two_bytes_def encode_varint.simps)

lemma rtsp_port_test: "rtsp_build_request_uses_explicit_port"
  by (simp add: rtsp_build_request_uses_explicit_port_def build_options_request_def dec.simps digit_char_def Let_def)

section \<open>The targets of the tests\<close>

declare in_class.simps [simp del]

lemma tail_ok_Nil: "tail_ok []"
  by (simp add: tail_ok_def)

lemma no_scheme: "list_all (in_class (NotIn ''/?#'')) s \<Longrightarrow> scan_scheme s = None"
  by (simp add: list_all_iff takeWhile_eq_all_conv [THEN iffD2] dropWhile_eq_Nil_conv [THEN iffD2] scan_scheme_def Let_def)

lemma authority_chars:
  "in_class (NotIn ''/?#:'') c \<Longrightarrow> in_class (NotIn ''/?#'') c" "is_digit c \<Longrightarrow> in_class (NotIn ''/?#'') c"
  by (simp_all add: in_class.simps is_digit_def) auto

lemma host_target:
  assumes "d \<noteq> []" and "list_all (in_class (NotIn ''/?#:'')) d"
  shows "scan_uri d = Ok (default_uri\<lparr>uri_host := d, uri_domain := d, uri_path := []\<rparr>)"
proof -
  have "scan_scheme d = None"
    by (rule no_scheme) (use assms(2) in \<open>simp add: list_all_iff authority_chars\<close>)
  moreover have "scan_host d = Some (d, None, [])"
    using scan_host_build [OF assms tail_ok_Nil] by simp
  moreover have "scan_userinfo d = None"
    by (rule no_userinfo [OF assms(2) _ tail_ok_Nil, of "[]"]) simp_all
  ultimately show ?thesis
    by (simp add: scan_uri_def scan_after_def host_text_def port_value_def default_uri_def)
qed

lemma port_target:
  assumes "d \<noteq> []" and "list_all (in_class (NotIn ''/?#:'')) d" and "list_all is_digit ds" and "parse_i32 ds = Some p"
  shows "scan_uri (d @ '':'' @ ds) =
     Ok (default_uri\<lparr>uri_host := d @ '':'' @ ds, uri_domain := d, uri_port := p, uri_path := []\<rparr>)"
proof -
  let ?s = "d @ '':'' @ ds"
  have "scan_scheme ?s = None"
    by (rule no_scheme) (use assms(2,3) in \<open>auto simp: list_all_iff authority_chars\<close>)
  moreover have "scan_host ?s = Some (d, Some ds, [])"
    using scan_host_port_build [OF assms(1-3) tail_ok_Nil] by simp
  moreover have "scan_userinfo ?s = None"
    by (rule no_userinfo [OF assms(2,3) tail_ok_Nil]) simp
  ultimately show ?thesis
    by (simp add: scan_uri_def scan_after_def host_text_def port_value_def default_uri_def assms(4))
qed

text \<open>What is left to check of a concrete target.\<close>

lemmas concrete = in_class.simps is_digit_def parse_i32_digits dec_val_def digit_val_def

lemma targets:
  "scan_uri ''time.example.com'' = Ok (default_uri\<lparr>uri_host := ''time.example.com'', uri_domain := ''time.example.com'', uri_path := []\<rparr>)"
  "scan_uri ''8.8.8.8'' = Ok (default_uri\<lparr>uri_host := ''8.8.8.8'', uri_domain := ''8.8.8.8'', uri_path := []\<rparr>)"
  "scan_uri ''stun.example.com'' = Ok (default_uri\<lparr>uri_host := ''stun.example.com'', uri_domain := ''stun.example.com'', uri_path := []\<rparr>)"
  "scan_uri ''broker.example.com'' = Ok (default_uri\<lparr>uri_host := ''broker.example.com'', uri_domain := ''broker.example.com'', uri_path := []\<rparr>)"
  "scan_uri ''example.com'' = Ok (default_uri\<lparr>uri_host := ''example.com'', uri_domain := ''example.com'', uri_path := []\<rparr>)"
  "scan_uri ''time.example.com:1234'' = Ok (default_uri\<lparr>uri_host := ''time.example.com:1234'', uri_domain := ''time.example.com'', uri_port := 1234, uri_path := []\<rparr>)"
  "scan_uri ''8.8.8.8:5353'' = Ok (default_uri\<lparr>uri_host := ''8.8.8.8:5353'', uri_domain := ''8.8.8.8'', uri_port := 5353, uri_path := []\<rparr>)"
  "scan_uri ''stun.example.com:19302'' = Ok (default_uri\<lparr>uri_host := ''stun.example.com:19302'', uri_domain := ''stun.example.com'', uri_port := 19302, uri_path := []\<rparr>)"
  "scan_uri ''example.com:443'' = Ok (default_uri\<lparr>uri_host := ''example.com:443'', uri_domain := ''example.com'', uri_port := 443, uri_path := []\<rparr>)"
  using host_target [of "''time.example.com''"]
    host_target [of "''8.8.8.8''"]
    host_target [of "''stun.example.com''"]
    host_target [of "''broker.example.com''"]
    host_target [of "''example.com''"]
    port_target [of "''time.example.com''" "''1234''" 1234]
    port_target [of "''8.8.8.8''" "''5353''" 5353]
    port_target [of "''stun.example.com''" "''19302''" 19302]
    port_target [of "''example.com''" "''443''" 443]
  by (simp_all add: concrete)

lemma scheme_target_1:
  "scan_uri ''mqtt://broker.example.com:11883'' = Ok (default_uri\<lparr>uri_scheme := ''mqtt'', uri_host := ''broker.example.com:11883'', uri_domain := ''broker.example.com'', uri_port := 11883, uri_path := []\<rparr>)"
proof -
  let ?u = "default_uri\<lparr>uri_scheme := ''mqtt'', uri_host := ''broker.example.com:11883'', uri_domain := ''broker.example.com'', uri_port := 11883, uri_path := []\<rparr>"
  have "get_url ?u = ''mqtt://broker.example.com:11883''" by (simp add: get_url_def default_uri_def)
  moreover have "uri_value ?u"
    by (simp add: uri_value_def authority_ok_def scan_userinfo_def default_uri_def concrete Let_def)
  ultimately show ?thesis using value_scans [of ?u] by simp
qed

lemma scheme_target_2:
  "scan_uri ''https://cdn.example.com:8443/path/playlist.m3u8'' = Ok (default_uri\<lparr>uri_scheme := ''https'', uri_host := ''cdn.example.com:8443'', uri_domain := ''cdn.example.com'', uri_port := 8443, uri_path := ''/path/playlist.m3u8''\<rparr>)"
proof -
  let ?u = "default_uri\<lparr>uri_scheme := ''https'', uri_host := ''cdn.example.com:8443'', uri_domain := ''cdn.example.com'', uri_port := 8443, uri_path := ''/path/playlist.m3u8''\<rparr>"
  have "get_url ?u = ''https://cdn.example.com:8443/path/playlist.m3u8''" by (simp add: get_url_def default_uri_def)
  moreover have "uri_value ?u"
    by (simp add: uri_value_def authority_ok_def scan_userinfo_def default_uri_def concrete Let_def)
  ultimately show ?thesis using value_scans [of ?u] by simp
qed

lemma scheme_target_3:
  "scan_uri ''quic://example.com:8443'' = Ok (default_uri\<lparr>uri_scheme := ''quic'', uri_host := ''example.com:8443'', uri_domain := ''example.com'', uri_port := 8443, uri_path := []\<rparr>)"
proof -
  let ?u = "default_uri\<lparr>uri_scheme := ''quic'', uri_host := ''example.com:8443'', uri_domain := ''example.com'', uri_port := 8443, uri_path := []\<rparr>"
  have "get_url ?u = ''quic://example.com:8443''" by (simp add: get_url_def default_uri_def)
  moreover have "uri_value ?u"
    by (simp add: uri_value_def authority_ok_def scan_userinfo_def default_uri_def concrete Let_def)
  ultimately show ?thesis using value_scans [of ?u] by simp
qed

lemma scheme_target_4:
  "scan_uri ''https://example.com'' = Ok (default_uri\<lparr>uri_scheme := ''https'', uri_host := ''example.com'', uri_domain := ''example.com'', uri_path := []\<rparr>)"
proof -
  let ?u = "default_uri\<lparr>uri_scheme := ''https'', uri_host := ''example.com'', uri_domain := ''example.com'', uri_path := []\<rparr>"
  have "get_url ?u = ''https://example.com''" by (simp add: get_url_def default_uri_def)
  moreover have "uri_value ?u"
    by (simp add: uri_value_def authority_ok_def scan_userinfo_def default_uri_def concrete Let_def)
  ultimately show ?thesis using value_scans [of ?u] by simp
qed

lemma scheme_target_5:
  "scan_uri ''ws://example.com'' = Ok (default_uri\<lparr>uri_scheme := ''ws'', uri_host := ''example.com'', uri_domain := ''example.com'', uri_path := []\<rparr>)"
proof -
  let ?u = "default_uri\<lparr>uri_scheme := ''ws'', uri_host := ''example.com'', uri_domain := ''example.com'', uri_path := []\<rparr>"
  have "get_url ?u = ''ws://example.com''" by (simp add: get_url_def default_uri_def)
  moreover have "uri_value ?u"
    by (simp add: uri_value_def authority_ok_def scan_userinfo_def default_uri_def concrete Let_def)
  ultimately show ?thesis using value_scans [of ?u] by simp
qed

lemma empty_target: "scan_uri [] = Ok (default_uri\<lparr>uri_path := []\<rparr>)"
  by code_simp

lemmas parsed_targets = targets scheme_target_1 scheme_target_2 scheme_target_3 scheme_target_4 scheme_target_5 empty_target

text \<open>Texts that are trimmed.\<close>

lemma trim_blank: "trim ''   '' = []" "trim [] = []"
  by (simp_all add: trim_def trim_start_def trim_end_def ws_len_def white_space_def Let_def starts_with_iff)

lemmas plain_text = trim_id trim_start_id graphic_def

lemma grpc_tests:
  "grpc_normalize_endpoint_passes_http_through"
  "grpc_normalize_endpoint_passes_https_through"
  "grpc_normalize_endpoint_rewrites_grpc_to_http"
  "grpc_normalize_endpoint_rewrites_grpcs_to_https"
  "grpc_normalize_endpoint_defaults_schemeless_to_http"
  "grpc_normalize_endpoint_rejects_empty"
  unfolding grpc_normalize_endpoint_passes_http_through_def
    grpc_normalize_endpoint_passes_https_through_def
    grpc_normalize_endpoint_rewrites_grpc_to_http_def
    grpc_normalize_endpoint_rewrites_grpcs_to_https_def
    grpc_normalize_endpoint_defaults_schemeless_to_http_def
    grpc_normalize_endpoint_rejects_empty_def
    normalize_endpoint_def unwrap_eq_def unwrap_then_def
  by (simp_all add: Let_def strip_prefix_def plain_text trim_blank)

lemma text_lines_lines:
  assumes "list_all (\<lambda>l. list_all (\<lambda>c. c \<noteq> CHR 0x0A \<and> c \<noteq> CHR 0x0D) l) ls"
  shows "lines (text_lines ls) = ls"
proof -
  have "CHR 0x0A \<notin> set l \<and> (l = [] \<or> last l \<noteq> CHR 0x0D)" if "l \<in> set ls" for l
    using assms that last_in_set [of l] unfolding list_all_iff by blast
  then show ?thesis
    unfolding text_lines_def by (intro lines_unlines) (simp_all add: list_all_iff)
qed

lemma hls_tests:
  "hls_first_variant_url_picks_line_after_stream_inf" "hls_first_variant_url_returns_none_for_media_playlist"
  "hls_first_segment_url_picks_line_after_extinf" "hls_first_segment_url_handles_absolute_segment_url"
  by (simp_all add: hls_first_variant_url_picks_line_after_stream_inf_def hls_first_variant_url_returns_none_for_media_playlist_def
      hls_first_segment_url_picks_line_after_extinf_def hls_first_segment_url_handles_absolute_segment_url_def
      first_variant_url_def first_segment_url_def text_lines_lines plain_text Let_def)

text \<open>Streams.\<close>

lemma rtsp_validates_eq:
  "\<exists>m. rtsp_validates c = Some (if starts_with STATUS_LINE_PREFIX (bytes_of c) then Ok ()
     else err_other (''RTSP response did not start with `RTSP/1.0 200`: '' @ m))"
proof -
  let ?net = "lab (\<lambda>_. None)"
  obtain p w' where p: "rtsp_read_loop ?net () [] (lab_start [bytes_of c]) = Some (Ok p, w')" "bytes_of c = p @ concat (chunks w')"
      "concat (chunks w') = [] \<or> find_header_terminator p \<noteq> None \<or> MAX_RESPONSE_BYTES \<le> length p"
    using rtsp_read_loop_run [OF lab_stream.byte_stream_axioms, of "\<lambda>_. None" "()" "[]" "lab_start [bytes_of c]"] by auto
  have v: "starts_with STATUS_LINE_PREFIX p \<longleftrightarrow> starts_with STATUS_LINE_PREFIX (bytes_of c)"
    by (rule rtsp_verdict [OF p(2,3)])
  then show ?thesis
    by (intro exI [of _ "str_debug ?net (lossy (take (min (length p) 64) p))"])
      (simp add: rtsp_validates_def rtsp_validate_response_def io_bind_def p(1) Let_def)
qed

lemma rtsp_stream_tests:
  "rtsp_validate_response_accepts_200_with_body" "rtsp_validate_response_rejects_4xx"
  "rtsp_validate_response_rejects_http" "rtsp_validate_response_rejects_eof"
proof -
  obtain m where "rtsp_validates (''RTSP/1.0 200 OK'' @ crlf @ ''CSeq: 1'' @ crlf @ ''Public: OPTIONS, DESCRIBE'' @ crlf @ crlf) =
      Some (if True then Ok () else err_other (''RTSP response did not start with `RTSP/1.0 200`: '' @ m))"
    using rtsp_validates_eq [of "''RTSP/1.0 200 OK'' @ crlf @ ''CSeq: 1'' @ crlf @ ''Public: OPTIONS, DESCRIBE'' @ crlf @ crlf"] by auto
  then show "rtsp_validate_response_accepts_200_with_body"
    unfolding rtsp_validate_response_accepts_200_with_body_def by simp
  have bad: "\<exists>m. rtsp_validates c = Some (err_other (''RTSP response did not start with `RTSP/1.0 200`: '' @ m))"
    if "\<not> starts_with STATUS_LINE_PREFIX (bytes_of c)" for c
    using rtsp_validates_eq [of c] that by simp
  obtain m where m: "rtsp_validates (''RTSP/1.0 404 Not Found'' @ crlf @ ''CSeq: 1'' @ crlf @ crlf) =
      Some (err_other (''RTSP response did not start with `RTSP/1.0 200`: '' @ m))"
    using bad [of "''RTSP/1.0 404 Not Found'' @ crlf @ ''CSeq: 1'' @ crlf @ crlf"] by auto
  have "contains ''RTSP/1.0 200'' (''RTSP response did not start with `RTSP/1.0 200`: '' @ m)"
    unfolding contains_iff by (rule exI [of _ "''RTSP response did not start with `''"]) simp
  then show "rtsp_validate_response_rejects_4xx"
    unfolding rtsp_validate_response_rejects_4xx_def m by simp
  show "rtsp_validate_response_rejects_http" "rtsp_validate_response_rejects_eof"
    using bad [of "''HTTP/1.1 200 OK'' @ crlf @ ''Content-Length: 0'' @ crlf @ crlf"] bad [of "[]"]
    unfolding rtsp_validate_response_rejects_http_def rtsp_validate_response_rejects_eof_def by auto
qed


lemma rtmp_stream_tests:
  "rtmp_c1_is_1536_bytes now" "rtmp_handshake_round_trip now" "rtmp_handshake_rejects_wrong_s0_version now"
  "rtmp_handshake_rejects_eof now"
proof -
  note pipe = rtmp_runs_def run_handshake_def lab_def lab_start_def lab_read_exact_def lab_write_all_def io_bind_def Let_def
  show "rtmp_c1_is_1536_bytes now"
    by (simp add: rtmp_c1_is_1536_bytes_def build_c1_eq slice_def del: replicate.simps)
  show "rtmp_handshake_round_trip now"
    by (simp add: rtmp_handshake_round_trip_def pipe del: replicate.simps)
  have "contains ''S0 returned version 255'' (''RTMP S0 returned version '' @ dec 255 @ x)" for x
    unfolding contains_iff by (rule exI [of _ "''RTMP ''"], rule exI [of _ x]) (simp add: dec.simps digit_char_def)
  then show "rtmp_handshake_rejects_wrong_s0_version now"
    by (simp add: rtmp_handshake_rejects_wrong_s0_version_def pipe del: replicate.simps)
  show "rtmp_handshake_rejects_eof now"
    by (simp add: rtmp_handshake_rejects_eof_def pipe)
qed

text \<open>Tests that parse a target.\<close>

lemma target_texts:
  "ascii ''time.example.com''" "ascii ''time.example.com:1234''" "ascii ''8.8.8.8''" "ascii ''8.8.8.8:5353''" "ascii ''stun.example.com''" "ascii ''stun.example.com:19302''" "ascii ''broker.example.com''" "ascii ''mqtt://broker.example.com:11883''" "ascii ''https://cdn.example.com:8443/path/playlist.m3u8''" "ascii ''quic://example.com:8443''" "ascii ''https://example.com''" "ascii ''example.com:443''" "ascii ''example.com''" "ascii ''ws://example.com''" "ascii []"
  by code_simp+

lemma target_tests:
  assumes "regex_engine rx"
  shows "ntp_server_endpoint_applies_default_port rx" "ntp_server_endpoint_keeps_explicit_port rx"
    "dns_server_endpoint_applies_default_port rx" "dns_server_endpoint_keeps_explicit_port rx"
    "stun_server_endpoint_applies_default_port rx" "stun_server_endpoint_keeps_explicit_port rx"
    "mqtt_endpoint_for_applies_default_port rx" "mqtt_endpoint_for_keeps_explicit_port rx"
    "mqtt_endpoint_for_rejects_empty_host rx" "hls_resolve_relative_passes_absolute_through rx"
    "hls_resolve_relative_root_relative rx" "hls_resolve_relative_same_directory rx"
    "quic_parse_endpoint_handles_schemes rx" "quic_parse_endpoint_rejects_unsupported_scheme rx"
    "quic_parse_endpoint_rejects_empty rx"
proof -
  note parse = regex_engine.get_uri_eq [OF assms] target_texts parsed_targets unwrap_eq_def unwrap_then_def
    unat_as_u16 dec.simps digit_char_def default_uri_def Let_def
  show "ntp_server_endpoint_applies_default_port rx" "ntp_server_endpoint_keeps_explicit_port rx"
    by (simp_all add: ntp_server_endpoint_applies_default_port_def ntp_server_endpoint_keeps_explicit_port_def
        ntp_server_endpoint_def parse)
  show "dns_server_endpoint_applies_default_port rx" "dns_server_endpoint_keeps_explicit_port rx"
    by (simp_all add: dns_server_endpoint_applies_default_port_def dns_server_endpoint_keeps_explicit_port_def
        dns_server_endpoint_def parse)
  show "stun_server_endpoint_applies_default_port rx" "stun_server_endpoint_keeps_explicit_port rx"
    by (simp_all add: stun_server_endpoint_applies_default_port_def stun_server_endpoint_keeps_explicit_port_def
        stun_server_endpoint_def parse)
  show "mqtt_endpoint_for_applies_default_port rx" "mqtt_endpoint_for_keeps_explicit_port rx"
    "mqtt_endpoint_for_rejects_empty_host rx"
    by (simp_all add: mqtt_endpoint_for_applies_default_port_def mqtt_endpoint_for_keeps_explicit_port_def
        mqtt_endpoint_for_rejects_empty_host_def mqtt_endpoint_for_def parse)
  show "hls_resolve_relative_passes_absolute_through rx" "hls_resolve_relative_root_relative rx"
    "hls_resolve_relative_same_directory rx"
    by (simp_all add: hls_resolve_relative_passes_absolute_through_def hls_resolve_relative_root_relative_def
        hls_resolve_relative_same_directory_def resolve_relative_def strip_prefix_def rsplit_once_def parse)
  show "quic_parse_endpoint_handles_schemes rx" "quic_parse_endpoint_rejects_unsupported_scheme rx"
    "quic_parse_endpoint_rejects_empty rx"
    by (simp_all add: quic_parse_endpoint_handles_schemes_def quic_parse_endpoint_rejects_unsupported_scheme_def
        quic_parse_endpoint_rejects_empty_def parse_endpoint_def plain_text trim_blank to_ascii_lowercase_def to_lower_def
        contains_def as_u16_def parse)
qed

section \<open>Properties\<close>

text \<open>
  Conformance. Every unit test of the ten protocol modules of \<open>zpinger\<close> passes on the model: 81 tests, for
  every regex engine that is leftmost-first on ASCII text and whatever the clock says.
\<close>

theorem unit_tests_pass:
  assumes "regex_engine rx"
  shows "list_all (\<lambda>(file, tests). list_all id tests) (unit_tests rx now)"
  by (simp add: unit_tests_def ntp_tests dns_tests dns_id_test stun_tests stun_build_message_tests stun_cookie_test turn_tests
      mqtt_tests mqtt_varint_test rtsp_request_test rtsp_port_test rtsp_stream_tests rtmp_stream_tests grpc_tests hls_tests
      quic_address_test target_tests [OF assms])

theorem unit_tests_pass_witness:
  "list_all (\<lambda>(file, tests). list_all id tests) (unit_tests first_match (Some (1700000000, 5)))"
  by (rule unit_tests_pass [OF reference_engine.regex_engine_axioms])

end
