(* ===== verification/CliTests.thy ===== *)
theory CliTests
  imports CommandLine Conformance
begin

text \<open>
  The tests of \<open>knockknock/src/main.rs\<close>, each a Boolean over a command line parser, and that they pass with any
  parser that reads plain lines as clap documents. The program's name in front is left out.
\<close>

section \<open>The tests\<close>

text \<open>\<open>parse(..)\<close>, whose \<open>expect\<close> fails the test, with the assertions on the result; and \<open>is_err\<close>.\<close>

definition parsed :: "clap \<Rightarrow> string list \<Rightarrow> (Cli \<Rightarrow> bool) \<Rightarrow> bool" where
  "parsed clap argv p = (case Cli_try_parse clap argv of None \<Rightarrow> False | Some cli \<Rightarrow> p cli)"

definition rejects :: "clap \<Rightarrow> string list \<Rightarrow> bool" where
  "rejects clap argv = (Cli_try_parse clap argv = None)"

definition parses_tcp :: "clap \<Rightarrow> bool" where
  "parses_tcp clap =
    (parsed clap [''tcp'', ''localhost:8000'', ''-c'', ''3''] (\<lambda>cli. is_CmdTcp (cli_command cli) \<and> target_of (cli_command cli) = ''localhost:8000'' \<and> cli_count cli = 3))"

definition parses_udp :: "clap \<Rightarrow> bool" where
  "parses_udp clap =
    (parsed clap [''udp'', ''localhost:12000''] (\<lambda>cli. is_CmdUdp (cli_command cli) \<and> target_of (cli_command cli) = ''localhost:12000''))"

definition parses_all_http_methods :: "clap \<Rightarrow> bool" where
  "parses_all_http_methods clap =
    (list_all (\<lambda>method. parsed clap [''http'', method, ''localhost:8888/haha''] (\<lambda>cli. is_CmdHttp (cli_command cli) \<and> target_of (cli_command cli) = ''localhost:8888/haha''))
     [''connect'', ''get'', ''post'', ''put'', ''delete'', ''patch''])"

definition parses_http_get_variant :: "clap \<Rightarrow> bool" where
  "parses_http_get_variant clap =
    (parsed clap [''http'', ''get'', ''x:80''] (\<lambda>cli. (case cli_command cli of CmdHttp (HttpGet _) \<Rightarrow> True | _ \<Rightarrow> False)))"

definition count_default_is_3 :: "clap \<Rightarrow> bool" where
  "count_default_is_3 clap =
    (parsed clap [''tcp'', ''localhost:8000''] (\<lambda>cli. cli_count cli = 3))"

definition count_at_root_position :: "clap \<Rightarrow> bool" where
  "count_at_root_position clap =
    (parsed clap [''-c'', ''5'', ''tcp'', ''localhost:8000''] (\<lambda>cli. cli_count cli = 5))"

definition count_at_subcommand_leaf :: "clap \<Rightarrow> bool" where
  "count_at_subcommand_leaf clap =
    (parsed clap [''tcp'', ''localhost:8000'', ''-c'', ''5''] (\<lambda>cli. cli_count cli = 5))"

definition count_at_http_method_leaf :: "clap \<Rightarrow> bool" where
  "count_at_http_method_leaf clap =
    (parsed clap [''http'', ''get'', ''localhost:8888/haha'', ''-c'', ''7''] (\<lambda>cli. cli_count cli = 7))"

definition rejects_missing_subcommand :: "clap \<Rightarrow> bool" where
  "rejects_missing_subcommand clap =
    (rejects clap [])"

definition rejects_unknown_http_method :: "clap \<Rightarrow> bool" where
  "rejects_unknown_http_method clap =
    (rejects clap [''http'', ''trace'', ''localhost:8888''])"

text \<open>Each line is read and a pinger is built from its command.\<close>

definition build_pinger_returns_for_every_command :: "clap \<Rightarrow> bool" where
  "build_pinger_returns_for_every_command clap =
    (list_all (\<lambda>argv. parsed clap argv (\<lambda>cli. build_pinger (cli_command cli) \<in> (UNIV :: unit any_pinger set)))
     [[''tcp'', ''localhost:1''],
      [''udp'', ''localhost:1''],
      [''http'', ''connect'', ''localhost:1''],
      [''http'', ''get'', ''localhost:1''],
      [''http'', ''post'', ''localhost:1''],
      [''http'', ''put'', ''localhost:1''],
      [''http'', ''delete'', ''localhost:1''],
      [''http'', ''patch'', ''localhost:1''],
      [''ws'', ''ws://localhost:1''],
      [''ws'', ''wss://localhost:1''],
      [''dns'', ''127.0.0.1:1'', ''-q'', ''example.com''],
      [''dns'', ''8.8.8.8'', ''-q'', ''example.com'', ''-t'', ''aaaa''],
      [''mqtt'', ''mqtt://localhost:1883''],
      [''mqtt'', ''mqtts://broker.example.com''],
      [''mqtt'', ''mqtt://localhost:1883'', ''--client-id'', ''custom''],
      [''mqtt'', ''mqtt://localhost:1883'', ''--v5''],
      [''grpc'', ''grpc://localhost:50051''],
      [''grpc'', ''grpcs://broker.example.com:443''],
      [''grpc'', ''grpc://localhost:50051'', ''--service'', ''my.svc''],
      [''grpc'', ''grpc://localhost:50051'', ''--watch''],
      [''hls'', ''http://localhost:18007/playlist.m3u8'']])"

definition parses_ws_subcommand :: "clap \<Rightarrow> bool" where
  "parses_ws_subcommand clap =
    (parsed clap [''ws'', ''ws://localhost:18000/echo''] (\<lambda>cli. is_CmdWs (cli_command cli) \<and> target_of (cli_command cli) = ''ws://localhost:18000/echo''))"

definition parses_dns_subcommand_default_type :: "clap \<Rightarrow> bool" where
  "parses_dns_subcommand_default_type clap =
    (parsed clap [''dns'', ''8.8.8.8'', ''-q'', ''example.com''] (\<lambda>cli. (case cli_command cli of CmdDns server query record_type \<Rightarrow> server = ''8.8.8.8'' \<and> query = ''example.com'' \<and> record_type = DnsA | _ \<Rightarrow> False)))"

definition parses_dns_subcommand_aaaa_type :: "clap \<Rightarrow> bool" where
  "parses_dns_subcommand_aaaa_type clap =
    (parsed clap [''dns'', ''1.1.1.1:5353'', ''-q'', ''example.com'', ''-t'', ''aaaa''] (\<lambda>cli. (case cli_command cli of CmdDns server _ record_type \<Rightarrow> server = ''1.1.1.1:5353'' \<and> record_type = DnsAaaa | _ \<Rightarrow> False)))"

definition dns_subcommand_requires_query :: "clap \<Rightarrow> bool" where
  "dns_subcommand_requires_query clap =
    (rejects clap [''dns'', ''8.8.8.8''])"

definition parses_mqtt_subcommand_default_client_id :: "clap \<Rightarrow> bool" where
  "parses_mqtt_subcommand_default_client_id clap =
    (parsed clap [''mqtt'', ''mqtt://localhost:1883''] (\<lambda>cli. (case cli_command cli of CmdMqtt broker client_id v5 \<Rightarrow> broker = ''mqtt://localhost:1883'' \<and> client_id = None \<and> \<not> v5 | _ \<Rightarrow> False)))"

definition parses_mqtt_subcommand_with_client_id :: "clap \<Rightarrow> bool" where
  "parses_mqtt_subcommand_with_client_id clap =
    (parsed clap [''mqtt'', ''mqtts://broker.example.com:8883'', ''--client-id'', ''test-client''] (\<lambda>cli. (case cli_command cli of CmdMqtt broker client_id _ \<Rightarrow> broker = ''mqtts://broker.example.com:8883'' \<and> client_id = Some ''test-client'' | _ \<Rightarrow> False)))"

definition parses_mqtt_subcommand_with_v5_flag :: "clap \<Rightarrow> bool" where
  "parses_mqtt_subcommand_with_v5_flag clap =
    (parsed clap [''mqtt'', ''mqtt://broker.example.com'', ''--v5''] (\<lambda>cli. (case cli_command cli of CmdMqtt _ _ v5 \<Rightarrow> v5 | _ \<Rightarrow> False)))"

definition mqtt_subcommand_requires_broker :: "clap \<Rightarrow> bool" where
  "mqtt_subcommand_requires_broker clap =
    (rejects clap [''mqtt''])"

definition parses_grpc_subcommand_default_service :: "clap \<Rightarrow> bool" where
  "parses_grpc_subcommand_default_service clap =
    (parsed clap [''grpc'', ''grpc://localhost:50051''] (\<lambda>cli. (case cli_command cli of CmdGrpc endpoint service _ \<Rightarrow> endpoint = ''grpc://localhost:50051'' \<and> service = [] | _ \<Rightarrow> False)))"

definition parses_grpc_subcommand_with_service :: "clap \<Rightarrow> bool" where
  "parses_grpc_subcommand_with_service clap =
    (parsed clap [''grpc'', ''grpcs://broker.example.com:443'', ''--service'', ''my.Svc''] (\<lambda>cli. (case cli_command cli of CmdGrpc endpoint service _ \<Rightarrow> endpoint = ''grpcs://broker.example.com:443'' \<and> service = ''my.Svc'' | _ \<Rightarrow> False)))"

definition grpc_subcommand_requires_endpoint :: "clap \<Rightarrow> bool" where
  "grpc_subcommand_requires_endpoint clap =
    (rejects clap [''grpc''])"

definition parses_grpc_subcommand_with_watch_flag :: "clap \<Rightarrow> bool" where
  "parses_grpc_subcommand_with_watch_flag clap =
    (parsed clap [''grpc'', ''grpc://localhost:50051'', ''--watch''] (\<lambda>cli. (case cli_command cli of CmdGrpc _ _ watch \<Rightarrow> watch | _ \<Rightarrow> False)))"

definition parses_hls_subcommand :: "clap \<Rightarrow> bool" where
  "parses_hls_subcommand clap =
    (parsed clap [''hls'', ''http://example.com/master.m3u8''] (\<lambda>cli. (case cli_command cli of CmdHls x \<Rightarrow> x = ''http://example.com/master.m3u8'' | _ \<Rightarrow> False)))"

definition hls_subcommand_requires_url :: "clap \<Rightarrow> bool" where
  "hls_subcommand_requires_url clap =
    (rejects clap [''hls''])"

definition parses_tls_subcommand :: "clap \<Rightarrow> bool" where
  "parses_tls_subcommand clap =
    (parsed clap [''tls'', ''example.com:443''] (\<lambda>cli. (case cli_command cli of CmdTls x \<Rightarrow> x = ''example.com:443'' | _ \<Rightarrow> False)))"

definition parses_ntp_subcommand :: "clap \<Rightarrow> bool" where
  "parses_ntp_subcommand clap =
    (parsed clap [''ntp'', ''time.cloudflare.com''] (\<lambda>cli. (case cli_command cli of CmdNtp x \<Rightarrow> x = ''time.cloudflare.com'' | _ \<Rightarrow> False)))"

definition parses_stun_subcommand :: "clap \<Rightarrow> bool" where
  "parses_stun_subcommand clap =
    (parsed clap [''stun'', ''stun.l.google.com:19302''] (\<lambda>cli. (case cli_command cli of CmdStun x \<Rightarrow> x = ''stun.l.google.com:19302'' | _ \<Rightarrow> False)))"

definition parses_turn_subcommand :: "clap \<Rightarrow> bool" where
  "parses_turn_subcommand clap =
    (parsed clap [''turn'', ''turn.example.com:3478''] (\<lambda>cli. (case cli_command cli of CmdTurn x \<Rightarrow> x = ''turn.example.com:3478'' | _ \<Rightarrow> False)))"

definition batch_a_subcommands_require_target :: "clap \<Rightarrow> bool" where
  "batch_a_subcommands_require_target clap =
    (list_all (\<lambda>cmd. rejects clap [cmd]) [''tls'', ''ntp'', ''stun'', ''turn''])"

definition parses_rtsp_subcommand :: "clap \<Rightarrow> bool" where
  "parses_rtsp_subcommand clap =
    (parsed clap [''rtsp'', ''rtsp://example.com:554/''] (\<lambda>cli. (case cli_command cli of CmdRtsp x \<Rightarrow> x = ''rtsp://example.com:554/'' | _ \<Rightarrow> False)))"

definition parses_rtmp_subcommand :: "clap \<Rightarrow> bool" where
  "parses_rtmp_subcommand clap =
    (parsed clap [''rtmp'', ''rtmp://stream.example.com:1935/live''] (\<lambda>cli. (case cli_command cli of CmdRtmp x \<Rightarrow> x = ''rtmp://stream.example.com:1935/live'' | _ \<Rightarrow> False)))"

definition batch_b_subcommands_require_target :: "clap \<Rightarrow> bool" where
  "batch_b_subcommands_require_target clap =
    (list_all (\<lambda>cmd. rejects clap [cmd]) [''rtsp'', ''rtmp''])"

definition parses_quic_subcommand :: "clap \<Rightarrow> bool" where
  "parses_quic_subcommand clap =
    (parsed clap [''quic'', ''quic://example.com:443''] (\<lambda>cli. (case cli_command cli of CmdQuic endpoint alpn \<Rightarrow> endpoint = ''quic://example.com:443'' \<and> alpn = ''h3'' | _ \<Rightarrow> False)))"

definition parses_quic_with_custom_alpn :: "clap \<Rightarrow> bool" where
  "parses_quic_with_custom_alpn clap =
    (parsed clap [''quic'', ''example.com'', ''--alpn'', ''h3,hq-29''] (\<lambda>cli. (case cli_command cli of CmdQuic _ alpn \<Rightarrow> alpn = ''h3,hq-29'' | _ \<Rightarrow> False)))"

definition quic_subcommand_requires_endpoint :: "clap \<Rightarrow> bool" where
  "quic_subcommand_requires_endpoint clap =
    (rejects clap [''quic''])"

section \<open>They pass\<close>

lemma read_line:
  assumes "reads_plain_lines clap" and "plain argv"
  shows "Cli_try_parse clap argv = Option.bind (plain_parse [count_arg] cli_spec Map.empty argv) from_matches"
  using assms by (simp add: Cli_try_parse_def reads_plain_lines_def)

lemma small_counts: "parse_u64 ''3'' = Some 3" "parse_u64 ''5'' = Some 5" "parse_u64 ''7'' = Some 7"
  using parse_u64_dec [of 3] parse_u64_dec [of 5] parse_u64_dec [of 7] by (simp_all add: dec.simps digit_char_def)

text \<open>The facts with which a line is read by the simplifier.\<close>

lemmas reading = cli_spec_def http_methods_def dns_types_def dashed_def starts_with_def named_by_def kebab_def count_arg_def
  option_arg_def positional_def with_defaults_def from_matches_def variants_def small_counts

lemmas plain_simps = plain_def dashed_def starts_with_def named_by_def cli_spec_def http_methods_def count_arg_def option_arg_def
  positional_def kebab_def

lemmas cli_test_defs = parsed_def rejects_def
  parses_tcp_def parses_udp_def parses_all_http_methods_def parses_http_get_variant_def count_default_is_3_def
  count_at_root_position_def count_at_subcommand_leaf_def count_at_http_method_leaf_def rejects_missing_subcommand_def
  rejects_unknown_http_method_def build_pinger_returns_for_every_command_def parses_ws_subcommand_def
  parses_dns_subcommand_default_type_def parses_dns_subcommand_aaaa_type_def dns_subcommand_requires_query_def
  parses_mqtt_subcommand_default_client_id_def parses_mqtt_subcommand_with_client_id_def parses_mqtt_subcommand_with_v5_flag_def
  mqtt_subcommand_requires_broker_def parses_grpc_subcommand_default_service_def parses_grpc_subcommand_with_service_def
  grpc_subcommand_requires_endpoint_def parses_grpc_subcommand_with_watch_flag_def parses_hls_subcommand_def
  hls_subcommand_requires_url_def parses_tls_subcommand_def parses_ntp_subcommand_def parses_stun_subcommand_def
  parses_turn_subcommand_def batch_a_subcommands_require_target_def parses_rtsp_subcommand_def parses_rtmp_subcommand_def
  batch_b_subcommands_require_target_def parses_quic_subcommand_def parses_quic_with_custom_alpn_def
  quic_subcommand_requires_endpoint_def

lemma cli_tests_1:
  assumes "reads_plain_lines clap"
  shows "parses_tcp clap"
    "parses_udp clap"
    "parses_all_http_methods clap"
    "parses_http_get_variant clap"
  by (simp_all add: cli_test_defs read_line [OF assms] plain_simps) (simp_all add: reading)?

lemma cli_tests_2:
  assumes "reads_plain_lines clap"
  shows "count_default_is_3 clap"
    "count_at_root_position clap"
    "count_at_subcommand_leaf clap"
    "count_at_http_method_leaf clap"
  by (simp_all add: cli_test_defs read_line [OF assms] plain_simps) (simp_all add: reading)?

lemma cli_tests_3:
  assumes "reads_plain_lines clap"
  shows "rejects_missing_subcommand clap"
    "rejects_unknown_http_method clap"
    "build_pinger_returns_for_every_command clap"
    "parses_ws_subcommand clap"
  by (simp_all add: cli_test_defs read_line [OF assms] plain_simps) (simp_all add: reading)?

lemma cli_tests_4:
  assumes "reads_plain_lines clap"
  shows "parses_dns_subcommand_default_type clap"
    "parses_dns_subcommand_aaaa_type clap"
    "dns_subcommand_requires_query clap"
    "parses_mqtt_subcommand_default_client_id clap"
  by (simp_all add: cli_test_defs read_line [OF assms] plain_simps) (simp_all add: reading)?

lemma cli_tests_5:
  assumes "reads_plain_lines clap"
  shows "parses_mqtt_subcommand_with_client_id clap"
    "parses_mqtt_subcommand_with_v5_flag clap"
    "mqtt_subcommand_requires_broker clap"
    "parses_grpc_subcommand_default_service clap"
  by (simp_all add: cli_test_defs read_line [OF assms] plain_simps) (simp_all add: reading)?

lemma cli_tests_6:
  assumes "reads_plain_lines clap"
  shows "parses_grpc_subcommand_with_service clap"
    "grpc_subcommand_requires_endpoint clap"
    "parses_grpc_subcommand_with_watch_flag clap"
    "parses_hls_subcommand clap"
  by (simp_all add: cli_test_defs read_line [OF assms] plain_simps) (simp_all add: reading)?

lemma cli_tests_7:
  assumes "reads_plain_lines clap"
  shows "hls_subcommand_requires_url clap"
    "parses_tls_subcommand clap"
    "parses_ntp_subcommand clap"
    "parses_stun_subcommand clap"
  by (simp_all add: cli_test_defs read_line [OF assms] plain_simps) (simp_all add: reading)?

lemma cli_tests_8:
  assumes "reads_plain_lines clap"
  shows "parses_turn_subcommand clap"
    "batch_a_subcommands_require_target clap"
    "parses_rtsp_subcommand clap"
    "parses_rtmp_subcommand clap"
  by (simp_all add: cli_test_defs read_line [OF assms] plain_simps) (simp_all add: reading)?

lemma cli_tests_9:
  assumes "reads_plain_lines clap"
  shows "batch_b_subcommands_require_target clap"
    "parses_quic_subcommand clap"
    "parses_quic_with_custom_alpn clap"
    "quic_subcommand_requires_endpoint clap"
  by (simp_all add: cli_test_defs read_line [OF assms] plain_simps) (simp_all add: reading)?

text \<open>In the order of the source.\<close>

definition cli_tests :: "clap \<Rightarrow> bool list" where
  "cli_tests clap =
     [parses_tcp clap, parses_udp clap, parses_all_http_methods clap, parses_http_get_variant clap,
      count_default_is_3 clap, count_at_root_position clap, count_at_subcommand_leaf clap, count_at_http_method_leaf clap,
      rejects_missing_subcommand clap, rejects_unknown_http_method clap, build_pinger_returns_for_every_command clap, parses_ws_subcommand clap,
      parses_dns_subcommand_default_type clap, parses_dns_subcommand_aaaa_type clap, dns_subcommand_requires_query clap, parses_mqtt_subcommand_default_client_id clap,
      parses_mqtt_subcommand_with_client_id clap, parses_mqtt_subcommand_with_v5_flag clap, mqtt_subcommand_requires_broker clap, parses_grpc_subcommand_default_service clap,
      parses_grpc_subcommand_with_service clap, grpc_subcommand_requires_endpoint clap, parses_grpc_subcommand_with_watch_flag clap, parses_hls_subcommand clap,
      hls_subcommand_requires_url clap, parses_tls_subcommand clap, parses_ntp_subcommand clap, parses_stun_subcommand clap,
      parses_turn_subcommand clap, batch_a_subcommands_require_target clap, parses_rtsp_subcommand clap, parses_rtmp_subcommand clap,
      batch_b_subcommands_require_target clap, parses_quic_subcommand clap, parses_quic_with_custom_alpn clap, quic_subcommand_requires_endpoint clap]"

section \<open>Together\<close>

text \<open>
  Unit tests. Every unit test of the repository's protocol modules and of the command line tool passes on the
  model: 81 tests of \<open>zpinger\<close>, for every regex engine that is leftmost-first on ASCII text and whatever the clock
  says, and 36 of \<open>knockknock\<close>, for every parser that reads plain lines as clap documents.
\<close>

theorem every_unit_test_passes:
  assumes "regex_engine rx" and "reads_plain_lines clap"
  shows "list_all (\<lambda>(file, tests). list_all id tests) (unit_tests rx now @ [(''knockknock/src/main.rs'', cli_tests clap)])"
  using unit_tests_pass [OF assms(1), of now]
  by (simp add: cli_tests_def cli_tests_1 cli_tests_2 cli_tests_3 cli_tests_4 cli_tests_5 cli_tests_6 cli_tests_7 cli_tests_8 cli_tests_9
      assms(2))

lemma every_unit_test_passes_witness:
  "list_all (\<lambda>(file, tests). list_all id tests)
     (unit_tests first_match (Some (1700000000, 5)) @
      [(''knockknock/src/main.rs'', cli_tests (plain_parse [count_arg] cli_spec Map.empty))])"
  by (rule every_unit_test_passes [OF reference_engine.regex_engine_axioms]) (simp add: reads_plain_lines_def)

end
