(* ===== verification/Mcp.thy ===== *)
theory Mcp
  imports Cli
begin

text \<open>
  \<open>knockknock/src/bin/knockknock-mcp.rs\<close>: the argument types of the tools, the ping loop with its
  report, and the sixteen tools. What serde, schemars and rmcp generate (deserialisation, schemas,
  the router's dispatch by name, the stdio transport) is left out; \<open>serde_json\<close>, the allocator and
  \<open>f64\<close> arithmetic are parameters.
\<close>

section \<open>Definitions\<close>

record TargetArgs =
  ta_target :: string
  ta_count :: "nat option"
  ta_timeout_ms :: "nat option"

datatype HttpMethodArg = ArgConnect | ArgGet | ArgPost | ArgPut | ArgDelete | ArgPatch

fun http_method_of :: "HttpMethodArg \<Rightarrow> HttpMethod" where
  "http_method_of ArgConnect = Connect"
| "http_method_of ArgGet = Get"
| "http_method_of ArgPost = Post"
| "http_method_of ArgPut = Put"
| "http_method_of ArgDelete = Delete"
| "http_method_of ArgPatch = Patch"

record HttpPingArgs =
  ha_target :: string
  ha_method :: "HttpMethodArg option"
  ha_count :: "nat option"
  ha_timeout_ms :: "nat option"

datatype RecordTypeArg = ArgA | ArgAaaa | ArgCname | ArgMx | ArgNs | ArgTxt

fun record_type_arg :: "RecordTypeArg \<Rightarrow> RecordType" where
  "record_type_arg ArgA = A"
| "record_type_arg ArgAaaa = Aaaa"
| "record_type_arg ArgCname = Cname"
| "record_type_arg ArgMx = Mx"
| "record_type_arg ArgNs = Ns"
| "record_type_arg ArgTxt = Txt"

record DnsPingArgs =
  da_server :: string
  da_query :: string
  da_record_type :: "RecordTypeArg option"
  da_count :: "nat option"
  da_timeout_ms :: "nat option"

record MqttPingArgs =
  ma_broker :: string
  ma_client_id :: "string option"
  ma_v5 :: bool
  ma_count :: "nat option"
  ma_timeout_ms :: "nat option"

record GrpcPingArgs =
  ga_endpoint :: string
  ga_service :: "string option"
  ga_count :: "nat option"
  ga_timeout_ms :: "nat option"

record QuicPingArgs =
  qa_target :: string
  qa_alpn :: "string option"
  qa_count :: "nat option"
  qa_timeout_ms :: "nat option"

record HlsPingArgs =
  la_url :: string
  la_count :: "nat option"
  la_timeout_ms :: "nat option"

text \<open>\<open>'f\<close> is \<open>f64\<close>.\<close>

record 'f Iteration =
  it_elapsed_ms :: 'f
  it_success :: bool
  it_error :: "string option"

record 'f Summary =
  sm_count :: nat
  sm_recv :: nat
  sm_lose :: nat
  sm_lose_pct :: nat
  sm_total_ms :: 'f

record 'f PingReport =
  pr_iterations :: "'f Iteration list"
  pr_summary :: "'f Summary"

text \<open>
  \<open>with_capacity\<close> is \<open>Vec::with_capacity\<close> for iterations, which panics past \<open>isize::MAX\<close> bytes;
  \<open>ms\<close> is \<open>as_secs_f64() * 1000.0\<close> and \<open>ms_zero\<close> is \<open>0.0\<close>; \<open>error_text\<close> is the \<open>Display\<close> of an error;
  \<open>to_json\<close> is \<open>serde_json::to_string_pretty\<close>.
\<close>

record 'f mcp_env =
  with_capacity :: "nat \<Rightarrow> unit result"
  ms :: "duration \<Rightarrow> 'f"
  ms_zero :: 'f
  error_text :: "io_error \<Rightarrow> string"
  to_json :: "'f PingReport \<Rightarrow> string + string"

definition DEFAULT_COUNT :: nat where "DEFAULT_COUNT = 1"
definition DEFAULT_TIMEOUT_MS :: nat where "DEFAULT_TIMEOUT_MS = 5000"

definition count_or_default :: "nat option \<Rightarrow> nat" where
  "count_or_default c = max (case c of Some n \<Rightarrow> n | None \<Rightarrow> DEFAULT_COUNT) 1"

definition timeout_or_default :: "nat option \<Rightarrow> duration" where
  "timeout_or_default t = from_millis (case t of Some n \<Rightarrow> n | None \<Rightarrow> DEFAULT_TIMEOUT_MS)"

definition success_iteration :: "'f mcp_env \<Rightarrow> duration \<Rightarrow> 'f Iteration" where
  "success_iteration env elapsed = \<lparr>it_elapsed_ms = ms env elapsed, it_success = True, it_error = None\<rparr>"

definition failed_iteration :: "'f mcp_env \<Rightarrow> io_error \<Rightarrow> 'f Iteration" where
  "failed_iteration env e = \<lparr>it_elapsed_ms = ms_zero env, it_success = False, it_error = Some (error_text env e)\<rparr>"

fun run_loop :: "'f mcp_env \<Rightarrow> ('w, duration) io \<Rightarrow> nat \<Rightarrow> 'f Iteration list \<Rightarrow> duration \<Rightarrow> nat \<Rightarrow>
    ('w, 'f Iteration list \<times> duration \<times> nat) io" where
  "run_loop env timed_ping 0 iterations total_time recv = io_ok (iterations, total_time, recv)"
| "run_loop env timed_ping (Suc n) iterations total_time recv =
     io_catch timed_ping
       (\<lambda>elapsed.
          io_bind (io_lift (add_duration total_time elapsed)) (\<lambda>total_time.
          run_loop env timed_ping n (iterations @ [success_iteration env elapsed]) total_time (recv + 1)))
       (\<lambda>e. run_loop env timed_ping n (iterations @ [failed_iteration env e]) total_time recv)"

definition run_pings :: "'f mcp_env \<Rightarrow> ('w, duration) io \<Rightarrow> nat \<Rightarrow> ('w, 'f PingReport) io" where
  "run_pings env timed_ping count =
     io_bind (io_lift (with_capacity env count)) (\<lambda>_.
     io_bind (run_loop env timed_ping count [] 0 0) (\<lambda>(iterations, total_time, recv).
       let lose = count - recv
       in io_bind (io_lift (if count = 0 then Ok 0 else bind_r (mul_u64 lose 100) (\<lambda>m. Ok (m div count)))) (\<lambda>lose_pct.
          io_ok \<lparr>pr_iterations = iterations,
                 pr_summary = \<lparr>sm_count = count, sm_recv = recv, sm_lose = lose, sm_lose_pct = lose_pct,
                               sm_total_ms = ms env total_time\<rparr>\<rparr>)))"

text \<open>A \<open>CallToolResult\<close> with the one text, or the \<open>McpError\<close>.\<close>

definition report_to_result :: "'f mcp_env \<Rightarrow> 'f PingReport \<Rightarrow> string + string" where
  "report_to_result env report =
     (case to_json env report of
        Inl e \<Rightarrow> Inl (''serialize ping report: '' @ e)
      | Inr payload \<Rightarrow> Inr payload)"

text \<open>The common end of every tool: \<open>run_pings(&p, count)\<close> and \<open>report_to_result(&report)\<close>.\<close>

definition ping_tool :: "'f mcp_env \<Rightarrow> ('w, 'h, 'c, 's, 'k, 'e, 'n, 'ep, 't, 'ch, 'st) stack \<Rightarrow> 'c any_pinger \<Rightarrow> nat \<Rightarrow>
    ('w, string + string) io" where
  "ping_tool env sk p count =
     io_bind (run_pings env (timed (sk_net sk) (dyn_ping sk p)) count) (\<lambda>report. io_ok (report_to_result env report))"

definition mcp_tcp_ping where
  "mcp_tcp_ping env sk args =
     (let count = count_or_default (ta_count args);
          p = TcpPinger_with_timeout (TcpPinger_new (ta_target args)) (timeout_or_default (ta_timeout_ms args))
      in ping_tool env sk (PTcp p) count)"

definition mcp_udp_ping where
  "mcp_udp_ping env sk args =
     (let count = count_or_default (ta_count args);
          p = UdpPinger_with_timeout (UdpPinger_new (ta_target args)) (timeout_or_default (ta_timeout_ms args))
      in ping_tool env sk (PUdp p) count)"

definition mcp_http_ping where
  "mcp_http_ping env sk args =
     (let count = count_or_default (ha_count args);
          m = (case ha_method args of Some m \<Rightarrow> http_method_of m | None \<Rightarrow> Get);
          p = HttpPinger_with_timeout (HttpPinger_new m (ha_target args)) (timeout_or_default (ha_timeout_ms args))
      in ping_tool env sk (PHttp p) count)"

definition mcp_ws_ping where
  "mcp_ws_ping env sk args =
     (let count = count_or_default (ta_count args);
          p = WebSocketPinger_with_timeout (WebSocketPinger_new (ta_target args)) (timeout_or_default (ta_timeout_ms args))
      in ping_tool env sk (PWs p) count)"

definition mcp_dns_ping where
  "mcp_dns_ping env sk args =
     (let count = count_or_default (da_count args);
          rt = (case da_record_type args of Some r \<Rightarrow> record_type_arg r | None \<Rightarrow> A);
          p = DnsPinger_with_timeout (DnsPinger_with_record_type (DnsPinger_new (da_server args) (da_query args)) rt)
                (timeout_or_default (da_timeout_ms args))
      in ping_tool env sk (PDns p) count)"

definition mcp_mqtt_ping where
  "mcp_mqtt_ping env sk args =
     (let count = count_or_default (ma_count args);
          p = MqttPinger_with_timeout (MqttPinger_new (ma_broker args)) (timeout_or_default (ma_timeout_ms args));
          p = (case ma_client_id args of Some cid \<Rightarrow> MqttPinger_with_client_id p cid | None \<Rightarrow> p);
          p = (if ma_v5 args then MqttPinger_with_version p V5 else p)
      in ping_tool env sk (PMqtt p) count)"

definition mcp_grpc_ping where
  "mcp_grpc_ping env sk args =
     (let count = count_or_default (ga_count args);
          p = GrpcPinger_with_timeout (GrpcPinger_new (ga_endpoint args)) (timeout_or_default (ga_timeout_ms args));
          p = (case ga_service args of Some service \<Rightarrow> GrpcPinger_with_service p service | None \<Rightarrow> p)
      in ping_tool env sk (PGrpc p) count)"

definition mcp_grpc_watch_ping where
  "mcp_grpc_watch_ping env sk args =
     (let count = count_or_default (ga_count args);
          p = GrpcStreamPinger_with_timeout (GrpcStreamPinger_new (ga_endpoint args)) (timeout_or_default (ga_timeout_ms args));
          p = (case ga_service args of Some service \<Rightarrow> GrpcStreamPinger_with_service p service | None \<Rightarrow> p)
      in ping_tool env sk (PGrpcStream p) count)"

definition mcp_hls_ping where
  "mcp_hls_ping env sk args =
     (let count = count_or_default (la_count args);
          p = HlsPinger_with_timeout (HlsPinger_new (la_url args)) (timeout_or_default (la_timeout_ms args))
      in ping_tool env sk (PHls p) count)"

definition mcp_tls_ping where
  "mcp_tls_ping env sk args =
     (let count = count_or_default (ta_count args);
          p = TlsPinger_with_timeout (TlsPinger_new (ta_target args)) (timeout_or_default (ta_timeout_ms args))
      in ping_tool env sk (PTls p) count)"

definition mcp_ntp_ping where
  "mcp_ntp_ping env sk args =
     (let count = count_or_default (ta_count args);
          p = NtpPinger_with_timeout (NtpPinger_new (ta_target args)) (timeout_or_default (ta_timeout_ms args))
      in ping_tool env sk (PNtp p) count)"

definition mcp_stun_ping where
  "mcp_stun_ping env sk args =
     (let count = count_or_default (ta_count args);
          p = StunPinger_with_timeout (StunPinger_new (ta_target args)) (timeout_or_default (ta_timeout_ms args))
      in ping_tool env sk (PStun p) count)"

definition mcp_turn_ping where
  "mcp_turn_ping env sk args =
     (let count = count_or_default (ta_count args);
          p = TurnPinger_with_timeout (TurnPinger_new (ta_target args)) (timeout_or_default (ta_timeout_ms args))
      in ping_tool env sk (PTurn p) count)"

definition mcp_rtsp_ping where
  "mcp_rtsp_ping env sk args =
     (let count = count_or_default (ta_count args);
          p = RtspPinger_with_timeout (RtspPinger_new (ta_target args)) (timeout_or_default (ta_timeout_ms args))
      in ping_tool env sk (PRtsp p) count)"

definition mcp_rtmp_ping where
  "mcp_rtmp_ping env sk args =
     (let count = count_or_default (ta_count args);
          p = RtmpPinger_with_timeout (RtmpPinger_new (ta_target args)) (timeout_or_default (ta_timeout_ms args))
      in ping_tool env sk (PRtmp p) count)"

definition mcp_quic_ping where
  "mcp_quic_ping env sk args =
     (let count = count_or_default (qa_count args);
          alpns = (case qa_alpn args of
                     Some s \<Rightarrow> map bytes_of (filter (\<lambda>p. p \<noteq> []) (split_char (CHR '','') s))
                   | None \<Rightarrow> [bytes_of ''h3'']);
          p = QuicPinger_with_timeout (QuicPinger_new (qa_target args)) (timeout_or_default (qa_timeout_ms args));
          p = (if alpns \<noteq> [] then QuicPinger_with_alpn p alpns else p)
      in ping_tool env sk (PQuic p) count)"

section \<open>The tools and the subcommands\<close>

text \<open>A call of one of the tools, and the subcommand with the same arguments.\<close>

datatype tool_call =
    ToolTcp TargetArgs | ToolUdp TargetArgs | ToolHttp HttpPingArgs | ToolWs TargetArgs | ToolDns DnsPingArgs
  | ToolMqtt MqttPingArgs | ToolGrpc GrpcPingArgs | ToolGrpcWatch GrpcPingArgs | ToolHls HlsPingArgs | ToolTls TargetArgs
  | ToolNtp TargetArgs | ToolStun TargetArgs | ToolTurn TargetArgs | ToolRtsp TargetArgs | ToolRtmp TargetArgs
  | ToolQuic QuicPingArgs

fun call_tool :: "'f mcp_env \<Rightarrow> ('w, 'h, 'c, 's, 'k, 'e, 'n, 'ep, 't, 'ch, 'st) stack \<Rightarrow> tool_call \<Rightarrow>
    ('w, string + string) io" where
  "call_tool env sk (ToolTcp a) = mcp_tcp_ping env sk a"
| "call_tool env sk (ToolUdp a) = mcp_udp_ping env sk a"
| "call_tool env sk (ToolHttp a) = mcp_http_ping env sk a"
| "call_tool env sk (ToolWs a) = mcp_ws_ping env sk a"
| "call_tool env sk (ToolDns a) = mcp_dns_ping env sk a"
| "call_tool env sk (ToolMqtt a) = mcp_mqtt_ping env sk a"
| "call_tool env sk (ToolGrpc a) = mcp_grpc_ping env sk a"
| "call_tool env sk (ToolGrpcWatch a) = mcp_grpc_watch_ping env sk a"
| "call_tool env sk (ToolHls a) = mcp_hls_ping env sk a"
| "call_tool env sk (ToolTls a) = mcp_tls_ping env sk a"
| "call_tool env sk (ToolNtp a) = mcp_ntp_ping env sk a"
| "call_tool env sk (ToolStun a) = mcp_stun_ping env sk a"
| "call_tool env sk (ToolTurn a) = mcp_turn_ping env sk a"
| "call_tool env sk (ToolRtsp a) = mcp_rtsp_ping env sk a"
| "call_tool env sk (ToolRtmp a) = mcp_rtmp_ping env sk a"
| "call_tool env sk (ToolQuic a) = mcp_quic_ping env sk a"

section \<open>The server\<close>

text \<open>
  \<open>ToolRouter\<close> is generated by \<open>#[tool_router]\<close> from the methods marked \<open>#[tool]\<close>: their names, in order. \<open>ServerInfo\<close> and
  \<open>Implementation\<close> with the fields that are set; tools are the only capability turned on. \<open>CARGO_PKG_VERSION\<close> is
  that of \<open>knockknock/Cargo.toml\<close>.
\<close>

record KnockknockServer =
  tool_router :: "string list"

definition KnockknockServer_new :: KnockknockServer where
  "KnockknockServer_new = \<lparr>tool_router =
     [''tcp_ping'', ''udp_ping'', ''http_ping'', ''ws_ping'', ''dns_ping'', ''mqtt_ping'', ''grpc_ping'', ''grpc_watch_ping'', ''hls_ping'',
      ''tls_ping'', ''ntp_ping'', ''stun_ping'', ''turn_ping'', ''rtsp_ping'', ''rtmp_ping'', ''quic_ping'']\<rparr>"

definition KnockknockServer_default :: KnockknockServer where
  "KnockknockServer_default = KnockknockServer_new"

record ServerInfo =
  si_name :: string
  si_version :: string
  si_instructions :: "string option"
  si_tools :: bool

definition get_info :: "KnockknockServer \<Rightarrow> ServerInfo" where
  "get_info self = \<lparr>si_name = ''knockknock-mcp'', si_version = ''1.7.0'',
     si_instructions = Some (''knock_knock latency probe '' @ em_dash @ '' every supported protocol exposed as a tool. '' @
       ''Each tool returns per-iteration timings plus a summary. Default count is 1; '' @
       ''increase via the count argument when you want statistical RTT info. '' @
       ''Default timeout is 5000 ms; override via timeout_ms when probing slow endpoints.''),
     si_tools = True\<rparr>"

text \<open>\<open>main\<close>: rmcp's \<open>serve\<close> on standard input and output, and \<open>waiting\<close> for its end. Errors are boxed.\<close>

definition mcp_main :: "(KnockknockServer \<Rightarrow> ('w, 'run) io) \<Rightarrow> ('run \<Rightarrow> ('w, 'reason) io) \<Rightarrow> ('w, unit) io" where
  "mcp_main serve waiting =
     io_bind (serve KnockknockServer_new) (\<lambda>service. io_bind (waiting service) (\<lambda>_. io_ok ()))"

fun tool_name :: "tool_call \<Rightarrow> string" where
  "tool_name (ToolTcp _) = ''tcp_ping''"
| "tool_name (ToolUdp _) = ''udp_ping''"
| "tool_name (ToolHttp _) = ''http_ping''"
| "tool_name (ToolWs _) = ''ws_ping''"
| "tool_name (ToolDns _) = ''dns_ping''"
| "tool_name (ToolMqtt _) = ''mqtt_ping''"
| "tool_name (ToolGrpc _) = ''grpc_ping''"
| "tool_name (ToolGrpcWatch _) = ''grpc_watch_ping''"
| "tool_name (ToolHls _) = ''hls_ping''"
| "tool_name (ToolTls _) = ''tls_ping''"
| "tool_name (ToolNtp _) = ''ntp_ping''"
| "tool_name (ToolStun _) = ''stun_ping''"
| "tool_name (ToolTurn _) = ''turn_ping''"
| "tool_name (ToolRtsp _) = ''rtsp_ping''"
| "tool_name (ToolRtmp _) = ''rtmp_ping''"
| "tool_name (ToolQuic _) = ''quic_ping''"

text \<open>Each tool has a name of its own, and the names are those of the tools that can be called.\<close>

lemma tools_routed:
  "distinct (tool_router KnockknockServer_new)" "tool_name c \<in> set (tool_router KnockknockServer_new)"
  by (simp add: KnockknockServer_new_def) (cases c; simp add: KnockknockServer_new_def)

fun http_command_of :: "HttpMethodArg option \<Rightarrow> string \<Rightarrow> http_command" where
  "http_command_of None target = HttpGet target"
| "http_command_of (Some ArgConnect) target = HttpConnect target"
| "http_command_of (Some ArgGet) target = HttpGet target"
| "http_command_of (Some ArgPost) target = HttpPost target"
| "http_command_of (Some ArgPut) target = HttpPut target"
| "http_command_of (Some ArgDelete) target = HttpDelete target"
| "http_command_of (Some ArgPatch) target = HttpPatch target"

fun dns_type_of :: "RecordTypeArg option \<Rightarrow> DnsType" where
  "dns_type_of None = DnsA"
| "dns_type_of (Some ArgA) = DnsA"
| "dns_type_of (Some ArgAaaa) = DnsAaaa"
| "dns_type_of (Some ArgCname) = DnsCname"
| "dns_type_of (Some ArgMx) = DnsMx"
| "dns_type_of (Some ArgNs) = DnsNs"
| "dns_type_of (Some ArgTxt) = DnsTxt"

definition or_else :: "'a \<Rightarrow> 'a option \<Rightarrow> 'a" where
  "or_else d x = (case x of Some y \<Rightarrow> y | None \<Rightarrow> d)"

fun tool_command :: "tool_call \<Rightarrow> Command" where
  "tool_command (ToolTcp a) = CmdTcp (ta_target a)"
| "tool_command (ToolUdp a) = CmdUdp (ta_target a)"
| "tool_command (ToolHttp a) = CmdHttp (http_command_of (ha_method a) (ha_target a))"
| "tool_command (ToolWs a) = CmdWs (ta_target a)"
| "tool_command (ToolDns a) = CmdDns (da_server a) (da_query a) (dns_type_of (da_record_type a))"
| "tool_command (ToolMqtt a) = CmdMqtt (ma_broker a) (ma_client_id a) (ma_v5 a)"
| "tool_command (ToolGrpc a) = CmdGrpc (ga_endpoint a) (or_else [] (ga_service a)) False"
| "tool_command (ToolGrpcWatch a) = CmdGrpc (ga_endpoint a) (or_else [] (ga_service a)) True"
| "tool_command (ToolHls a) = CmdHls (la_url a)"
| "tool_command (ToolTls a) = CmdTls (ta_target a)"
| "tool_command (ToolNtp a) = CmdNtp (ta_target a)"
| "tool_command (ToolStun a) = CmdStun (ta_target a)"
| "tool_command (ToolTurn a) = CmdTurn (ta_target a)"
| "tool_command (ToolRtsp a) = CmdRtsp (ta_target a)"
| "tool_command (ToolRtmp a) = CmdRtmp (ta_target a)"
| "tool_command (ToolQuic a) = CmdQuic (qa_target a) (or_else ''h3'' (qa_alpn a))"

fun tool_count :: "tool_call \<Rightarrow> nat option" where
  "tool_count (ToolHttp a) = ha_count a"
| "tool_count (ToolDns a) = da_count a"
| "tool_count (ToolMqtt a) = ma_count a"
| "tool_count (ToolGrpc a) = ga_count a"
| "tool_count (ToolGrpcWatch a) = ga_count a"
| "tool_count (ToolHls a) = la_count a"
| "tool_count (ToolQuic a) = qa_count a"
| "tool_count (ToolTcp a) = ta_count a"
| "tool_count (ToolUdp a) = ta_count a"
| "tool_count (ToolWs a) = ta_count a"
| "tool_count (ToolTls a) = ta_count a"
| "tool_count (ToolNtp a) = ta_count a"
| "tool_count (ToolStun a) = ta_count a"
| "tool_count (ToolTurn a) = ta_count a"
| "tool_count (ToolRtsp a) = ta_count a"
| "tool_count (ToolRtmp a) = ta_count a"

fun tool_timeout_ms :: "tool_call \<Rightarrow> nat option" where
  "tool_timeout_ms (ToolHttp a) = ha_timeout_ms a"
| "tool_timeout_ms (ToolDns a) = da_timeout_ms a"
| "tool_timeout_ms (ToolMqtt a) = ma_timeout_ms a"
| "tool_timeout_ms (ToolGrpc a) = ga_timeout_ms a"
| "tool_timeout_ms (ToolGrpcWatch a) = ga_timeout_ms a"
| "tool_timeout_ms (ToolHls a) = la_timeout_ms a"
| "tool_timeout_ms (ToolQuic a) = qa_timeout_ms a"
| "tool_timeout_ms (ToolTcp a) = ta_timeout_ms a"
| "tool_timeout_ms (ToolUdp a) = ta_timeout_ms a"
| "tool_timeout_ms (ToolWs a) = ta_timeout_ms a"
| "tool_timeout_ms (ToolTls a) = ta_timeout_ms a"
| "tool_timeout_ms (ToolNtp a) = ta_timeout_ms a"
| "tool_timeout_ms (ToolStun a) = ta_timeout_ms a"
| "tool_timeout_ms (ToolTurn a) = ta_timeout_ms a"
| "tool_timeout_ms (ToolRtsp a) = ta_timeout_ms a"
| "tool_timeout_ms (ToolRtmp a) = ta_timeout_ms a"

lemma timeout_default: "timeout_or_default None = from_secs 5"
  by (simp add: timeout_or_default_def DEFAULT_TIMEOUT_MS_def from_millis_def from_secs_def)

lemma http_command_parts: "http_parts (http_command_of m target) = (case m of Some m \<Rightarrow> http_method_of m | None \<Rightarrow> Get, target)"
proof (cases m)
  case (Some x)
  then show ?thesis by (cases x) simp_all
qed simp

lemma dns_type_parts: "record_type_of (dns_type_of t) = (case t of Some r \<Rightarrow> record_type_arg r | None \<Rightarrow> A)"
proof (cases t)
  case (Some x)
  then show ?thesis by (cases x) simp_all
qed simp

lemma alpn_h3: "alpn_list ''h3'' = [bytes_of ''h3'']"
  by (simp add: alpn_list_def)

lemmas tool_defs = mcp_tcp_ping_def mcp_udp_ping_def mcp_http_ping_def mcp_ws_ping_def mcp_dns_ping_def mcp_mqtt_ping_def
  mcp_grpc_ping_def mcp_grpc_watch_ping_def mcp_hls_ping_def mcp_tls_ping_def mcp_ntp_ping_def mcp_stun_ping_def
  mcp_turn_ping_def mcp_rtsp_ping_def mcp_rtmp_ping_def mcp_quic_ping_def

lemmas pinger_builders = TcpPinger_new_def TcpPinger_with_timeout_def UdpPinger_new_def UdpPinger_with_timeout_def
  HttpPinger_new_def HttpPinger_with_timeout_def WebSocketPinger_new_def WebSocketPinger_with_timeout_def
  DnsPinger_new_def DnsPinger_with_timeout_def DnsPinger_with_record_type_def MqttPinger_new_def MqttPinger_with_timeout_def
  MqttPinger_with_client_id_def MqttPinger_with_version_def GrpcPinger_new_def GrpcPinger_with_timeout_def
  GrpcPinger_with_service_def GrpcStreamPinger_new_def GrpcStreamPinger_with_timeout_def GrpcStreamPinger_with_service_def
  HlsPinger_new_def HlsPinger_with_timeout_def TlsPinger_new_def TlsPinger_with_timeout_def NtpPinger_new_def NtpPinger_with_timeout_def
  StunPinger_new_def StunPinger_with_timeout_def TurnPinger_new_def TurnPinger_with_timeout_def RtspPinger_new_def RtspPinger_with_timeout_def
  RtmpPinger_new_def RtmpPinger_with_timeout_def QuicPinger_new_def QuicPinger_with_timeout_def QuicPinger_with_alpn_def

lemma tools_are_commands_fact:
  "tool_timeout_ms t = None \<Longrightarrow>
   call_tool env sk t = ping_tool env sk (build_pinger (tool_command t)) (count_or_default (tool_count t))"
  by (cases t)
    (simp_all add: tool_defs pinger_builders timeout_default http_command_parts dns_type_parts alpn_h3 or_else_def alpn_list_def Let_def
      split: option.split)

section \<open>The report\<close>

fun iteration_of :: "'f mcp_env \<Rightarrow> outcome \<Rightarrow> 'f Iteration" where
  "iteration_of env (Inr d) = success_iteration env d"
| "iteration_of env (Inl e) = failed_iteration env e"

definition report_of :: "'f mcp_env \<Rightarrow> outcome list \<Rightarrow> 'f PingReport" where
  "report_of env rs = \<lparr>pr_iterations = map (iteration_of env) rs,
     pr_summary = \<lparr>sm_count = length rs, sm_recv = received rs, sm_lose = lost rs, sm_lose_pct = lost rs * 100 div length rs,
                   sm_total_ms = ms env (total_elapsed rs)\<rparr>\<rparr>"

lemma run_loop_attempts:
  assumes "attempts tp n w = Some (Ok rs, w')" and "t + total_elapsed rs < MAX_DURATION"
  shows "run_loop env tp n its t r w = Some (Ok (its @ map (iteration_of env) rs, t + total_elapsed rs, r + received rs), w')"
  using assms
proof (induction n arbitrary: w rs t r its)
  case (Suc n)
  from Suc.prems(1) show ?case
  proof (cases rule: attempts_Suc_Ok)
    case (Ok d rs' w1)
    with Suc.IH [of w1 rs' "t + d" "its @ [success_iteration env d]" "r + 1"] Suc.prems(2) show ?thesis
      by (simp add: io_catch_def io_bind_def add_duration_def add.assoc)
  next
    case (Err e rs' w1)
    with Suc.IH [of w1 rs' t "its @ [failed_iteration env e]" r] Suc.prems(2) show ?thesis
      by (simp add: io_catch_def io_bind_def)
  qed
qed simp

lemma run_pings_report:
  assumes "attempts tp n w = Some (Ok rs, w')" and "with_capacity env n = Ok ()"
    and "total_elapsed rs < MAX_DURATION" and "n * 100 < 2 ^ 64"
  shows "run_pings env tp n w = Some (Ok (report_of env rs), w')"
proof -
  have n: "length rs = n" by (rule attempts_length [OF assms(1)])
  then have l: "n - received rs = lost rs" using received_lost [of rs] by simp
  have "lost rs * 100 < 2 ^ 64" using n received_lost [of rs] assms(4) by linarith
  then have m: "mul_u64 (lost rs) 100 = Ok (lost rs * 100)" unfolding mul_u64_def by simp
  have loop: "run_loop env tp n [] 0 0 w = Some (Ok (map (iteration_of env) rs, total_elapsed rs, received rs), w')"
    using run_loop_attempts [OF assms(1), of 0 env "[]" 0] assms(3) by simp
  show ?thesis
    unfolding run_pings_def by (simp add: assms(2) loop io_bind_def l m report_of_def n Let_def)
qed

lemma report_facts:
  "sm_recv (pr_summary (report_of env rs)) + sm_lose (pr_summary (report_of env rs)) = sm_count (pr_summary (report_of env rs))"
  "length (pr_iterations (report_of env rs)) = sm_count (pr_summary (report_of env rs))"
  "length (filter it_success (pr_iterations (report_of env rs))) = sm_recv (pr_summary (report_of env rs))"
  "sm_lose_pct (pr_summary (report_of env rs)) \<le> 100"
  "rs \<noteq> [] \<Longrightarrow> sm_lose_pct (pr_summary (report_of env rs)) = 100 \<longleftrightarrow> sm_recv (pr_summary (report_of env rs)) = 0"
proof -
  have it: "it_success (iteration_of env r) \<longleftrightarrow> \<not> isl r" for r
    by (cases r) (simp_all add: success_iteration_def failed_iteration_def)
  have l: "lost rs \<le> length rs" using received_lost [of rs] by linarith
  show "sm_recv (pr_summary (report_of env rs)) + sm_lose (pr_summary (report_of env rs)) = sm_count (pr_summary (report_of env rs))"
    "length (pr_iterations (report_of env rs)) = sm_count (pr_summary (report_of env rs))"
    using received_lost [of rs] by (simp_all add: report_of_def)
  show "length (filter it_success (pr_iterations (report_of env rs))) = sm_recv (pr_summary (report_of env rs))"
    by (simp add: report_of_def received_def filter_map comp_def it)
  have "lost rs * 100 div length rs \<le> length rs * 100 div length rs"
    using l by (intro div_le_mono mult_le_mono) simp_all
  also have "\<dots> \<le> 100" by (cases "length rs = 0") simp_all
  finally show "sm_lose_pct (pr_summary (report_of env rs)) \<le> 100" by (simp add: report_of_def)
  assume "rs \<noteq> []"
  then have p: "0 < length rs" by simp
  have "lost rs * 100 div length rs = 100 \<longleftrightarrow> lost rs = length rs"
  proof
    assume "lost rs * 100 div length rs = 100"
    then have "100 * length rs \<le> lost rs * 100"
      using div_times_less_eq_dividend [of "lost rs * 100" "length rs"] by simp
    then show "lost rs = length rs" using l by linarith
  qed (use p in simp)
  then show "sm_lose_pct (pr_summary (report_of env rs)) = 100 \<longleftrightarrow> sm_recv (pr_summary (report_of env rs)) = 0"
    using received_lost [of rs] by (auto simp: report_of_def)
qed

section \<open>Properties\<close>

text \<open>
  Tools are subcommands. A tool called without a timeout runs the very pinger the command line
  tool builds for the same arguments, every optional argument left out standing for the default of the
  subcommand; the count is at least one.
\<close>

theorem tools_are_commands:
  "tool_timeout_ms t = None \<Longrightarrow>
   call_tool env sk t = ping_tool env sk (build_pinger (tool_command t)) (count_or_default (tool_count t))"
  by (rule tools_are_commands_fact)

lemma tools_are_commands_witness:
  "\<forall>env sk. call_tool env sk (ToolQuic \<lparr>qa_target = ''srv'', qa_alpn = None, qa_count = Some 0, qa_timeout_ms = None\<rparr>) =
     ping_tool env sk (PQuic \<lparr>quic_endpoint = ''srv'', quic_timeout = 5000000000, quic_alpn = [bytes_of ''h3''], quic_tls_config = None\<rparr>) 1"
proof (intro allI)
  fix env sk
  show "call_tool env sk (ToolQuic \<lparr>qa_target = ''srv'', qa_alpn = None, qa_count = Some 0, qa_timeout_ms = None\<rparr>) =
     ping_tool env sk (PQuic \<lparr>quic_endpoint = ''srv'', quic_timeout = 5000000000, quic_alpn = [bytes_of ''h3''], quic_tls_config = None\<rparr>) 1"
    by (subst tools_are_commands)
      (simp_all add: alpn_h3 or_else_def QuicPinger_new_def QuicPinger_with_alpn_def from_secs_def count_or_default_def Let_def)
qed

text \<open>
  The MCP report. A run of pings that resolve without a panic gives a report in which received and
  lost add up to the count, there is one iteration per ping, as many successful ones as received,
  and the lost percentage is at most 100, and exactly 100 when nothing was received.
\<close>

theorem run_pings_sound:
  assumes "attempts tp n w = Some (Ok rs, w')" and "with_capacity env n = Ok ()"
    and "total_elapsed rs < MAX_DURATION" and "n * 100 < 2 ^ 64" and "0 < n"
  shows "\<exists>rep. run_pings env tp n w = Some (Ok rep, w') \<and> sm_count (pr_summary rep) = n \<and>
    sm_recv (pr_summary rep) + sm_lose (pr_summary rep) = n \<and> length (pr_iterations rep) = n \<and>
    length (filter it_success (pr_iterations rep)) = sm_recv (pr_summary rep) \<and>
    sm_lose_pct (pr_summary rep) \<le> 100 \<and> (sm_lose_pct (pr_summary rep) = 100 \<longleftrightarrow> sm_recv (pr_summary rep) = 0)"
proof -
  have n: "sm_count (pr_summary (report_of env rs)) = n" "rs \<noteq> []"
    using attempts_length [OF assms(1)] assms(5) by (auto simp: report_of_def)
  show ?thesis
    using run_pings_report [OF assms(1-4)] report_facts [where rs = rs and env = env] n by metis
qed

text \<open>An environment for the witnesses.\<close>

definition plain_env :: "nat mcp_env" where
  "plain_env = \<lparr>with_capacity = \<lambda>_. Ok (), ms = \<lambda>d. d div 1000000, ms_zero = 0, error_text = err_msg, to_json = \<lambda>r. Inr ''{}''\<rparr>"

lemma run_pings_sound_witness:
  "\<exists>rep. run_pings plain_env (timed (lab (\<lambda>_. None)) (udp_ping (lab (\<lambda>_. None)) (UdpPinger_new ''srv:5300''))) 3 one_datagram =
     Some (Ok rep, lab_start []) \<and> sm_recv (pr_summary rep) + sm_lose (pr_summary rep) = 3 \<and> length (pr_iterations rep) = 3"
  using run_pings_sound [OF one_datagram_attempts, of plain_env] by (force simp: plain_env_def MAX_DURATION_def)

text \<open>
  C28. One program, two reports. For a tool called without a timeout and the subcommand with its
  arguments and count, from the same state after the banner's lookup, the MCP summary has the numbers
  of the statistic shown on the terminal.
\<close>

theorem mcp_matches_cli:
  fixes sk :: "('w, 'h, 'c, 's, 'k, 'e, 'n, 'ep, 't, 'ch, 'st) stack"
  assumes "tool_timeout_ms t = None" and "n = count_or_default (tool_count t)"
    and "resolve_target (net_regex (sk_net sk)) (tool_command t) = Ok s" and "resolve (sk_net sk) s w = Some (Ok addrs, w1)"
    and "attempts (timed (sk_net sk) (dyn_ping sk (build_pinger (tool_command t)))) n w1 = Some (Ok rs, w2)"
    and "with_capacity env n = Ok ()" and "total_elapsed rs < MAX_DURATION" and "n * 100 < 2 ^ 64"
  shows "\<exists>shown total_time recv recv_pct rep.
    cli_main sk (tool_command t) n w = Some (Ok (DnsLookup addrs # shown @
      [Statistic total_time n recv recv_pct (sm_lose (pr_summary rep)) (sm_lose_pct (pr_summary rep))]), w2) \<and>
    call_tool env sk t w1 = Some (Ok (report_to_result env rep), w2) \<and>
    sm_count (pr_summary rep) = n \<and> sm_recv (pr_summary rep) = recv \<and> sm_total_ms (pr_summary rep) = ms env total_time"
proof -
  have r: "length rs = n" by (rule attempts_length [OF assms(5)])
  have cli: "cli_main sk (tool_command t) n w = Some (Ok (DnsLookup addrs # map (shown_outcome (target_of (tool_command t))) rs @
      [Statistic (total_elapsed rs) n (received rs) (received rs * 100 div n) (lost rs) (lost rs * 100 div n)]), w2)"
    using cli_main_reports_fact [OF assms(3,4,5,7,8)] by blast
  have mcp: "call_tool env sk t w1 = Some (Ok (report_to_result env (report_of env rs)), w2)"
    using run_pings_report [OF assms(5,6,7,8)]
    by (simp add: tools_are_commands_fact [OF assms(1)] ping_tool_def io_bind_def flip: assms(2))
  show ?thesis
    by (rule exI [of _ "map (shown_outcome (target_of (tool_command t))) rs"], rule exI [of _ "total_elapsed rs"],
        rule exI [of _ "received rs"], rule exI [of _ "received rs * 100 div n"], rule exI [of _ "report_of env rs"])
      (simp add: cli mcp report_of_def r)
qed

lemma mcp_matches_cli_witness:
  "\<forall>ws q t. \<exists>shown total_time recv recv_pct lose lose_pct.
    cli_main (lab_stack (\<lambda>_. None) ws q t) (CmdUdp ''srv:5300'') 3 one_datagram =
      Some (Ok (DnsLookup [] # shown @ [Statistic total_time 3 recv recv_pct lose lose_pct]), lab_start []) \<and>
    call_tool plain_env (lab_stack (\<lambda>_. None) ws q t) (ToolUdp \<lparr>ta_target = ''srv:5300'', ta_count = Some 3, ta_timeout_ms = None\<rparr>)
      one_datagram = Some (Ok (Inr ''{}''), lab_start [])"
proof (intro allI)
  fix ws q t
  have r: "resolve (lab (\<lambda>_. None)) ''srv:5300'' one_datagram = Some (Ok [], one_datagram)"
    unfolding resolve_def by (simp add: lab_def [of "\<lambda>_. None"])
  show "\<exists>shown total_time recv recv_pct lose lose_pct.
    cli_main (lab_stack (\<lambda>_. None) ws q t) (CmdUdp ''srv:5300'') 3 one_datagram =
      Some (Ok (DnsLookup [] # shown @ [Statistic total_time 3 recv recv_pct lose lose_pct]), lab_start []) \<and>
    call_tool plain_env (lab_stack (\<lambda>_. None) ws q t) (ToolUdp \<lparr>ta_target = ''srv:5300'', ta_count = Some 3, ta_timeout_ms = None\<rparr>)
      one_datagram = Some (Ok (Inr ''{}''), lab_start [])"
    using mcp_matches_cli [of "ToolUdp \<lparr>ta_target = ''srv:5300'', ta_count = Some 3, ta_timeout_ms = None\<rparr>" 3
        "lab_stack (\<lambda>_. None) ws q t" "''srv:5300''" one_datagram "[]" one_datagram _ _ plain_env,
        simplified, OF _ r one_datagram_attempts]
    by (auto simp: count_or_default_def plain_env_def MAX_DURATION_def report_to_result_def)
qed

end
