(* ===== verification/Banner.thy ===== *)
theory Banner
  imports Cli
begin

text \<open>
  The "DNS lookup" line of \<open>knockknock/src/main.rs\<close>: the address it shows for a subcommand against the
  address the subcommand's pinger dials, and that the ping cannot succeed without that address.
\<close>

section \<open>The address dialed\<close>

text \<open>
  The address a subcommand's pinger dials, as its protocol computes it. For gRPC it is the address in the URL
  that tonic is given, with the default ports of http and https.
\<close>

definition on_uri :: "engine \<Rightarrow> string \<Rightarrow> (URI \<Rightarrow> string result) \<Rightarrow> string result" where
  "on_uri rx s f = bind_r (get_uri rx s) f"

abbreviation lower_scheme :: "URI \<Rightarrow> string" where
  "lower_scheme u \<equiv> to_ascii_lowercase (uri_scheme u)"

definition url_address :: "engine \<Rightarrow> string \<Rightarrow> string result" where
  "url_address rx url = on_uri rx url (\<lambda>u. Ok (uri_domain u @ '':'' @
     dec (unat (if 0 < uri_port u then as_u16 (uri_port u) else if lower_scheme u = ''https'' then 443 else 80))))"

fun dialed :: "engine \<Rightarrow> Command \<Rightarrow> string result" where
  "dialed rx (CmdDns server _ _) = dns_server_endpoint rx server"
| "dialed rx (CmdNtp server) = ntp_server_endpoint rx server"
| "dialed rx (CmdStun server) = stun_server_endpoint STUN_DEFAULT_PORT rx server"
| "dialed rx (CmdTurn server) = stun_server_endpoint TURN_DEFAULT_PORT rx server"
| "dialed rx (CmdMqtt broker _ _) =
     on_uri rx broker (\<lambda>u. mqtt_endpoint_for u (if lower_scheme u = ''mqtts'' then DEFAULT_PORT_TLS else DEFAULT_PORT_PLAIN))"
| "dialed rx (CmdRtsp target) =
     on_uri rx target (\<lambda>u. rtsp_endpoint_for u (if lower_scheme u = ''rtsps'' then RTSP_PORT_TLS else RTSP_PORT_PLAIN))"
| "dialed rx (CmdRtmp target) =
     on_uri rx target (\<lambda>u. rtmp_endpoint_for u (if lower_scheme u = ''rtmps'' then RTMP_PORT_TLS else RTMP_PORT_PLAIN))"
| "dialed rx (CmdHttp method) =
     on_uri rx (snd (http_parts method)) (\<lambda>u. http_endpoint_for u (if lower_scheme u = ''https'' then 443 else 80))"
| "dialed rx (CmdHls url) = on_uri rx url (\<lambda>u. hls_endpoint_for u (if lower_scheme u = ''https'' then 443 else 80))"
| "dialed rx (CmdWs target) = on_uri rx target (\<lambda>u. ws_endpoint_for u (if lower_scheme u = ''wss'' then 443 else 80))"
| "dialed rx (CmdTls target) = tls_dial rx target"
| "dialed rx (CmdQuic endpoint _) =
     bind_r (parse_endpoint rx endpoint) (\<lambda>(host, port). Ok (host @ '':'' @ dec (unat port)))"
| "dialed rx (CmdGrpc endpoint _ _) = bind_r (normalize_endpoint endpoint) (url_address rx)"
| "dialed rx cmd = Ok (target_of cmd)"

text \<open>
  The targets that are compared, where it is not every target with a host. A scheme the pinger rejects is dialed
  nowhere. A TCP or UDP target is handed to the socket as it is, which takes host:port only. A gRPC or QUIC
  endpoint is trimmed by its pinger and not by the command line, and the schemes that gRPC rewrites are in
  lower case; one in upper case becomes the host of an http URL (\<open>grpc_tls_disagrees\<close>).
\<close>

fun accepted :: "Command \<Rightarrow> URI \<Rightarrow> bool" where
  "accepted (CmdTcp target) u = (target = uri_domain u @ '':'' @ dec (nat (uri_port u)) \<and> 0 < uri_port u \<and> uri_port u < 65536)"
| "accepted (CmdUdp target) u = (target = uri_domain u @ '':'' @ dec (nat (uri_port u)) \<and> 0 < uri_port u \<and> uri_port u < 65536)"
| "accepted (CmdHttp _) u = (lower_scheme u \<in> {[], ''http'', ''https''})"
| "accepted (CmdHls _) u = (lower_scheme u \<in> {[], ''http'', ''https''})"
| "accepted (CmdWs _) u = (lower_scheme u \<in> {''ws'', ''wss''})"
| "accepted (CmdGrpc endpoint _ _) u = (trim endpoint = endpoint \<and> uri_scheme u \<in> {[], ''grpc'', ''grpcs'', ''http'', ''https''})"
| "accepted (CmdQuic endpoint _) u = (trim endpoint = endpoint \<and> lower_scheme u \<in> {[], ''quic'', ''https'', ''h3''})"
| "accepted _ u = True"

text \<open>
  Where the banner is wrong: the TLS pinger dials 443 for any target without a port, but the command line
  leaves a target with a colon to \<open>resolve\<close>, which takes 443 for https and wss only.
\<close>

fun misses :: "Command \<Rightarrow> URI \<Rightarrow> bool" where
  "misses (CmdTls target) u = (CHR '':'' \<in> set target \<and> uri_port u \<le> 0 \<and> lower_scheme u \<notin> {''https'', ''wss''})"
| "misses _ u = False"

definition banner :: "('w, 'h, 'c) net \<Rightarrow> string \<Rightarrow> ('w, socket_addr list) io" where
  "banner net address = io_catch (lookup_host net address) io_ok (\<lambda>_. io_ok [])"

lemma resolve_at:
  assumes "get_uri (net_regex net) s = Ok u" and "uri_domain u \<noteq> []"
  shows "resolve net s = banner net (uri_domain u @ '':'' @ dec (unat
    (if 0 < uri_port u then as_u16 (uri_port u) else if lower_scheme u = ''https'' \<or> lower_scheme u = ''wss'' then 443 else 80)))"
  using assms by (simp add: resolve_def banner_def Let_def fun_eq_iff)

lemma resolve_default_port:
  assumes "regex_engine (net_regex net)" and "ascii s" and "get_uri (net_regex net) s = Ok u" and "uri_domain u \<noteq> []" and "p \<noteq> 0"
  shows "\<exists>t. default_port_target (net_regex net) s p = Ok t \<and>
    resolve net t = banner net (uri_domain u @ '':'' @ dec (unat (if 0 < uri_port u then as_u16 (uri_port u) else p)))"
proof -
  have su: "scan_uri s = Ok u"
    using assms(3) by (simp add: regex_engine.get_uri_eq [OF assms(1,2)])
  show ?thesis
  proof (cases "uri_port u = 0")
    case False
    then have "0 < uri_port u" using scan_uri_port_range [OF su] by simp
    then show ?thesis
      using resolve_at [OF assms(3,4)] assms(3) by (simp add: default_port_target_def)
  next
    case True
    let ?a = "uri_domain u @ '':'' @ dec (unat p)"
    have "unat p < 2 ^ 31" using unat_u16 [of p] by simp
    from scan_uri_address [OF assms(4) scan_uri_domain(1) [OF su] this]
    have sa: "scan_uri ?a = Ok (default_uri\<lparr>uri_host := ?a, uri_domain := uri_domain u, uri_port := int (unat p), uri_path := []\<rparr>)" .
    have "ascii (uri_domain u)" using scan_uri_domain(2) [OF su] assms(2) by (auto simp: ascii_iff)
    then have "get_uri (net_regex net) ?a = scan_uri ?a" by (intro regex_engine.get_uri_eq [OF assms(1)]) simp
    then obtain v where ga: "get_uri (net_regex net) ?a = Ok v" and v: "uri_domain v = uri_domain u" "uri_port v = int (unat p)"
      using sa by simp
    have up: "0 < int (unat p)" using assms(5) unat_gt_0 [of p] by linarith
    have ap: "as_u16 (int (unat p)) = p" by (simp add: as_u16_def)
    have "resolve net ?a = banner net ?a"
      using resolve_at [OF ga] assms(4) unfolding v ap by (simp only: up if_True not_False_eq_True)
    then show ?thesis using assms(3,4) True by (simp add: default_port_target_def)
  qed
qed


text \<open>Another scheme in front of the same address changes the scheme only.\<close>

lemma scan_uri_rescheme:
  assumes "scan_uri a = Ok u" and "scan_scheme b = Some (y, r)"
    and "(\<exists>x. scan_scheme a = Some (x, r)) \<or> scan_scheme a = None \<and> a = r"
  shows "scan_uri b = Ok (u\<lparr>uri_scheme := y\<rparr>)"
  using assms(3)
proof (elim disjE exE conjE)
  fix x
  assume "scan_scheme a = Some (x, r)"
  with assms(1,2) show ?thesis
    by (auto simp: scan_uri_def Let_def case_prod_beta split: option.splits)
next
  assume "scan_scheme a = None" "a = r"
  with assms(1,2) show ?thesis
    by (auto simp: scan_uri_def Let_def case_prod_beta split: option.splits)
qed

lemma resolve_rescheme:
  assumes "regex_engine (net_regex net)" and "ascii b" and "scan_uri a = Ok u" and "scan_scheme b = Some (''https'', r)"
    and "(\<exists>x. scan_scheme a = Some (x, r)) \<or> scan_scheme a = None \<and> a = r" and "uri_domain u \<noteq> []"
  shows "resolve net b = banner net (uri_domain u @ '':'' @ dec (unat (if 0 < uri_port u then as_u16 (uri_port u) else 443)))"
proof -
  have g: "get_uri (net_regex net) b = Ok (u\<lparr>uri_scheme := ''https''\<rparr>)"
    using scan_uri_rescheme [OF assms(3,4,5)] by (simp add: regex_engine.get_uri_eq [OF assms(1,2)])
  moreover have "to_ascii_lowercase ''https'' = ''https''" by code_simp
  ultimately show ?thesis using assms(6) resolve_at [OF g] by simp
qed

lemma https_scheme: "scan_scheme (''https://'' @ r) = Some (''https'', r)"
  using scan_scheme_build [of "''https''" r] by (simp add: in_class.simps)

lemma banner_default:
  assumes "regex_engine (net_regex net)" and "ascii s" and "get_uri (net_regex net) s = Ok u" and "uri_domain u \<noteq> []" and "p \<noteq> 0"
    and "resolve_target (net_regex net) c = default_port_target (net_regex net) s p"
    and "dialed (net_regex net) c = Ok (uri_domain u @ '':'' @ dec (unat (if 0 < uri_port u then as_u16 (uri_port u) else p)))"
  shows "\<exists>s ep. resolve_target (net_regex net) c = Ok s \<and> dialed (net_regex net) c = Ok ep \<and> resolve net s = banner net ep"
  using resolve_default_port [OF assms(1-5)] assms(6,7) by auto

lemma eq_ignore_mqtts: "eq_ignore_ascii_case x ''mqtts'' \<longleftrightarrow> to_ascii_lowercase x = ''mqtts''"
proof -
  have "to_ascii_lowercase ''mqtts'' = ''mqtts''" by code_simp
  then show ?thesis by (simp add: eq_ignore_ascii_case_def)
qed

lemma no_colon:
  assumes "CHR '':'' \<notin> set t"
  shows "scan_scheme t = None" and "\<not> contains '':'' t" and "\<not> contains ''://'' t"
  using assms by (cases "scan_scheme t"; auto simp: scan_scheme_iff contains_iff)+

lemma ascii_https [simp]: "ascii (''https://'' @ t) \<longleftrightarrow> ascii t"
  by simp


section \<open>Without the address\<close>

text \<open>
  An address no connection, datagram socket, lookup or gRPC channel gets through to: \<open>configured\<close> are the
  endpoints that tonic's builder methods make of one.
\<close>

inductive configured :: "('w, 'ep, 't, 'ch, 'st) tonic \<Rightarrow> 'ep \<Rightarrow> 'ep \<Rightarrow> bool" for t where
  given: "configured t e e"
| timeout: "configured t e f \<Longrightarrow> configured t e (ep_timeout t d f)"
| connect_timeout: "configured t e f \<Longrightarrow> configured t e (ep_connect_timeout t d f)"
| tls: "configured t e f \<Longrightarrow> ep_tls_config t c f = Inr g \<Longrightarrow> configured t e g"

definition fails :: "('w, 'a) io \<Rightarrow> bool" where
  "fails m = (\<forall>w x w'. m w \<noteq> Some (Ok x, w'))"

definition unreachable :: "('w, 'h, 'c, 's, 'k, 'e, 'n, 'ep, 't, 'ch, 'st) stack \<Rightarrow> string \<Rightarrow> bool" where
  "unreachable sk a \<longleftrightarrow> fails (tcp_connect (sk_net sk) a) \<and> (\<forall>h. fails (udp_connect (sk_net sk) h a)) \<and>
     fails (lookup_host (sk_net sk) a) \<and>
     (\<forall>url e0 e w ch w'. from_shared (sk_tonic sk) url = Inr e0 \<longrightarrow> url_address (net_regex (sk_net sk)) url = Ok a \<longrightarrow>
        configured (sk_tonic sk) e0 e \<longrightarrow> ep_connect (sk_tonic sk) e w \<noteq> Some (Inr ch, w'))"

lemma fails_lift_iff [simp]: "fails (io_lift r) \<longleftrightarrow> (\<forall>x. r \<noteq> Ok x)"
  by (simp add: fails_def)

lemma fails_bind: "fails m \<Longrightarrow> fails (io_bind m f)"
  unfolding fails_def io_bind_def by (auto split: Option.bind_splits result.splits)

lemma fails_later: "(\<And>x. fails (f x)) \<Longrightarrow> fails (io_bind m f)"
  unfolding fails_def io_bind_def by (auto split: Option.bind_splits result.splits)

lemma fails_lift [simp]: "fails (io_bind (io_lift r) f) \<longleftrightarrow> (\<forall>x. r = Ok x \<longrightarrow> fails (f x))"
  unfolding fails_def by (auto split: result.split)

lemma fails_timeout:
  assumes "prompt net" and "fails m"
  shows "fails (with_timeout net d m)"
  unfolding fails_def
proof (intro allI notI)
  fix w x w'
  assume "with_timeout net d m w = Some (Ok x, w')"
  then have "tokio_timeout net d m w = (Some (Ok x), w')"
    by (auto simp: with_timeout_def split: prod.splits option.splits)
  then show False
    using assms(1) [unfolded prompt_def, rule_format, where fut = m and w = w and d = d] assms(2)
    unfolding fails_def by (cases "m w") auto
qed

lemma fails_exchange: "(\<And>h. fails (udp_connect net h a)) \<Longrightarrow> fails (udp_exchange net a request n check)"
  unfolding udp_exchange_def by (intro fails_later fails_bind)

text \<open>
  The banner's lookup against the address dialled, one lemma for each way a subcommand finds its port:
  a default spliced into the target (\<open>default_port_target\<close>), the target as it is, and the two
  targets that become an \<open>https://\<close> URL.
\<close>

abbreviation banner_agrees :: "('w, 'h, 'c) net \<Rightarrow> Command \<Rightarrow> bool" where
  "banner_agrees net c \<equiv> \<exists>s ep. resolve_target (net_regex net) c = Ok s \<and> dialed (net_regex net) c = Ok ep \<and>
    resolve net s = banner net ep"

lemma banner_datagram:
  assumes "regex_engine (net_regex net)" and "ascii (target_of c)" and "get_uri (net_regex net) (target_of c) = Ok u"
    and "uri_domain u \<noteq> []" and "accepted c u"
    and "(\<exists>server q t. c = CmdDns server q t) \<or> (\<exists>server. c \<in> {CmdNtp server, CmdStun server, CmdTurn server})"
  shows "banner_agrees net c"
  using assms(6)
proof (elim disjE exE)
  fix server q t assume "c = CmdDns server q t"
  then show ?thesis
    using assms(1-5) dns_addr.addr_eq [OF assms(3,4)] by (intro banner_default [of net server u 53]) (simp_all add: dns_addr.port_of_def)
next
  fix server assume "c \<in> {CmdNtp server, CmdStun server, CmdTurn server}"
  then consider "c = CmdNtp server" | "c = CmdStun server" | "c = CmdTurn server" by blast
  then show ?thesis
  proof cases
    case 1
    then show ?thesis
      using assms(1-5) ntp_addr.addr_eq [OF assms(3,4)] by (intro banner_default [of net server u 123]) (simp_all add: ntp_addr.port_of_def)
  qed (use assms(1-5) stun_addr.addr_eq [OF assms(3,4), of 3478] in
      \<open>(intro banner_default [of net server u 3478]; simp add: stun_addr.port_of_def)+\<close>)
qed

lemma banner_stream:
  assumes "regex_engine (net_regex net)" and "ascii (target_of c)" and "get_uri (net_regex net) (target_of c) = Ok u"
    and "uri_domain u \<noteq> []" and "accepted c u"
    and "(\<exists>i v. c = CmdMqtt target i v) \<or> c = CmdRtsp target \<or> c = CmdRtmp target"
  shows "banner_agrees net c"
  using assms(6)
proof (elim disjE exE)
  fix i v assume "c = CmdMqtt target i v"
  then show ?thesis
    using assms(1-5) by (intro banner_default [of net target u "if lower_scheme u = ''mqtts'' then 8883 else 1883"])
      (simp_all add: on_uri_def mqtt_endpoint_for_def eq_ignore_mqtts Let_def)
next
  assume "c = CmdRtsp target"
  then show ?thesis
    using assms(1-5) by (intro banner_default [of net target u "if lower_scheme u = ''rtsps'' then 322 else 554"])
      (simp_all add: on_uri_def rtsp_endpoint_for_def rtsp_port_or_def Let_def)
next
  assume "c = CmdRtmp target"
  then show ?thesis
    using assms(1-5) by (intro banner_default [of net target u "if lower_scheme u = ''rtmps'' then 443 else 1935"])
      (simp_all add: on_uri_def rtmp_endpoint_for_def Let_def)
qed

lemma banner_url:
  assumes "get_uri (net_regex net) (target_of c) = Ok u" and "uri_domain u \<noteq> []" and "accepted c u"
    and "(\<exists>m. c = CmdHttp m) \<or> (\<exists>url. c = CmdHls url) \<or> (\<exists>url. c = CmdWs url)"
  shows "banner_agrees net c"
  using assms(4)
proof (elim disjE exE)
  fix m assume c: "c = CmdHttp m"
  have "snd (http_parts m) = target_of c" "resolve_target (net_regex net) c = Ok (target_of c)"
    by (cases m; simp add: c)+
  then show ?thesis
    using assms(1-3) resolve_at [OF assms(1,2)] by (auto simp: c on_uri_def http_endpoint_for_def Let_def)
next
  fix url assume "c = CmdHls url"
  then show ?thesis
    using assms(1-3) resolve_at [OF assms(1,2)] by (auto simp: on_uri_def hls_endpoint_for_def Let_def)
next
  fix url assume "c = CmdWs url"
  then show ?thesis
    using assms(1-3) resolve_at [OF assms(1,2)] by (auto simp: on_uri_def ws_endpoint_for_def Let_def)
qed

lemma banner_tls:
  assumes "regex_engine (net_regex net)" and "ascii target" and "get_uri (net_regex net) target = Ok u" and "uri_domain u \<noteq> []"
  shows "\<exists>s. resolve_target (net_regex net) (CmdTls target) = Ok s \<and>
    dialed (net_regex net) (CmdTls target) = Ok (uri_domain u @ '':'' @ dec (unat (if 0 < uri_port u then as_u16 (uri_port u) else 443))) \<and>
    resolve net s = banner net (uri_domain u @ '':'' @ dec (unat
      (if 0 < uri_port u then as_u16 (uri_port u) else if misses (CmdTls target) u then 80 else 443)))"
proof -
  have su: "scan_uri target = Ok u" using assms(3) by (simp add: regex_engine.get_uri_eq [OF assms(1,2)])
  have d: "dialed (net_regex net) (CmdTls target) = Ok (uri_domain u @ '':'' @ dec (unat (if 0 < uri_port u then as_u16 (uri_port u) else 443)))"
    using tls_addr.addr_eq [OF assms(3,4)] by (simp add: tls_addr.port_of_def)
  show ?thesis
  proof (cases "CHR '':'' \<in> set target")
    case True
    then have "contains '':'' target" by (auto simp: contains_iff dest: split_list)
    then have "resolve_target (net_regex net) (CmdTls target) = Ok target" by simp
    moreover have "resolve net target = banner net (uri_domain u @ '':'' @ dec (unat
        (if 0 < uri_port u then as_u16 (uri_port u) else if misses (CmdTls target) u then 80 else 443)))"
      unfolding resolve_at [OF assms(3,4)] using True by (simp add: not_less)
    ultimately show ?thesis using d by blast
  next
    case False
    have "resolve net (''https://'' @ target) = banner net (uri_domain u @ '':'' @ dec (unat (if 0 < uri_port u then as_u16 (uri_port u) else 443)))"
      using assms(2) no_colon(1) [OF False] by (intro resolve_rescheme [OF assms(1) _ su https_scheme _ assms(4)]) simp_all
    moreover have "resolve_target (net_regex net) (CmdTls target) = Ok (''https://'' @ target)" using no_colon(2,3) [OF False] by simp
    ultimately show ?thesis using d False by simp
  qed
qed

text \<open>TCP and UDP.\<close>

lemma banner_given:
  assumes "get_uri (net_regex net) target = Ok u" and "uri_domain u \<noteq> []"
    and "target = uri_domain u @ '':'' @ dec (nat (uri_port u))" and "0 < uri_port u" and "uri_port u < 65536"
  shows "resolve net target = banner net target"
proof -
  have "unat (as_u16 (uri_port u)) = nat (uri_port u)"
    using assms(4,5) by (simp add: unat_as_u16 nat_less_iff)
  then show ?thesis using resolve_at [OF assms(1,2)] assms(3,4) by simp
qed

text \<open>gRPC: the command line and the pinger rewrite the endpoint to the same URL, or to the same address.\<close>

lemma resolve_url:
  assumes "get_uri (net_regex net) s = Ok v" and "uri_domain v \<noteq> []" and "lower_scheme v \<noteq> ''wss''"
  shows "\<exists>a. url_address (net_regex net) s = Ok a \<and> resolve net s = banner net a"
  using resolve_at [OF assms(1,2)] assms(3) by (simp add: url_address_def on_uri_def assms(1))

lemma banner_grpc:
  assumes "regex_engine (net_regex net)" and "ascii e" and "get_uri (net_regex net) e = Ok u"
    and "uri_domain u \<noteq> []" and "accepted (CmdGrpc e service watch) u"
  shows "banner_agrees net (CmdGrpc e service watch)"
proof -
  let ?rx = "net_regex net"
  have su: "scan_uri e = Ok u" using assms(3) by (simp add: regex_engine.get_uri_eq [OF assms(1,2)])
  have ne: "e \<noteq> []" using scan_uri_domain(2) [OF su] assms(4) by auto
  have t: "trim e = e" and sc: "uri_scheme u \<in> {[], ''grpc'', ''grpcs'', ''http'', ''https''}" using assms(5) by simp_all
  have starts: "uri_scheme u = sc \<longleftrightarrow> starts_with (sc @ ''://'') e" if "sc \<in> {''grpc'', ''grpcs'', ''http'', ''https''}" for sc
    using that by (intro scheme_starts [OF su]) (auto simp: in_class.simps)
  have not: "\<not> starts_with ''grpc://'' e" "\<not> starts_with ''grpcs://'' e" "\<not> starts_with ''http://'' e" "\<not> starts_with ''https://'' e"
    if "uri_scheme u = []" using starts that by fastforce+
  have low: "to_ascii_lowercase ''http'' = ''http''" "to_ascii_lowercase ''https'' = ''https''" "to_ascii_lowercase [] = []" by code_simp+
  have another: "get_uri ?rx (y @ ''://'' @ r) = Ok (u\<lparr>uri_scheme := y\<rparr>)"
    if "(\<exists>x. scan_scheme e = Some (x, r)) \<or> scan_scheme e = None \<and> e = r" "y \<in> {''http'', ''https''}" "ascii r" for y r
  proof -
    have "scan_scheme (y @ ''://'' @ r) = Some (y, r)" using that(2) by (auto simp: scan_scheme_iff in_class.simps)
    from scan_uri_rescheme [OF su this that(1)] show ?thesis
      using that(2,3) by (subst regex_engine.get_uri_eq [OF assms(1)]) auto
  qed
  have rewritten: "banner_agrees net (CmdGrpc e service watch)"
    if e: "e = x @ ''://'' @ r" and xy: "(x, y) \<in> {(''grpc'', ''http''), (''grpcs'', ''https''), (''http'', ''http''), (''https'', ''https'')}" for x y r
  proof -
    let ?url = "y @ ''://'' @ r"
    have "scan_scheme e = Some (x, r)" using e xy by (auto simp: scan_scheme_iff in_class.simps)
    then have g: "get_uri ?rx ?url = Ok (u\<lparr>uri_scheme := y\<rparr>)" using xy assms(2) by (intro another) (auto simp: e)
    have "normalize_endpoint (x @ ''://'' @ r) = Ok ?url" "resolve_target ?rx (CmdGrpc (x @ ''://'' @ r) service watch) = Ok ?url"
      using xy t unfolding e by (auto simp: normalize_endpoint_def strip_prefix_def)
    then show ?thesis using resolve_url [OF g] assms(4) xy low unfolding e by auto
  qed
  consider "uri_scheme u = []" | (grpc) r where "e = ''grpc://'' @ r" | (grpcs) r where "e = ''grpcs://'' @ r"
    | (http) r where "e = ''http://'' @ r" | (https) r where "e = ''https://'' @ r"
    using sc starts by (auto simp: starts_with_iff)
  then show ?thesis
  proof cases
    case 1
    then have none: "scan_scheme e = None"
      using scan_uri_scheme [OF su] by (cases "scan_scheme e") (auto simp: scan_scheme_iff)
    have n: "normalize_endpoint e = Ok (''http://'' @ e)" "resolve_target ?rx (CmdGrpc e service watch) = Ok e"
      using not [OF 1] ne t by (simp_all add: normalize_endpoint_def strip_prefix_def)
    have g: "get_uri ?rx (''http://'' @ e) = Ok (u\<lparr>uri_scheme := ''http''\<rparr>)" using another [of e "''http''"] none assms(2) by simp
    have "url_address ?rx (''http://'' @ e) = url_address ?rx e"
      unfolding url_address_def on_uri_def g assms(3) using 1 low by simp
    moreover obtain a where "url_address ?rx e = Ok a" "resolve net e = banner net a"
      using resolve_url [OF assms(3,4)] 1 low by auto
    ultimately show ?thesis using n by auto
  next
    case grpc
    then show ?thesis by (intro rewritten [of "''grpc''" r "''http''"]) simp_all
  next
    case grpcs
    then show ?thesis by (intro rewritten [of "''grpcs''" r "''https''"]) simp_all
  next
    case http
    then show ?thesis by (intro rewritten [of "''http''" r "''http''"]) simp_all
  next
    case https
    then show ?thesis by (intro rewritten [of "''https''" r "''https''"]) simp_all
  qed
qed

lemma banner_quic:
  assumes "regex_engine (net_regex net)" and "ascii endpoint" and "get_uri (net_regex net) endpoint = Ok u"
    and "uri_domain u \<noteq> []" and "accepted (CmdQuic endpoint alpn) u"
  shows "banner_agrees net (CmdQuic endpoint alpn)"
proof -
  let ?ep = "uri_domain u @ '':'' @ dec (unat (if 0 < uri_port u then as_u16 (uri_port u) else 443))"
  have su: "scan_uri endpoint = Ok u" using assms(3) by (simp add: regex_engine.get_uri_eq [OF assms(1,2)])
  have "endpoint \<noteq> []" using scan_uri_domain(2) [OF su] assms(4) by auto
  then have d: "dialed (net_regex net) (CmdQuic endpoint alpn) = Ok ?ep"
    using assms(3-5) by (auto simp: parse_endpoint_def Let_def)
  show ?thesis
  proof (cases "strip_prefix ''quic://'' endpoint")
    case None
    then show ?thesis using assms d by (intro banner_default [of net endpoint u 443]) simp_all
  next
    case (Some rest)
    then have e: "endpoint = ''quic://'' @ rest" by (simp add: strip_prefix_iff)
    then have "scan_scheme endpoint = Some (''quic'', rest)" by (simp add: scan_scheme_iff in_class.simps)
    then have r: "resolve net (''https://'' @ rest) = banner net ?ep"
      using assms(2) e by (intro resolve_rescheme [OF assms(1) _ su https_scheme _ assms(4)]) simp_all
    have "resolve_target (net_regex net) (CmdQuic endpoint alpn) = Ok (''https://'' @ rest)" using Some by simp
    with d r show ?thesis by blast
  qed
qed

section \<open>The pings need the address\<close>

lemma fails_fetch:
  assumes "fails (tcp_connect net a)" and "on_uri (net_regex net) url (\<lambda>u. hls_endpoint_for u (if lower_scheme u = ''https'' then 443 else 80)) = Ok a"
  shows "fails (http_get net url cfg)"
  using assms(2) unfolding http_get_def http_get_with_range_def fetch_plain_def fetch_tls_def Let_def on_uri_def
  by (auto simp: fails_bind [OF assms(1)] split: option.split)

lemma fails_channel:
  assumes "unreachable sk a" and "bind_r (normalize_endpoint e) (url_address (net_regex (sk_net sk))) = Ok a"
  shows "fails (grpc_channel (net_regex (sk_net sk)) (sk_tonic sk) e d pem)"
proof -
  let ?t = "sk_tonic sk"
  obtain url where url: "normalize_endpoint e = Ok url" "url_address (net_regex (sk_net sk)) url = Ok a"
    using assms(2) by (cases "normalize_endpoint e") auto
  have refused: "fails (await_map_err ''connect: '' (ep_connect ?t f))" if "configured ?t e0 f" "from_shared ?t url = Inr e0" for e0 f
    using assms(1) url(2) that unfolding unreachable_def fails_def await_map_err_def map_err_def
    by (auto split: Option.bind_splits sum.splits)
  have shared: "\<exists>e0. from_shared ?t url = Inr e0 \<and> x = e0" if "map_err InvalidInput [] (from_shared ?t url) = Ok x" for x
    using that by (auto simp: map_err_def split: sum.splits)
  have refused_tls: "fails (await_map_err ''connect: '' (ep_connect ?t g))"
    if "map_err Other m (ep_tls_config ?t cfg f) = Ok g" "configured ?t e0 f" "from_shared ?t url = Inr e0" for m cfg f g e0
    using that by (intro refused [of e0]) (auto simp: map_err_def split: sum.splits intro: configured.tls)
  have set_up: "configured ?t e0 (ep_connect_timeout ?t d (ep_timeout ?t d e0))" for e0
    by (intro configured.intros)
  show ?thesis
    unfolding grpc_channel_def Let_def fails_lift url(1)
    by (auto dest!: shared split: if_splits intro: refused [OF set_up] refused_tls [OF _ set_up])
qed

lemma fails_dns:
  assumes "prompt net" and "\<And>h. fails (udp_connect net h a)" and "dns_server_endpoint (net_regex net) (dns_server p) = Ok a"
  shows "fails (dns_ping net p)"
proof -
  let ?run = "\<lambda>qid. io_bind (io_lift (build_query qid (dns_query p) (RecordType_code (dns_record_type p)))) (\<lambda>request.
      with_timeout net (dns_timeout p) (udp_exchange net a request DNS_BUF_SIZE (\<lambda>buf. dns_validate_response buf request qid)))"
  have run: "fails (?run qid)" for qid
    using fails_timeout [OF assms(1) fails_exchange [OF assms(2)]] by simp
  have "dns_ping net p w = (if dns_query p = [] then io_err (IoError InvalidInput ''DNS query name is empty'') w
      else ?run (random_id (system_time net w)) w)" for w
    by (simp add: dns_ping_def assms(3) Let_def)
  then show ?thesis using run unfolding fails_def by simp
qed

lemma fails_stun:
  assumes "prompt net" and "\<And>h. fails (udp_connect net h a)" and "stun_server_endpoint STUN_DEFAULT_PORT (net_regex net) (stun_server p) = Ok a"
  shows "fails (stun_ping net p)"
proof -
  have "stun_ping net p w = with_timeout net (stun_timeout p) (udp_exchange net a (build_header MSG_BINDING_REQUEST 0
      (random_transaction_id (system_time net w))) STUN_BUF_SIZE (\<lambda>buf. validate_binding_response buf (random_transaction_id (system_time net w)))) w" for w
    by (simp add: stun_ping_def assms(3) Let_def)
  then show ?thesis using fails_timeout [OF assms(1) fails_exchange [OF assms(2)]] unfolding fails_def by simp
qed

lemma fails_turn:
  assumes "prompt net" and "\<And>h. fails (udp_connect net h a)" and "stun_server_endpoint TURN_DEFAULT_PORT (net_regex net) (turn_server p) = Ok a"
  shows "fails (turn_ping net p)"
proof -
  let ?run = "\<lambda>txid. io_bind (io_lift (build_message MSG_ALLOCATE_REQUEST build_requested_transport_attribute txid)) (\<lambda>request.
      with_timeout net (turn_timeout p) (udp_exchange net a request TURN_BUF_SIZE (\<lambda>buf. validate_allocate_error_response buf txid)))"
  have run: "fails (?run txid)" for txid
    using fails_timeout [OF assms(1) fails_exchange [OF assms(2)]] by simp
  have "turn_ping net p w = ?run (random_transaction_id (system_time net w)) w" for w
    by (simp add: turn_ping_def assms(3) Let_def)
  then show ?thesis using run unfolding fails_def by simp
qed

lemma fails_mqtt:
  assumes "prompt net" and "fails (tcp_connect net a)"
    and "on_uri (net_regex net) (mqtt_server p) (\<lambda>u. mqtt_endpoint_for u (if lower_scheme u = ''mqtts'' then DEFAULT_PORT_TLS else DEFAULT_PORT_PLAIN)) = Ok a"
  shows "fails (mqtt_ping net p)"
  using assms(3) unfolding mqtt_ping_def mqtt_ping_plain_def mqtt_ping_tls_def Let_def on_uri_def
  by (auto simp: fails_bind [OF assms(2)] fails_timeout [OF assms(1)] split: option.split)

lemma needs_address:
  assumes "prompt (sk_net sk)" and "dialed (net_regex (sk_net sk)) c = Ok a" and "unreachable sk a"
  shows "fails (dyn_ping sk (build_pinger c))"
proof -
  have tcp: "fails (tcp_connect (sk_net sk) a)" and udp: "\<And>h. fails (udp_connect (sk_net sk) h a)" and look: "fails (lookup_host (sk_net sk) a)"
    using assms(3) by (auto simp: unreachable_def)
  note parts = fails_bind [OF tcp] fails_timeout [OF assms(1)] fails_exchange [OF udp] on_uri_def Let_def
  show ?thesis
  proof (cases c)
    case (CmdTcp target)
    then show ?thesis using assms(2) by (simp add: TcpPinger_new_def tcp_ping_def parts)
  next
    case (CmdUdp target)
    then show ?thesis using assms(2) by (simp add: UdpPinger_new_def udp_ping_def parts)
  next
    case (CmdHttp m)
    obtain meth target where m: "http_parts m = (meth, target)" by fastforce
    then show ?thesis
      using CmdHttp assms(2) by (auto simp: HttpPinger_new_def http_ping_def http_ping_plain_def http_ping_tls_def parts split: option.split)
  next
    case (CmdWs target)
    then show ?thesis
      using assms(2) by (auto simp: WebSocketPinger_new_def ws_ping_def ws_ping_plain_def ws_ping_tls_def parts split: option.split)
  next
    case (CmdDns server q t)
    let ?p = "DnsPinger_with_record_type (DnsPinger_new server q) (record_type_of t)"
    have "dns_server ?p = server" by (simp add: DnsPinger_with_record_type_def DnsPinger_new_def)
    then show ?thesis using CmdDns assms(2) fails_dns [OF assms(1) udp, of ?p] by simp
  next
    case (CmdGrpc e service watch)
    then have "bind_r (normalize_endpoint e) (url_address (net_regex (sk_net sk))) = Ok a" using assms(2) by simp
    from fails_channel [OF assms(3) this] show ?thesis
      using CmdGrpc by (simp add: GrpcPinger_new_def GrpcPinger_with_service_def grpc_ping_def GrpcStreamPinger_new_def
          GrpcStreamPinger_with_service_def grpc_stream_ping_def fails_bind)
  next
    case (CmdHls url)
    then show ?thesis using fails_fetch [OF tcp] assms(2) by (simp add: HlsPinger_new_def hls_ping_def fails_bind parts)
  next
    case (CmdMqtt broker i v)
    have "\<exists>p. dyn_ping sk (build_pinger c) = mqtt_ping (sk_net sk) p \<and> mqtt_server p = broker"
      unfolding CmdMqtt build_pinger.simps Let_def dyn_ping.simps
      by (rule exI, rule conjI, rule refl)
        (simp add: MqttPinger_with_client_id_def MqttPinger_with_version_def MqttPinger_new_def split: option.split)
    then show ?thesis using fails_mqtt [OF assms(1) tcp] assms(2) by (auto simp: CmdMqtt)
  next
    case (CmdTls target)
    then show ?thesis
      using assms(2) tcp by (auto simp: TlsPinger_new_def tls_ping_def tls_dial_def fails_bind Let_def
          intro!: fails_timeout [OF assms(1)] split: if_splits option.split)
  next
    case (CmdNtp server)
    then show ?thesis using assms(2) by (simp add: NtpPinger_new_def ntp_ping_def parts)
  next
    case (CmdStun server)
    then show ?thesis using assms(2) by (simp add: fails_stun [OF assms(1) udp] StunPinger_new_def)
  next
    case (CmdTurn server)
    then show ?thesis using assms(2) by (simp add: fails_turn [OF assms(1) udp] TurnPinger_new_def)
  next
    case (CmdRtsp target)
    then show ?thesis
      using assms(2) by (auto simp: RtspPinger_new_def rtsp_ping_def rtsp_ping_plain_def rtsp_ping_tls_def parts split: option.split)
  next
    case (CmdRtmp target)
    then show ?thesis
      using assms(2) by (auto simp: RtmpPinger_new_def rtmp_ping_def rtmp_ping_plain_def rtmp_ping_tls_def parts split: option.split)
  next
    case (CmdQuic endpoint alpn)
    then show ?thesis
      using assms(2) look by (auto simp: quic_ping_def resolve_first_def QuicPinger_with_alpn_def QuicPinger_new_def Let_def intro!: fails_bind)
  qed
qed

section \<open>Properties\<close>

text \<open>
  C6. The banner. For every subcommand whose target its pinger accepts, TCP, UDP and gRPC included, the pinger
  dials one address, without which its ping cannot succeed, and that address is the one looked up for the
  "DNS lookup" line: the default port of the protocol, the schemes that mean TLS and the ports given in the target
  agree. The exception is a TLS target with a colon, no port and a scheme other than https and wss: port 443 is
  dialed and port 80 is shown. The resolver's failures show as no address.
\<close>

theorem banner_dials:
  assumes "regex_engine (net_regex (sk_net sk))" and "prompt (sk_net sk)"
    and "ascii (target_of c)" and "get_uri (net_regex (sk_net sk)) (target_of c) = Ok u"
    and "uri_domain u \<noteq> []" and "accepted c u"
  shows "\<exists>s ep. resolve_target (net_regex (sk_net sk)) c = Ok s \<and> dialed (net_regex (sk_net sk)) c = Ok ep \<and>
    resolve (sk_net sk) s = banner (sk_net sk) (if misses c u then uri_domain u @ '':80'' else ep) \<and>
    (misses c u \<longrightarrow> ep = uri_domain u @ '':443'') \<and>
    (unreachable sk ep \<longrightarrow> (\<forall>w x w'. dyn_ping sk (build_pinger c) w \<noteq> Some (Ok x, w')))"
proof -
  let ?net = "sk_net sk"
  have ports: "dec (unat (80 :: u16)) = ''80''" "dec (unat (443 :: u16)) = ''443''" by (simp_all add: dec.simps digit_char_def)
  have agrees: ?thesis if b: "banner_agrees ?net c" and "\<not> misses c u"
    using b that(2) needs_address [OF assms(2), of c] unfolding fails_def by auto
  show ?thesis
  proof (cases c)
    case (CmdTls target)
    let ?ep = "uri_domain u @ '':'' @ dec (unat (if 0 < uri_port u then as_u16 (uri_port u) else 443))"
    obtain s where s: "resolve_target (net_regex ?net) c = Ok s" "dialed (net_regex ?net) c = Ok ?ep"
        "resolve ?net s = banner ?net (uri_domain u @ '':'' @ dec (unat
          (if 0 < uri_port u then as_u16 (uri_port u) else if misses c u then 80 else 443)))"
      using banner_tls [OF assms(1), of target u] assms(3-5) unfolding CmdTls target_of.simps by blast
    have "\<not> 0 < uri_port u" if "misses c u" using that by (simp add: CmdTls)
    then show ?thesis
      using s needs_address [OF assms(2) s(2)] ports unfolding fails_def
      by (intro exI [of _ s] exI [of _ ?ep]) (cases "misses c u"; simp)
  next
    case (CmdQuic endpoint alpn)
    have "banner_agrees ?net c" using banner_quic [of ?net endpoint u alpn] assms(1,3-6) unfolding CmdQuic target_of.simps by blast
    then show ?thesis by (rule agrees) (simp add: CmdQuic)
  next
    case (CmdGrpc e service watch)
    have "banner_agrees ?net c" using banner_grpc [of ?net e u service watch] assms(1,3-6) unfolding CmdGrpc target_of.simps by blast
    then show ?thesis by (rule agrees) (simp add: CmdGrpc)
  next
    case (CmdTcp target)
    then have g: "get_uri (net_regex ?net) target = Ok u" "target = uri_domain u @ '':'' @ dec (nat (uri_port u))"
        "0 < uri_port u" "uri_port u < 65536" using assms(4,6) by simp_all
    then show ?thesis using banner_given [OF g(1) assms(5) g(2-4)] by (intro agrees) (simp_all add: CmdTcp)
  next
    case (CmdUdp target)
    then have g: "get_uri (net_regex ?net) target = Ok u" "target = uri_domain u @ '':'' @ dec (nat (uri_port u))"
        "0 < uri_port u" "uri_port u < 65536" using assms(4,6) by simp_all
    then show ?thesis using banner_given [OF g(1) assms(5) g(2-4)] by (intro agrees) (simp_all add: CmdUdp)
  next
    case CmdDns
    then show ?thesis by (intro agrees banner_datagram [OF assms(1,3-6)]) auto
  next
    case CmdNtp
    then show ?thesis by (intro agrees banner_datagram [OF assms(1,3-6)]) auto
  next
    case CmdStun
    then show ?thesis by (intro agrees banner_datagram [OF assms(1,3-6)]) auto
  next
    case CmdTurn
    then show ?thesis by (intro agrees banner_datagram [OF assms(1,3-6)]) auto
  next
    case (CmdMqtt target i v)
    then show ?thesis by (intro agrees banner_stream [OF assms(1,3-6), of target]) auto
  next
    case (CmdRtsp target)
    then show ?thesis by (intro agrees banner_stream [OF assms(1,3-6), of target]) auto
  next
    case (CmdRtmp target)
    then show ?thesis by (intro agrees banner_stream [OF assms(1,3-6), of target]) auto
  next
    case CmdHttp
    then show ?thesis by (intro agrees banner_url [OF assms(4,5,6)]) auto
  next
    case CmdHls
    then show ?thesis by (intro agrees banner_url [OF assms(4,5,6)]) auto
  next
    case CmdWs
    then show ?thesis by (intro agrees banner_url [OF assms(4,5,6)]) auto
  qed
qed

text \<open>A gRPC endpoint, and a TLS target on which the banner is wrong.\<close>

lemma banner_dials_witness:
  "\<forall>ws q t.
    (\<exists>s ep. resolve_target first_match (CmdGrpc ''grpcs://srv'' [] False) = Ok s \<and> dialed first_match (CmdGrpc ''grpcs://srv'' [] False) = Ok ep \<and>
       resolve (lab (\<lambda>_. None)) s = banner (lab (\<lambda>_. None)) ep) \<and>
    (\<exists>s. resolve_target first_match (CmdTls ''tls://srv'') = Ok s \<and> dialed first_match (CmdTls ''tls://srv'') = Ok ''srv:443'' \<and>
       resolve (lab (\<lambda>_. None)) s = banner (lab (\<lambda>_. None)) ''srv:80'' \<and>
       (unreachable (lab_stack (\<lambda>_. None) ws q t) ''srv:443'' \<longrightarrow>
          (\<forall>w x w'. dyn_ping (lab_stack (\<lambda>_. None) ws q t) (build_pinger (CmdTls ''tls://srv'')) w \<noteq> Some (Ok x, w'))))"
proof (intro allI conjI)
  fix ws q t
  let ?sk = "lab_stack (\<lambda>_. None) ws q t"
  let ?u = "\<lambda>s. \<lparr>uri_scheme = s, uri_username = [], uri_password = [], uri_host = ''srv'',
      uri_domain = ''srv'', uri_port = 0, uri_path = [], uri_query = [], uri_fragment = []\<rparr>"
  have a: "ascii ''grpcs://srv''" "ascii ''tls://srv''" by code_simp+
  have "scan_uri ''grpcs://srv'' = Ok (?u ''grpcs'')" "scan_uri ''tls://srv'' = Ok (?u ''tls'')" by code_simp+
  then have u: "get_uri (net_regex (sk_net ?sk)) ''grpcs://srv'' = Ok (?u ''grpcs'')" "get_uri (net_regex (sk_net ?sk)) ''tls://srv'' = Ok (?u ''tls'')"
    using a by (simp_all add: get_uri_lab)
  have r: "regex_engine (net_regex (sk_net ?sk))" using reference_engine.regex_engine_axioms by simp
  have p: "prompt (sk_net ?sk)" by simp
  have t: "trim ''grpcs://srv'' = ''grpcs://srv''" by (rule trim_id) (simp_all add: graphic_def)
  have ok: "accepted (CmdGrpc ''grpcs://srv'' [] False) (?u ''grpcs'')" "accepted (CmdTls ''tls://srv'') (?u ''tls'')"
    using t by simp_all
  have m: "misses (CmdTls ''tls://srv'') (?u ''tls'')" by (simp add: to_ascii_lowercase_def to_lower_def)
  show "\<exists>s ep. resolve_target first_match (CmdGrpc ''grpcs://srv'' [] False) = Ok s \<and> dialed first_match (CmdGrpc ''grpcs://srv'' [] False) = Ok ep \<and>
       resolve (lab (\<lambda>_. None)) s = banner (lab (\<lambda>_. None)) ep"
    using banner_dials [OF r p, of "CmdGrpc ''grpcs://srv'' [] False" "?u ''grpcs''"] a(1) u(1) ok(1) by auto
  show "\<exists>s. resolve_target first_match (CmdTls ''tls://srv'') = Ok s \<and> dialed first_match (CmdTls ''tls://srv'') = Ok ''srv:443'' \<and>
       resolve (lab (\<lambda>_. None)) s = banner (lab (\<lambda>_. None)) ''srv:80'' \<and>
       (unreachable ?sk ''srv:443'' \<longrightarrow> (\<forall>w x w'. dyn_ping ?sk (build_pinger (CmdTls ''tls://srv'')) w \<noteq> Some (Ok x, w')))"
    using banner_dials [OF r p, of "CmdTls ''tls://srv''" "?u ''tls''"] a(2) u(2) ok(2) m by auto
qed

end
