(* ===== verification/Spec2Isabelle.thy ===== *)
theory Spec2Isabelle
  imports Responders HlsServer WsServer GrpcServer Threads TlsConfig MqttDuplex RtmpDuplex Features LineLaws CliTests Mcp Banner
begin

text \<open>
  Verification development for \<open>knock_knock\<close>: the \<open>zpinger\<close> library (sixteen "pingers", one per
  protocol, behind the trait \<open>Pinger\<close>), the \<open>knockknock\<close> command line tool and the \<open>knockknock-mcp\<close> server
  that run them, and the \<open>testserver\<close> crate they are exercised against.

  \<^bold>\<open>How the program is modelled.\<close> A Rust \<open>io::Result\<close> is \<open>'a result\<close>: \<open>Ok\<close>, \<open>Err\<close> with the error kind and text,
  or \<open>Panic\<close> (\<open>unwrap\<close>, slice bounds, overflow checks of the debug profile). A future is a function
  of type \<open>('w, 'a) io\<close> from the world to an optional result and world; \<open>None\<close> is a future that never
  completes. \<open>io_bind\<close> is \<open>.await?\<close>, \<open>io_catch\<close> is a \<open>match\<close> on the awaited result. Loops that may not end are
  \<open>partial_function (option)\<close>; loops over data end and are total. A \<open>str\<close> is the list of its UTF-8 bytes
  (type \<open>string\<close>), a buffer a list of \<open>8 word\<close>; lengths, ids and ports keep the source's width.

  \<^bold>\<open>What the program calls\<close> and the repository does not contain is a parameter: the records \<open>net\<close> (regex
  engine, sockets, streams, timer, resolver, rustls, clocks; theory \<open>Env\<close>), \<open>tungstenite\<close> (\<open>WebSocket\<close>),
  \<open>quinn\<close> (\<open>Quic\<close>), \<open>tonic\<close> (\<open>Grpc\<close>) and \<open>mcp_env\<close> (\<open>Mcp\<close>: allocator, \<open>f64\<close>, serde_json). What the code relies on is stated
  as locales over them: \<open>regex_engine\<close> (leftmost-first search), \<open>byte_stream\<close> and \<open>stream_peer\<close> (tokio's
  \<open>read\<close>/\<open>read_exact\<close>/\<open>write_all\<close> on a stream whose peer sends given bytes, in pieces the network
  chooses), \<open>datagram_peer\<close> (a connected UDP socket and a responder), \<open>request_server\<close> (a server that answers
  one request per connection), \<open>ws_peer\<close> and \<open>ws_visitor\<close> (a WebSocket that yields
  given items, at the client and at the server), \<open>health_protocol\<close> (gRPC health checking, tonic's client against
  tonic-health's service); \<open>prompt\<close> says that the timer does not fire before
  a future that completes. Theory \<open>Lab\<close> builds a concrete network, interprets these locales on it, and every
  witness runs there. Two locales are interpreted on the code's own functions: \<open>dial_address\<close>
  (\<open>Endpoint\<close>), the contract of the seven \<open>server_endpoint\<close>/\<open>endpoint_for\<close> functions, and \<open>stateless\<close>
  (\<open>Responders\<close>), the contract of the five UDP servers.

  \<^bold>\<open>Theories, and the source they model.\<close>
  \<^item> \<open>Prelude\<close>, \<open>Bytes\<close>, \<open>Strings\<close>, \<open>Utf8\<close>: results and futures; buffers and big-endian integers; the parts
    of \<open>str\<close> and \<open>core::fmt\<close> in use; \<open>from_utf8\<close> and \<open>from_utf8_lossy\<close>, and
    what a lossy text says of the ASCII bytes at the head of its buffer.
  \<^item> \<open>Regex\<close>, \<open>Uri\<close>, \<open>UriLaws\<close>: \<open>zpinger/src/uri.rs\<close>. The pattern of the source under leftmost-first search is
    equal to a left-to-right scanner on ASCII text; on the scanner: when \<open>get_uri\<close> panics, the range of
    the port, the round trip with \<open>get_url\<close>.
  \<^item> \<open>UriRange\<close>: the values a URI with a scheme can have, as a field grammar, shown to be exactly the
    values parsing yields; \<open>get_url\<close> prints a normal form.
  \<^item> \<open>Env\<close>, \<open>Endpoint\<close>, \<open>Lab\<close>: \<open>util.rs\<close>, \<open>pinger.rs\<close>, \<open>resolve\<close> of \<open>lib.rs\<close>; the interfaces; the address dialed parses
    back to the domain and the port cut to 16 bits.
  \<^item> \<open>Ntp\<close>, \<open>Dns\<close>, \<open>Stun\<close>, \<open>Turn\<close>, \<open>Level4\<close>: the datagram pingers (and TCP). Each ping succeeds exactly on the
    answers that an independent description of the message accepts, and is the timeout error
    without an answer; the name encoding round-trips; the TURN attribute walk finds ERROR-CODE
    exactly in well-formed attribute lists and never reads out of bounds.
  \<^item> \<open>Mqtt\<close>, \<open>Rtmp\<close>, \<open>Rtsp\<close>, \<open>Http\<close>, \<open>TlsHandshake\<close>, \<open>Hls\<close>: the stream pingers. Each ping is related to a function
    of the bytes the peer sends, whatever the pieces they arrive in (for HTTP, which judges one
    read, the dependence on the piece is itself stated); what is written is stated byte for byte.
    The HLS ping refines a plan over a request/response map: playlist, variant, segment.
  \<^item> \<open>WebSocket\<close>, \<open>Quic\<close>, \<open>Grpc\<close>: the pingers over tungstenite, quinn and tonic.
  \<^item> \<open>Responders\<close>, \<open>StreamServers\<close>, \<open>HlsServer\<close>, \<open>WsServer\<close>, \<open>GrpcServer\<close>: \<open>testserver/src/lib.rs\<close>. Servers as functions of what they receive,
    the MQTT session refined by an abstract broker on packet sequences, and the meeting lemmas:
    each ping and its server, each reading what the other writes, succeed. The datagram servers meet their pings
    as started by the source, whatever datagrams they answered before.
  \<^item> \<open>Startup\<close>: the start functions of \<open>testserver/src/lib.rs\<close> (bind, certificates, TLS configurations, serving
    thread) and \<open>testserver/src/main.rs\<close>, over the record \<open>os\<close>. The locale \<open>os_threads\<close> says that only
    \<open>thread::spawn\<close> starts a thread; on it, a server that does not start leaves no thread behind (the QUIC server
    excepted, whose thread is spawned before its set-up), and the
    program starts its fourteen servers in order or exits at the first that fails.
  \<^item> \<open>Threads\<close>, \<open>TlsConfig\<close>: the accept loops of the TCP servers, the threads of the gRPC and QUIC servers up to tonic and
    quinn, the text \<open>testserver\<close> prints; the default TLS configuration of \<open>zpinger/src/tls.rs\<close> and its cell.
  \<^item> \<open>Duplex\<close>, \<open>Serving\<close>, \<open>MqttDuplex\<close>, \<open>RtmpDuplex\<close>: programs as machines that stop at each \<open>read_exact\<close> and \<open>write_all\<close>.
    \<open>exec\<close> runs a machine against a stream and is proved equal to the code (ping session, MQTT broker, RTMP handshake
    and server). \<open>step\<close> is the step relation of two machines over two channels, \<open>serving_step\<close> that of a server with its
    accept loop, a thread per connection, and its clients. Steps of different programs commute, so that one
    complete run decides how every run ends; the properties speak of all interleavings.
  \<^item> \<open>Conformance\<close>, \<open>CliTests\<close>: the unit tests of the ten protocol modules of \<open>zpinger\<close> and of \<open>knockknock/src/main.rs\<close>,
    translated, and that the model passes them.
  \<^item> \<open>Features\<close>: the features of \<open>zpinger/Cargo.toml\<close>, the \<open>cfg\<close> attributes, and which names and crates each item
    uses. All gates are monotone, so that one check for each minimal way to turn an item on covers all selections.
  \<^item> \<open>CommandLine\<close>, \<open>LineLaws\<close>: what \<open>main.rs\<close> declares to clap, and how matches become a \<open>Cli\<close>. clap is a parameter; \<open>reads_plain_lines\<close>
    says that it agrees, on lines of subcommands, plain values and declared option names, with the reading \<open>plain_parse\<close> that
    its documentation describes. A command is shown to be read back from each
    way to write it, and every accepted plain line to become a command.
  \<^item> \<open>Pingers\<close>, \<open>Cli\<close>, \<open>Banner\<close>, \<open>Mcp\<close>: \<open>Box<dyn Pinger>\<close>, \<open>knockknock/src/main.rs\<close> and \<open>bin/knockknock-mcp.rs\<close>. Both ping
    loops refine \<open>attempts\<close>, the list of outcomes of a run; from it come the counts and percentages, their
    \<open>u64\<close> bounds, and that the two programs report the same numbers. The address the "DNS lookup" banner shows is the address
    the ping needs: a network on which it cannot be reached makes the ping fail (TCP, UDP and gRPC included; TLS targets whose
    scheme gives the banner a port other than 443 are the exception, stated and reported).

  \<^bold>\<open>Bounds and fuel.\<close> There is no fuel in the pings, and none in the machines: \<open>exec\<close> is
  a \<open>partial_function (option)\<close>, and the runs of \<open>step\<close> and \<open>serving_step\<close> have any length. \<open>take_word\<close> and the splitting of \<open>split_whitespace\<close> in
  \<open>HlsServer\<close> take the length of the text as a bound on their steps, and each step consumes at least one byte. The MQTT packet
  reader runs its four iterations. The RTSP header loop, the HLS read loop and the WebSocket loop are
  \<open>partial_function (option)\<close>; that they end on every finite stream is proved (\<open>rtsp_read_loop_ends\<close>,
  \<open>hls_ping_refines_plan\<close>, \<open>ws_ping_outcome\<close>), as is that of the WebSocket servers (\<open>ws_visitor\<close>). Sizes and bounds (255-byte buffers, 4096 bytes of RTSP headers, 255 bytes of a
  name) are the source's.

  \<^bold>\<open>Not modelled.\<close> The command lines that are not plain (\<open>--long=value\<close>, \<open>--help\<close>, a value that begins with a dash), clap's messages,
  colours and number formatting; the JSON that serde, schemars and rmcp read and write (the tools are functions of their
  argument structs); \<open>tests/integration.rs\<close>, whose claims are the meeting theorems; what tonic, tonic-health and
  quinn do with a connection; \<open>f64\<close> values. Channels between machines are not bounded: a writer never waits for a reader, and
  partial reads (\<open>read\<close>) are in the stream interfaces but not in the machines, which only use \<open>read_exact\<close>. Text outside ASCII goes
  through the regex engine as a parameter: the scanner lemma and what rests on it assume an
  ASCII target, because the engine's \<open>\w\<close> and \<open>\d\<close> follow Unicode tables.
\<close>

end
